(* ===== verification/Prelude.thy ===== *)
theory Prelude
  imports Main "HOL-Library.Word" "HOL-Library.List_Lexorder" "HOL-Library.Char_ord"
    "HOL-Library.Multiset" "HOL-Library.Sublist"
begin

text \<open>
  Shared vocabulary of the development: the collections of rewrite rules, the result type of
  fallible Go functions, the loop that stops at the first error, and generic facts about lists
  and maps that the component theories use.

  A Go function returning \<open>(T, error)\<close> is a function into \<open>'e + 'a\<close>: \<open>Inl\<close> is the non-nil error,
  \<open>Inr\<close> the value returned with a nil error. A function returning only \<open>error\<close> has result type
  \<open>'e + unit\<close>. A Go slice whose nil value can be told from the empty slice (by
  \<open>reflect.DeepEqual\<close>) is an optional list.
\<close>

named_theorems go_string_simps
named_theorems alert_defs
named_theorems modbus_defs

type_synonym 'a slice = "'a list option"

text \<open>
  An error is what \<open>errors.New\<close> or \<open>fmt.Errorf\<close> builds: the format, the arguments printed into it and
  the error wrapped by \<open>%w\<close>, which \<open>errors.Is\<close> looks through.
\<close>

datatype fmt_arg = FStr string | FInt int

datatype go_error = Errorf string "fmt_arg list" "go_error option"

definition errors_new :: "string \<Rightarrow> go_error" where
  "errors_new message = Errorf message [] None"

definition errorf :: "string \<Rightarrow> fmt_arg list \<Rightarrow> go_error" where
  "errorf form args = Errorf form args None"

definition wrapf :: "string \<Rightarrow> fmt_arg list \<Rightarrow> go_error \<Rightarrow> go_error" where
  "wrapf form args err = Errorf form args (Some err)"

fun errors_is :: "go_error \<Rightarrow> go_error \<Rightarrow> bool" where
  "errors_is (Errorf form args w) target =
     (Errorf form args w = target \<or> (case w of None \<Rightarrow> False | Some e \<Rightarrow> errors_is e target))"

definition slice_list :: "'a slice \<Rightarrow> 'a list" where
  "slice_list s = (case s of None \<Rightarrow> [] | Some xs \<Rightarrow> xs)"

definition append_nil :: "'a list \<Rightarrow> 'a slice" where
  "append_nil xs = (if xs = [] then None else Some xs)"

text \<open>\<open>for _, x := range xs { if err := f(x); err != nil { return err } }\<close>\<close>

fun check_all :: "('a \<Rightarrow> 'e + unit) \<Rightarrow> 'a list \<Rightarrow> 'e + unit" where
  "check_all f [] = Inr ()"
| "check_all f (x # xs) = (case f x of Inl e \<Rightarrow> Inl e | Inr _ \<Rightarrow> check_all f xs)"

definition ok :: "'e + 'a \<Rightarrow> bool" where
  "ok r = (case r of Inl _ \<Rightarrow> False | Inr _ \<Rightarrow> True)"

lemma ok_simps [simp]: "ok (Inl e) = False" "ok (Inr x) = True"
  by (simp_all add: ok_def)

lemma ok_iff: "ok r \<longleftrightarrow> (\<exists>x. r = Inr x)"
  by (cases r) simp_all

lemma ok_unit_iff: "(r = Inr ()) = ok r"
  by (cases r) (simp_all add: ok_def)

lemma ok_case_const [simp]:
  "ok (case r of Inl e \<Rightarrow> Inl (f e) | Inr _ \<Rightarrow> k) \<longleftrightarrow> ok r \<and> ok k"
  by (cases r) simp_all

lemma ok_case:
  "ok (case r of Inl e \<Rightarrow> Inl (f e) | Inr x \<Rightarrow> g x) \<longleftrightarrow> (\<exists>x. r = Inr x \<and> ok (g x))"
  by (cases r) simp_all

lemma ok_if_Inl [simp]: "ok (if b then Inl e else r) \<longleftrightarrow> \<not> b \<and> ok r"
  by simp

lemma case_Inr_iff:
  "(case r of Inl e \<Rightarrow> Inl (f e) | Inr x \<Rightarrow> g x) = Inr y \<longleftrightarrow> (\<exists>x. r = Inr x \<and> g x = Inr y)"
  by (cases r) simp_all

lemma unit_case_Inr_iff:
  "(case r of Inl e \<Rightarrow> Inl (f e) | Inr (_ :: unit) \<Rightarrow> k) = Inr y \<longleftrightarrow> ok r \<and> k = Inr y"
  by (cases r) simp_all

lemma slice_list_simps [simp]: "slice_list None = []" "slice_list (Some xs) = xs"
  by (simp_all add: slice_list_def)

lemma slice_list_append_nil [simp]: "slice_list (append_nil xs) = xs"
  by (simp add: append_nil_def)

lemma check_all_ok [simp]: "ok (check_all f xs) \<longleftrightarrow> (\<forall>x\<in>set xs. ok (f x))"
  by (induction xs) (auto split: sum.splits)

end
