(* ===== verification/Go_Strings.thy ===== *)
theory Go_Strings
  imports Prelude
begin

text \<open>
  The functions of Go's package \<open>strings\<close> that the program calls, on byte strings (a Go string is
  a byte sequence, an Isabelle \<open>char\<close> is a byte). \<open>TrimSpace\<close> is exact on every byte string: Go
  strips the runes with the Unicode white-space property, and a rune of that class stands at the
  front (or at the back) of a string exactly when its UTF-8 encoding is a prefix (or a suffix).
\<close>

definition space_seqs :: "string list" where
  "space_seqs =
     [[CHR 0x20], [CHR 0x09], [CHR 0x0A], [CHR 0x0B], [CHR 0x0C], [CHR 0x0D],
      [CHR 0xC2, CHR 0x85], [CHR 0xC2, CHR 0xA0], [CHR 0xE1, CHR 0x9A, CHR 0x80],
      [CHR 0xE2, CHR 0x80, CHR 0x80], [CHR 0xE2, CHR 0x80, CHR 0x81],
      [CHR 0xE2, CHR 0x80, CHR 0x82], [CHR 0xE2, CHR 0x80, CHR 0x83],
      [CHR 0xE2, CHR 0x80, CHR 0x84], [CHR 0xE2, CHR 0x80, CHR 0x85],
      [CHR 0xE2, CHR 0x80, CHR 0x86], [CHR 0xE2, CHR 0x80, CHR 0x87],
      [CHR 0xE2, CHR 0x80, CHR 0x88], [CHR 0xE2, CHR 0x80, CHR 0x89],
      [CHR 0xE2, CHR 0x80, CHR 0x8A], [CHR 0xE2, CHR 0x80, CHR 0xA8],
      [CHR 0xE2, CHR 0x80, CHR 0xA9], [CHR 0xE2, CHR 0x80, CHR 0xAF],
      [CHR 0xE2, CHR 0x81, CHR 0x9F], [CHR 0xE3, CHR 0x80, CHR 0x80]]"

function strip_seqs :: "string list \<Rightarrow> string \<Rightarrow> string" where
  "strip_seqs ws s =
     (case find (\<lambda>w. w \<noteq> [] \<and> prefix w s) ws of
        None \<Rightarrow> s
      | Some w \<Rightarrow> strip_seqs ws (drop (length w) s))"
  by pat_completeness auto
termination
proof (relation "measure (\<lambda>(ws, s). length s)")
  fix ws s w
  assume "find (\<lambda>w. w \<noteq> [] \<and> prefix w s) ws = Some w"
  then have "w \<noteq> []" and "prefix w s"
    by (auto simp: find_Some_iff)
  then show "((ws, drop (length w) s), ws, s) \<in> measure (\<lambda>(ws, s). length s)"
    by (cases s) auto
qed simp

declare strip_seqs.simps [simp del]

definition trim_left :: "string \<Rightarrow> string" where
  "trim_left s = strip_seqs space_seqs s"

definition trim_right :: "string \<Rightarrow> string" where
  "trim_right s = rev (strip_seqs (map rev space_seqs) (rev s))"

definition trim_space :: "string \<Rightarrow> string" where
  "trim_space s = trim_right (trim_left s)"

definition has_suffix :: "string \<Rightarrow> string \<Rightarrow> bool" where
  "has_suffix s suf \<longleftrightarrow> suffix suf s"

definition has_prefix :: "string \<Rightarrow> string \<Rightarrow> bool" where
  "has_prefix s pre \<longleftrightarrow> prefix pre s"

definition trim_suffix :: "string \<Rightarrow> string \<Rightarrow> string" where
  "trim_suffix s suf = (if has_suffix s suf then take (length s - length suf) s else s)"

definition trim_prefix :: "string \<Rightarrow> string \<Rightarrow> string" where
  "trim_prefix s pre = (if has_prefix s pre then drop (length pre) s else s)"

definition cut_prefix :: "string \<Rightarrow> string \<Rightarrow> string \<times> bool" where
  "cut_prefix s pre = (if has_prefix s pre then (drop (length pre) s, True) else (s, False))"

definition contains_any :: "string \<Rightarrow> string \<Rightarrow> bool" where
  "contains_any s chars \<longleftrightarrow> list_ex (\<lambda>c. List.member chars c) s"

definition contains_str :: "string \<Rightarrow> string \<Rightarrow> bool" where
  "contains_str s sub \<longleftrightarrow> sublist sub s"

text \<open>\<open>strings.Split(s, sep)\<close> for a one-byte separator: never empty.\<close>

fun split_on :: "char \<Rightarrow> string \<Rightarrow> string list" where
  "split_on c [] = [[]]"
| "split_on c (x # xs) =
     (if x = c then [] # split_on c xs
      else (case split_on c xs of [] \<Rightarrow> [[x]] | t # ts \<Rightarrow> (x # t) # ts))"

fun join_on :: "char \<Rightarrow> string list \<Rightarrow> string" where
  "join_on c [] = []"
| "join_on c [t] = t"
| "join_on c (t # ts) = t @ c # join_on c ts"

section \<open>Facts\<close>

lemma strip_seqs_suffix: "suffix (strip_seqs ws s) s"
proof (induction ws s rule: strip_seqs.induct)
  case (1 ws s)
  show ?case
  proof (cases "find (\<lambda>w. w \<noteq> [] \<and> prefix w s) ws")
    case None
    then show ?thesis by (simp add: strip_seqs.simps [of ws s])
  next
    case (Some w)
    then have "suffix (strip_seqs ws (drop (length w) s)) (drop (length w) s)"
      by (rule "1.IH")
    then have "suffix (strip_seqs ws (drop (length w) s)) s"
      using suffix_drop suffix_order.trans by blast
    with Some show ?thesis by (simp add: strip_seqs.simps [of ws s])
  qed
qed

lemma strip_seqs_stuck: "find (\<lambda>w. w \<noteq> [] \<and> prefix w (strip_seqs ws s)) ws = None"
proof (induction ws s rule: strip_seqs.induct)
  case (1 ws s)
  then show ?case
    by (cases "find (\<lambda>w. w \<noteq> [] \<and> prefix w s) ws") (simp_all add: strip_seqs.simps [of ws s])
qed

lemma strip_seqs_fix:
  assumes "find (\<lambda>w. w \<noteq> [] \<and> prefix w s) ws = None"
  shows "strip_seqs ws s = s"
  using assms by (simp add: strip_seqs.simps)

lemma trim_right_prefix: "prefix (trim_right s) s"
proof -
  have "suffix (strip_seqs (map rev space_seqs) (rev s)) (rev s)"
    by (rule strip_seqs_suffix)
  then show ?thesis
    by (simp add: trim_right_def suffix_to_prefix)
qed

lemma trim_right_idem: "trim_right (trim_right s) = trim_right s"
proof -
  let ?ws = "map rev space_seqs"
  have "strip_seqs ?ws (strip_seqs ?ws (rev s)) = strip_seqs ?ws (rev s)"
    by (rule strip_seqs_fix [OF strip_seqs_stuck])
  then show ?thesis by (simp add: trim_right_def)
qed

lemma trim_left_trim_space: "trim_left (trim_space s) = trim_space s"
proof -
  have pre: "prefix (trim_space s) (trim_left s)"
    by (simp add: trim_space_def trim_right_prefix)
  have "find (\<lambda>w. w \<noteq> [] \<and> prefix w (trim_left s)) space_seqs = None"
    by (simp add: trim_left_def strip_seqs_stuck)
  then have "find (\<lambda>w. w \<noteq> [] \<and> prefix w (trim_space s)) space_seqs = None"
    using pre by (auto simp: find_None_iff dest: prefix_order.trans)
  then show ?thesis
    by (simp add: trim_left_def strip_seqs_fix)
qed

lemma trim_space_idem [simp]: "trim_space (trim_space s) = trim_space s"
  by (metis trim_left_trim_space trim_right_idem trim_space_def)

lemma trim_space_Nil [simp]: "trim_space [] = []"
  using strip_seqs_suffix [of space_seqs "[]"] strip_seqs_suffix [of "map rev space_seqs" "[]"]
  by (simp add: trim_space_def trim_left_def trim_right_def)

lemma length_trim_space: "length (trim_space s) \<le> length s"
proof -
  have "length (trim_space s) \<le> length (trim_left s)"
    by (simp add: trim_space_def trim_right_prefix prefix_length_le)
  also have "\<dots> \<le> length s"
    by (simp add: trim_left_def strip_seqs_suffix suffix_length_le)
  finally show ?thesis .
qed

lemma has_suffix_iff [go_string_simps]: "has_suffix s suf \<longleftrightarrow> (\<exists>b. s = b @ suf)"
  by (auto simp: has_suffix_def suffix_def)

lemma has_prefix_iff [go_string_simps]: "has_prefix s pre \<longleftrightarrow> (\<exists>r. s = pre @ r)"
  by (auto simp: has_prefix_def prefix_def)

lemma trim_suffix_append [simp]: "trim_suffix (b @ suf) suf = b"
  by (simp add: trim_suffix_def has_suffix_iff)

lemma trim_suffix_other: "\<not> has_suffix s suf \<Longrightarrow> trim_suffix s suf = s"
  by (simp add: trim_suffix_def)

lemma trim_suffix_changed:
  assumes "suf \<noteq> []"
  shows "trim_suffix s suf \<noteq> s \<longleftrightarrow> has_suffix s suf"
  using assms by (auto simp: trim_suffix_def has_suffix_iff)

lemma trim_prefix_append [simp]: "trim_prefix (pre @ r) pre = r"
  by (simp add: trim_prefix_def has_prefix_iff)

lemma cut_prefix_append [simp]: "cut_prefix (pre @ r) pre = (r, True)"
  by (simp add: cut_prefix_def has_prefix_iff)

lemma contains_any_iff [go_string_simps]:
  "contains_any s chars \<longleftrightarrow> (\<exists>c\<in>set s. c \<in> set chars)"
  by (auto simp: contains_any_def list_ex_iff)

lemma split_on_nonempty [simp]: "split_on c s \<noteq> []"
  by (induction s) (auto split: list.splits)

lemma join_split: "join_on c (split_on c s) = s"
proof (induction s)
  case Nil
  show ?case by simp
next
  case (Cons x xs)
  obtain t ts where split: "split_on c xs = t # ts"
    by (cases "split_on c xs") simp_all
  then show ?case
    using Cons.IH by (cases ts) auto
qed

lemma split_on_no_sep: "t \<in> set (split_on c s) \<Longrightarrow> c \<notin> set t"
  by (induction s arbitrary: t) (auto split: if_splits list.splits)

lemma set_split_on: "(\<Union>t\<in>set (split_on c s). set t) = set s - {c}"
proof (induction s)
  case Nil
  show ?case by simp
next
  case (Cons x xs)
  obtain t ts where split: "split_on c xs = t # ts"
    by (cases "split_on c xs") simp_all
  then show ?case
    using Cons.IH by auto
qed

lemma split_on_append:
  "split_on c (a @ c # b) = split_on c a @ split_on c b"
proof (induction a)
  case Nil
  show ?case by simp
next
  case (Cons x a)
  obtain t ts where "split_on c a = t # ts"
    by (cases "split_on c a") simp_all
  with Cons.IH show ?case by simp
qed

end
