(* ===== verification/Go_Numbers.thy ===== *)
theory Go_Numbers
  imports Go_Strings
begin

text \<open>
  The numbers of the program. \<open>int64\<close> values are only compared, printed and transported, so they
  are HOL integers (the readers below reject what does not fit 64 bits). A \<open>float64\<close> is its IEEE
  754 bit pattern: \<open>math.Float64frombits\<close> is then the identity and comparison is defined on the
  bits. \<open>strconv.ParseInt\<close> (base 10, 64 bits) and \<open>strconv.ParseFloat\<close> are written out;
  \<open>parse_float64\<close> reads decimal notation and rounds to nearest, ties to even. The spelled values
  (\<open>Inf\<close>, \<open>NaN\<close>), which every caller of the program rejects, are errors here, and hexadecimal
  notation, which no JSON number uses, is not read.
\<close>

type_synonym f64 = "64 word"
type_synonym f32 = "32 word"
type_synonym u16 = "16 word"
type_synonym u8 = "8 word"

section \<open>Comparison of floats\<close>

definition f64_mag :: "f64 \<Rightarrow> int" where
  "f64_mag w = uint w mod 2 ^ 63"

definition f64_neg :: "f64 \<Rightarrow> bool" where
  "f64_neg w \<longleftrightarrow> 2 ^ 63 \<le> uint w"

definition f64_nan :: "f64 \<Rightarrow> bool" where
  "f64_nan w \<longleftrightarrow> 0x7FF0000000000000 < f64_mag w"

definition f64_inf :: "f64 \<Rightarrow> bool" where
  "f64_inf w \<longleftrightarrow> f64_mag w = 0x7FF0000000000000"

text \<open>Sign and magnitude read as an integer: the order of the non-NaN floats, with \<open>-0 = +0\<close>.\<close>

definition f64_key :: "f64 \<Rightarrow> int" where
  "f64_key w = (if f64_neg w then - f64_mag w else f64_mag w)"

definition f64_lt :: "f64 \<Rightarrow> f64 \<Rightarrow> bool" where
  "f64_lt a b \<longleftrightarrow> \<not> f64_nan a \<and> \<not> f64_nan b \<and> f64_key a < f64_key b"

definition f64_ge :: "f64 \<Rightarrow> f64 \<Rightarrow> bool" where
  "f64_ge a b \<longleftrightarrow> \<not> f64_nan a \<and> \<not> f64_nan b \<and> f64_key b \<le> f64_key a"

definition f64_eq :: "f64 \<Rightarrow> f64 \<Rightarrow> bool" where
  "f64_eq a b \<longleftrightarrow> \<not> f64_nan a \<and> \<not> f64_nan b \<and> f64_key a = f64_key b"

section \<open>Reading integers\<close>

definition is_digit :: "char \<Rightarrow> bool" where
  "is_digit c \<longleftrightarrow> 48 \<le> (of_char c :: int) \<and> (of_char c :: int) \<le> 57"

definition digit_val :: "char \<Rightarrow> int" where
  "digit_val c = of_char c - 48"

definition digits_val :: "string \<Rightarrow> int" where
  "digits_val s = foldl (\<lambda>acc c. 10 * acc + digit_val c) 0 s"

definition split_sign :: "string \<Rightarrow> bool \<times> string" where
  "split_sign s =
     (case s of
        [] \<Rightarrow> (False, [])
      | c # r \<Rightarrow> (if c = CHR ''-'' then (True, r) else if c = CHR ''+'' then (False, r) else (False, s)))"

definition parse_int64 :: "string \<Rightarrow> int option" where
  "parse_int64 s =
     (let (neg, ds) = split_sign s; n = digits_val ds
      in if ds = [] \<or> \<not> list_all is_digit ds then None
         else if neg then (if n \<le> 2 ^ 63 then Some (- n) else None)
         else (if n < 2 ^ 63 then Some n else None))"

section \<open>Reading floats\<close>

text \<open>The number of binary digits of a positive integer.\<close>

function bit_len :: "int \<Rightarrow> int" where
  "bit_len n = (if n \<le> 0 then 0 else 1 + bit_len (n div 2))"
  by pat_completeness auto
termination
  by (relation "measure nat") auto

declare bit_len.simps [simp del]

text \<open>Quotient rounded to nearest, ties to even.\<close>

definition round_div :: "int \<Rightarrow> int \<Rightarrow> int" where
  "round_div n d =
     (let q = n div d; r = n mod d
      in if 2 * r < d \<or> (2 * r = d \<and> even q) then q else q + 1)"

definition f64_round :: "int \<Rightarrow> int \<Rightarrow> int option" where
  "f64_round n d =
     (let k = bit_len n - bit_len d;
          below = (if 0 \<le> k then n < d * 2 ^ nat k else n * 2 ^ nat (- k) < d);
          lg = (if below then k - 1 else k);
          e = max (lg - 52) (- 1074);
          q = (if 0 \<le> e then round_div n (d * 2 ^ nat e) else round_div (n * 2 ^ nat (- e)) d);
          bits = (e + 1074) * 2 ^ 52 + q
      in if bits < 0x7FF0000000000000 then Some bits else None)"

definition f64_of_decimal :: "bool \<Rightarrow> int \<Rightarrow> int \<Rightarrow> f64 option" where
  "f64_of_decimal neg m e10 =
     (case (if m = 0 then Some 0
            else if 0 \<le> e10 then f64_round (m * 10 ^ nat e10) 1
            else f64_round m (10 ^ nat (- e10)))
      of None \<Rightarrow> None
       | Some bits \<Rightarrow> Some (word_of_int (if neg then bits + 2 ^ 63 else bits)))"

definition parse_exponent :: "string \<Rightarrow> int option" where
  "parse_exponent s =
     (case s of
        [] \<Rightarrow> Some 0
      | c # r \<Rightarrow>
          if c \<noteq> CHR ''e'' \<and> c \<noteq> CHR ''E'' then None
          else (let (neg, ds) = split_sign r; n = digits_val ds
                in if ds = [] \<or> \<not> list_all is_digit ds then None
                   else Some (if neg then - n else n)))"

definition parse_float64 :: "string \<Rightarrow> f64 option" where
  "parse_float64 s =
     (let (neg, r) = split_sign s;
          ip = takeWhile is_digit r; r1 = dropWhile is_digit r;
          point = (r1 \<noteq> [] \<and> hd r1 = CHR ''.'');
          r2 = (if point then tl r1 else r1);
          fp = (if point then takeWhile is_digit r2 else []);
          r3 = (if point then dropWhile is_digit r2 else r2)
      in if ip = [] \<and> fp = [] then None
         else (case parse_exponent r3 of
                 None \<Rightarrow> None
               | Some e \<Rightarrow> f64_of_decimal neg (digits_val (ip @ fp)) (e - int (length fp))))"

section \<open>Widening \<open>float32\<close> to \<open>float64\<close>\<close>

text \<open>
  Go's conversion \<open>float64(f)\<close>: exact on every number; a NaN stays a NaN, its payload moves to the
  top of the longer fraction and its quiet bit is set.
\<close>

definition f32_to_f64 :: "f32 \<Rightarrow> f64" where
  "f32_to_f64 w =
     (let b = uint w; s = b div 2 ^ 31; e = b div 2 ^ 23 mod 2 ^ 8; m = b mod 2 ^ 23;
          mag = (if e = 255 then 2047 * 2 ^ 52 + (if m = 0 then 0 else 2 ^ 51 + m mod 2 ^ 22 * 2 ^ 29)
                 else if e \<noteq> 0 then (e + 896) * 2 ^ 52 + m * 2 ^ 29
                 else if m = 0 then 0
                 else (let l = bit_len m in (l + 873) * 2 ^ 52 + (m * 2 ^ nat (53 - l)) mod 2 ^ 52))
      in word_of_int (s * 2 ^ 63 + mag))"

section \<open>Facts\<close>

lemma f64_ge_lt: "\<not> f64_nan a \<Longrightarrow> \<not> f64_nan b \<Longrightarrow> f64_ge a b \<longleftrightarrow> \<not> f64_lt a b"
  by (auto simp: f64_ge_def f64_lt_def)

lemma digits_val_nonneg:
  assumes "list_all is_digit ds"
  shows "0 \<le> digits_val ds"
proof -
  have "0 \<le> foldl (\<lambda>acc c. 10 * acc + digit_val c) acc ds" if "0 \<le> acc" for acc
    using assms that by (induction ds arbitrary: acc) (auto simp: is_digit_def digit_val_def)
  then show ?thesis by (simp add: digits_val_def)
qed

lemma parse_int64_range:
  assumes "parse_int64 s = Some n"
  shows "- (2 ^ 63) \<le> n \<and> n < 2 ^ 63"
proof -
  obtain neg ds where s: "split_sign s = (neg, ds)" by fastforce
  with assms have "list_all is_digit ds"
    by (auto simp: parse_int64_def Let_def split: if_splits)
  then have "0 \<le> digits_val ds" by (rule digits_val_nonneg)
  with assms s show ?thesis
    by (auto simp: parse_int64_def Let_def split: if_splits)
qed

lemma f64_round_finite: "f64_round n d = Some bits \<Longrightarrow> bits < 0x7FF0000000000000"
  by (auto simp: f64_round_def Let_def split: if_splits)

end
