(* ===== verification/Alert_Model.thy ===== *)
theory Alert_Model
  imports Go_Numbers
begin

text \<open>
  The data of \<open>alert/model.go\<close>. Records are the structs, in the order of their fields; a pointer
  field is an option (\<open>nil\<close> is \<open>None\<close>). A \<open>json.Number\<close> is its literal. The string types \<open>Type\<close> and
  \<open>ValueType\<close> are datatypes whose last constructor holds any other string. A \<open>time.Time\<close> is an
  instant (nanoseconds) with the location it is read in; \<open>UTC()\<close> keeps the instant.
\<close>

datatype alert_type = TypeBinary | TypeValue | TypeSummary | TypeOther string

datatype value_type = ValueTypeInt64 | ValueTypeFloat64 | ValueTypeOther string

datatype zone = ZoneUTC | ZoneOffset int

record gotime =
  instant :: int
  location :: zone

definition utc :: "gotime \<Rightarrow> gotime" where
  "utc t = t\<lparr>location := ZoneUTC\<rparr>"

definition zone_offset :: "gotime \<Rightarrow> int" where
  "zone_offset t = (case location t of ZoneUTC \<Rightarrow> 0 | ZoneOffset n \<Rightarrow> n)"

record properties =
  pr_version :: int
  pr_color :: string
  pr_abbreviation :: string
  pr_short_sign :: string
  pr_priority :: int
  pr_requires_ack :: bool

record mapping_cfg =
  mp_property :: string
  mp_text :: string

record binary_config =
  bc_bad_value :: bool
  bc_true :: mapping_cfg
  bc_false :: mapping_cfg

record interval =
  iv_min :: "string option"
  iv_max :: "string option"
  iv_active :: bool
  iv_property :: string
  iv_text :: string

record value_config =
  vc_type :: value_type
  vc_intervals :: "interval list"

record summary_config =
  sc_members :: "string list"

record config =
  cf_version :: int
  cf_enabled :: bool
  cf_type :: alert_type
  cf_binary :: "binary_config option"
  cf_value :: "value_config option"
  cf_summary :: "summary_config option"

record presentation =
  ps_property :: string
  ps_color :: string
  ps_abbreviation :: string
  ps_short_sign :: string
  ps_priority :: int
  ps_requires_ack :: bool

record state =
  st_version :: int
  st_active :: bool
  st_pending :: bool
  st_presentation :: presentation
  st_text :: string
  st_acknowledged :: bool
  st_came :: "gotime option"
  st_went :: "gotime option"
  st_ack :: "gotime option"
  st_dominant :: string
  st_members :: "string slice"
  st_episode :: string

record evaluation =
  ev_active :: bool
  ev_pending :: bool
  ev_acknowledged :: bool
  ev_presentation :: presentation
  ev_text :: string
  ev_dominant :: string
  ev_members :: "string list"

definition no_presentation :: presentation where
  "no_presentation =
     \<lparr>ps_property = [], ps_color = [], ps_abbreviation = [], ps_short_sign = [],
      ps_priority = 0, ps_requires_ack = False\<rparr>"

definition zero_evaluation :: evaluation where
  "zero_evaluation =
     \<lparr>ev_active = False, ev_pending = False, ev_acknowledged = False,
      ev_presentation = no_presentation, ev_text = [], ev_dominant = [], ev_members = []\<rparr>"

text \<open>The values of the bus (\<open>decodeAny\<close> of the stream client) that reach an alert as \<open>any\<close>.\<close>

datatype any =
    VInt int | VFloat f64 | VString string | VBool bool | VBytes "u8 list"
  | VInts "int list" | VFloats "f64 list" | VStrings "string list" | VBools "bool list"

lemma utc_simps [simp]:
  "instant (utc t) = instant t" "zone_offset (utc t) = 0" "utc (utc t) = utc t"
  by (simp_all add: utc_def zone_offset_def)

lemma no_presentation_simps [simp]:
  "ps_property no_presentation = []" "ps_color no_presentation = []"
  "ps_abbreviation no_presentation = []" "ps_short_sign no_presentation = []"
  "ps_priority no_presentation = 0" "\<not> ps_requires_ack no_presentation"
  by (simp_all add: no_presentation_def)

lemma zero_evaluation_simps [simp]:
  "\<not> ev_active zero_evaluation" "\<not> ev_pending zero_evaluation"
  "\<not> ev_acknowledged zero_evaluation" "ev_presentation zero_evaluation = no_presentation"
  "ev_text zero_evaluation = []" "ev_dominant zero_evaluation = []"
  "ev_members zero_evaluation = []"
  by (simp_all add: zero_evaluation_def)

end
