(* ===== verification/Alert_Protocol.thy ===== *)
theory Alert_Protocol
  imports Alert_Model
begin

text \<open>
  \<open>alert/protocol.go\<close>: the subjects of the alert protocol and the validation of properties,
  configurations and runtime states. Each check is a branch that returns its error; the order of
  the checks is the source's. The three timestamps that \<open>State.Validate\<close> visits in the random
  order of a Go map are visited as came, went, ack, which only affects the name in the error.

  \<open>encoding/json\<close> enters through the two functions of a codec (\<open>decodeStrict\<close> and \<open>encode\<close>), which
  the functions that parse or marshal take as an argument.
\<close>

definition CurrentVersion :: int where "CurrentVersion = 1"

definition propertiesPrefix :: string where "propertiesPrefix = ''AlertProperties.''"
definition configSuffix :: string where "configSuffix = ''.alert_config''"
definition alertSuffix :: string where "alertSuffix = ''.alert''"

section \<open>Subjects\<close>

definition validateToken :: "string \<Rightarrow> go_error + unit" where
  "validateToken token =
     (if token = [] then Inl (errors_new ''subject contains an empty token'')
      else if contains_any token [CHR '' '', CHR 0x09, CHR 0x0D, CHR 0x0A, CHR ''*'', CHR ''>'']
      then Inl (errors_new ''subject contains whitespace or wildcards'')
      else Inr ())"

definition validateSubject :: "string \<Rightarrow> go_error + unit" where
  "validateSubject subject =
     (if trim_space subject = [] then Inl (errors_new ''subject is required'')
      else if subject \<noteq> trim_space subject then Inl (errors_new ''subject must not contain surrounding whitespace'')
      else check_all validateToken (split_on (CHR ''.'') subject))"

definition ValidatePropertiesSubject :: "string \<Rightarrow> go_error + unit" where
  "ValidatePropertiesSubject subject =
     (case validateSubject subject of
        Inl e \<Rightarrow> Inl (wrapf ''invalid alert properties subject: %w'' [] e)
      | Inr _ \<Rightarrow>
          (let name = trim_prefix subject propertiesPrefix
           in if name = subject \<or> name = [] \<or> contains_str name ''.''
              then Inl (errors_new ''alert properties subject must be AlertProperties.<name>'') else Inr ()))"

definition InputSubject :: "string \<Rightarrow> go_error + string" where
  "InputSubject configSubject =
     (case validateSubject configSubject of
        Inl e \<Rightarrow> Inl (wrapf ''invalid alert config subject: %w'' [] e)
      | Inr _ \<Rightarrow>
          (let base = trim_suffix configSubject configSuffix
           in if base = configSubject \<or> base = [] then Inl (errors_new ''alert config subject must end in .alert_config'') else Inr base))"

definition OutputSubject :: "string \<Rightarrow> go_error + string" where
  "OutputSubject configSubject =
     (case InputSubject configSubject of
        Inl e \<Rightarrow> Inl e
      | Inr input \<Rightarrow> Inr (input @ alertSuffix))"

definition validatePropertyReference :: "string \<Rightarrow> go_error + unit" where
  "validatePropertyReference subject =
     (case ValidatePropertiesSubject subject of
        Inl e \<Rightarrow> Inl (wrapf ''invalid property reference %q: %w'' [FStr subject] e)
      | Inr _ \<Rightarrow> Inr ())"

section \<open>Properties and binary configurations\<close>

definition validate_properties :: "properties \<Rightarrow> go_error + unit" where
  "validate_properties p =
     (if pr_version p \<noteq> CurrentVersion then Inl (errorf ''unsupported alert properties version %d'' [FInt (pr_version p)])
      else if trim_space (pr_color p) = [] then Inl (errors_new ''alert properties color is required'')
      else if trim_space (pr_abbreviation p) = [] then Inl (errors_new ''alert properties abbreviation is required'')
      else if trim_space (pr_short_sign p) = [] then Inl (errors_new ''alert properties short_sign is required'')
      else if pr_priority p < 0 then Inl (errors_new ''alert properties priority must not be negative'')
      else Inr ())"

definition validate_mapping :: "mapping_cfg \<Rightarrow> string \<Rightarrow> bool \<Rightarrow> go_error + unit" where
  "validate_mapping m name active =
     (case (if active
            then (case validatePropertyReference (mp_property m) of
                    Inl e \<Rightarrow> Inl (wrapf ''binary %s mapping: %w'' [FStr name] e)
                  | Inr _ \<Rightarrow> Inr ())
            else if mp_property m \<noteq> [] then Inl (errorf ''binary %s good mapping must not define alert properties'' [FStr name])
            else Inr ()) of
        Inl e \<Rightarrow> Inl e
      | Inr _ \<Rightarrow> if trim_space (mp_text m) = [] then Inl (errorf ''binary %s mapping text is required'' [FStr name]) else Inr ())"

definition validate_binary :: "binary_config \<Rightarrow> go_error + unit" where
  "validate_binary c =
     (case validate_mapping (bc_true c) ''true'' (bc_bad_value c) of
        Inl e \<Rightarrow> Inl e
      | Inr _ \<Rightarrow> validate_mapping (bc_false c) ''false'' (\<not> bc_bad_value c))"

section \<open>Value configurations\<close>

definition value_type_name :: "value_type \<Rightarrow> string" where
  "value_type_name ty =
     (case ty of ValueTypeInt64 \<Rightarrow> ''int64'' | ValueTypeFloat64 \<Rightarrow> ''float64''
               | ValueTypeOther s \<Rightarrow> s)"

definition parseBound :: "value_type \<Rightarrow> string option \<Rightarrow> go_error + unit" where
  "parseBound ty bound =
     (case bound of
        None \<Rightarrow> Inr ()
      | Some s \<Rightarrow>
          if ty = ValueTypeInt64
          then (case parse_int64 s of None \<Rightarrow> Inl (errors_new ''must be an int64'') | Some _ \<Rightarrow> Inr ())
          else (case parse_float64 s of
                  None \<Rightarrow> Inl (errors_new ''must be a finite float64'')
                | Some v \<Rightarrow> if f64_inf v \<or> f64_nan v then Inl (errors_new ''must be a finite float64'') else Inr ()))"

text \<open>A failed parse leaves the zero value, whose error these two functions ignore.\<close>

definition boundLess :: "value_type \<Rightarrow> string \<Rightarrow> string \<Rightarrow> bool" where
  "boundLess ty left right =
     (if ty = ValueTypeInt64
      then (case parse_int64 left of None \<Rightarrow> 0 | Some n \<Rightarrow> n)
             < (case parse_int64 right of None \<Rightarrow> 0 | Some n \<Rightarrow> n)
      else f64_lt (case parse_float64 left of None \<Rightarrow> 0 | Some v \<Rightarrow> v)
                  (case parse_float64 right of None \<Rightarrow> 0 | Some v \<Rightarrow> v))"

definition boundsEqual :: "value_type \<Rightarrow> string \<Rightarrow> string \<Rightarrow> bool" where
  "boundsEqual ty left right =
     (if ty = ValueTypeInt64
      then (case (parse_int64 left, parse_int64 right) of
              (Some m, Some n) \<Rightarrow> m = n | _ \<Rightarrow> False)
      else (case (parse_float64 left, parse_float64 right) of
              (Some v, Some w) \<Rightarrow> f64_eq v w | _ \<Rightarrow> False))"

definition validateInterval :: "value_type \<Rightarrow> nat \<Rightarrow> interval \<Rightarrow> go_error + unit" where
  "validateInterval ty index iv =
     (case (if iv_active iv
            then (case validatePropertyReference (iv_property iv) of
                    Inl e \<Rightarrow> Inl (wrapf ''value interval %d: %w'' [FInt (int index)] e)
                  | Inr _ \<Rightarrow> Inr ())
            else if iv_property iv \<noteq> [] then Inl (errorf ''value interval %d good range must not define alert properties'' [FInt (int index)])
            else Inr ()) of
        Inl e \<Rightarrow> Inl e
      | Inr _ \<Rightarrow>
          if trim_space (iv_text iv) = [] then Inl (errorf ''value interval %d text is required'' [FInt (int index)])
          else (case parseBound ty (iv_min iv) of
                  Inl e \<Rightarrow> Inl (wrapf ''value interval %d min: %w'' [FInt (int index)] e)
                | Inr _ \<Rightarrow>
                    (case parseBound ty (iv_max iv) of
                       Inl e \<Rightarrow> Inl (wrapf ''value interval %d max: %w'' [FInt (int index)] e)
                     | Inr _ \<Rightarrow>
                         (case (iv_min iv, iv_max iv) of
                            (Some lo, Some hi) \<Rightarrow>
                              if \<not> boundLess ty lo hi then Inl (errorf ''value interval %d min must be less than max'' [FInt (int index)]) else Inr ()
                          | _ \<Rightarrow> Inr ()))))"

text \<open>The loop over adjacent intervals: \<open>index\<close> is the position of the second one.\<close>

fun validateBoundaries :: "value_type \<Rightarrow> nat \<Rightarrow> interval list \<Rightarrow> go_error + unit" where
  "validateBoundaries ty index (previous # current # rest) =
     (if (case (iv_max previous, iv_min current) of
            (Some hi, Some lo) \<Rightarrow> \<not> boundsEqual ty hi lo
          | _ \<Rightarrow> True)
      then Inl (errorf ''value alert intervals %d and %d must share an exact boundary''
                  [FInt (int (index - 1)), FInt (int index)])
      else validateBoundaries ty (Suc index) (current # rest))"
| "validateBoundaries ty index _ = Inr ()"

definition validate_value :: "value_config \<Rightarrow> go_error + unit" where
  "validate_value c =
     (let ty = vc_type c; ivs = vc_intervals c
      in if ty \<noteq> ValueTypeInt64 \<and> ty \<noteq> ValueTypeFloat64 then Inl (errorf ''unsupported alert value_type %q'' [FStr (value_type_name ty)])
         else if ivs = [] then Inl (errors_new ''value alert intervals are required'')
         else (case check_all (\<lambda>(index, iv). validateInterval ty index iv) (enumerate 0 ivs) of
                 Inl e \<Rightarrow> Inl e
               | Inr _ \<Rightarrow>
                   if iv_min (hd ivs) \<noteq> None then Inl (errors_new ''value alert first interval must have unbounded min'')
                   else if iv_max (last ivs) \<noteq> None then Inl (errors_new ''value alert last interval must have unbounded max'')
                   else validateBoundaries ty 1 ivs))"

section \<open>Summary configurations\<close>

text \<open>The members in their order, with the set \<open>seen\<close> of those already visited.\<close>

fun validateMembers :: "string list \<Rightarrow> string list \<Rightarrow> go_error + unit" where
  "validateMembers seen [] = Inr ()"
| "validateMembers seen (member # rest) =
     (case validateSubject member of
        Inl e \<Rightarrow> Inl (wrapf ''invalid summary member %q: %w'' [FStr member] e)
      | Inr _ \<Rightarrow>
          if \<not> has_suffix member alertSuffix \<or> trim_suffix member alertSuffix = []
          then Inl (errorf ''summary member %q must end in .alert'' [FStr member])
          else if List.member seen member then Inl (errorf ''duplicate summary member %q'' [FStr member])
          else validateMembers (member # seen) rest)"

definition validate_summary :: "summary_config \<Rightarrow> go_error + unit" where
  "validate_summary c =
     (if sc_members c = [] then Inl (errors_new ''summary alert members are required'') else validateMembers [] (sc_members c))"

definition variantCount :: "config \<Rightarrow> nat" where
  "variantCount c =
     (if cf_binary c \<noteq> None then 1 else 0) + (if cf_value c \<noteq> None then 1 else 0)
       + (if cf_summary c \<noteq> None then 1 else 0)"

definition validate_config :: "config \<Rightarrow> go_error + unit" where
  "validate_config c =
     (if cf_version c \<noteq> CurrentVersion then Inl (errorf ''unsupported alert config version %d'' [FInt (cf_version c)])
      else if variantCount c \<noteq> 1 then Inl (errors_new ''alert config must contain exactly one variant'')
      else (case cf_type c of
              TypeBinary \<Rightarrow>
                (case cf_binary c of None \<Rightarrow> Inl (errors_new ''binary alert config requires binary variant'') | Some b \<Rightarrow> validate_binary b)
            | TypeValue \<Rightarrow>
                (case cf_value c of None \<Rightarrow> Inl (errors_new ''value alert config requires value variant'') | Some v \<Rightarrow> validate_value v)
            | TypeSummary \<Rightarrow>
                (case cf_summary c of
                   None \<Rightarrow> Inl (errors_new ''summary alert config requires summary variant'') | Some s \<Rightarrow> validate_summary s)
            | TypeOther t \<Rightarrow> Inl (errorf ''unsupported alert config type %q'' [FStr t])))"

definition ValidateForSubject :: "config \<Rightarrow> string \<Rightarrow> go_error + unit" where
  "ValidateForSubject c subject =
     (case validate_config c of
        Inl e \<Rightarrow> Inl e
      | Inr _ \<Rightarrow>
          (case OutputSubject subject of
             Inl e \<Rightarrow> Inl e
           | Inr output \<Rightarrow>
               (case cf_summary c of
                  None \<Rightarrow> Inr ()
                | Some s \<Rightarrow>
                    if List.member (sc_members s) output then Inl (errorf ''summary alert %q cannot include itself'' [FStr output])
                    else Inr ())))"

section \<open>Runtime states\<close>

definition hasPresentation :: "presentation \<Rightarrow> bool" where
  "hasPresentation p \<longleftrightarrow>
     ps_property p \<noteq> [] \<or> ps_color p \<noteq> [] \<or> ps_abbreviation p \<noteq> [] \<or> ps_short_sign p \<noteq> [] \<or>
     ps_priority p \<noteq> 0 \<or> ps_requires_ack p"

definition validatePresentation :: "presentation \<Rightarrow> go_error + unit" where
  "validatePresentation p =
     (if hasPresentation p
      then (case validatePropertyReference (ps_property p) of
              Inl e \<Rightarrow> Inl (wrapf ''alert state: %w'' [] e)
            | Inr _ \<Rightarrow>
                if trim_space (ps_color p) = [] \<or> trim_space (ps_abbreviation p) = [] \<or>
                   trim_space (ps_short_sign p) = []
                then Inl (errors_new ''alert state property presentation is incomplete'')
                else Inr ())
      else Inr ())"

fun validateStateMembers :: "string list \<Rightarrow> string list \<Rightarrow> go_error + unit" where
  "validateStateMembers seen [] = Inr ()"
| "validateStateMembers seen (member # rest) =
     (if \<not> ok (validateSubject member) \<or> \<not> has_suffix member alertSuffix
      then Inl (errorf ''invalid alert state member %q'' [FStr member])
      else if List.member seen member then Inl (errorf ''duplicate alert state member %q'' [FStr member])
      else validateStateMembers (member # seen) rest)"

definition validateTime :: "string \<times> gotime option \<Rightarrow> go_error + unit" where
  "validateTime nt =
     (case snd nt of
        None \<Rightarrow> Inr ()
      | Some t \<Rightarrow> if zone_offset t = 0 then Inr () else Inl (errorf ''alert state %s must be UTC'' [FStr (fst nt)]))"

definition validate_state :: "state \<Rightarrow> go_error + unit" where
  "validate_state s =
     (if st_version s \<noteq> CurrentVersion then Inl (errorf ''unsupported alert state version %d'' [FInt (st_version s)])
      else if st_pending s \<and> st_acknowledged s then Inl (errors_new ''pending alert state cannot be acknowledged'')
      else if st_active s \<and> st_episode s = [] then Inl (errors_new ''active alert state requires episode_id'')
      else if st_active s \<and> st_came s = None then Inl (errors_new ''active alert state requires came_time'')
      else if st_active s \<and> st_went s \<noteq> None then Inl (errors_new ''active alert state cannot have went_time'')
      else if st_went s \<noteq> None \<and> st_came s = None then Inl (errors_new ''alert state went_time requires came_time'')
      else if st_ack s \<noteq> None \<and> \<not> st_acknowledged s then Inl (errors_new ''alert state ack_time requires acknowledged'')
      else (case check_all validateTime
                   [(''came_time'', st_came s), (''went_time'', st_went s), (''ack_time'', st_ack s)] of
              Inl e \<Rightarrow> Inl e
            | Inr _ \<Rightarrow>
                (case validatePresentation (st_presentation s) of
                   Inl e \<Rightarrow> Inl e
                 | Inr _ \<Rightarrow>
                     (case validateStateMembers [] (slice_list (st_members s)) of
                        Inl e \<Rightarrow> Inl e
                      | Inr _ \<Rightarrow>
                          if st_dominant s \<noteq> [] \<and>
                             \<not> List.member (slice_list (st_members s)) (st_dominant s)
                          then Inl (errors_new ''alert state dominant must be included in members'')
                          else Inr ()))))"

section \<open>Parsing and marshalling\<close>

text \<open>
  The part of \<open>encoding/json\<close> the package uses: \<open>decodeStrict\<close> into each of its three structs
  (\<open>None\<close> for any decoding error), and \<open>json.Marshal\<close> of them (\<open>None\<close> when it fails).
\<close>

record codec =
  decode_properties :: "string \<Rightarrow> properties option"
  decode_config :: "string \<Rightarrow> config option"
  decode_state :: "string \<Rightarrow> state option"
  encode_properties :: "properties \<Rightarrow> string option"
  encode_config :: "config \<Rightarrow> string option"
  encode_state :: "state \<Rightarrow> string option"

definition ParseProperties :: "codec \<Rightarrow> string \<Rightarrow> go_error + properties" where
  "ParseProperties cd value =
     (case decode_properties cd value of
        None \<Rightarrow> Inl (errors_new ''decode alert properties'')
      | Some p \<Rightarrow> (case validate_properties p of Inl e \<Rightarrow> Inl e | Inr _ \<Rightarrow> Inr p))"

definition MarshalProperties :: "codec \<Rightarrow> properties \<Rightarrow> go_error + string" where
  "MarshalProperties cd p =
     (case validate_properties p of
        Inl e \<Rightarrow> Inl e
      | Inr _ \<Rightarrow>
          (case encode_properties cd p of
             None \<Rightarrow> Inl (errors_new ''encode alert properties'') | Some s \<Rightarrow> Inr s))"

definition ParseConfig :: "codec \<Rightarrow> string \<Rightarrow> go_error + config" where
  "ParseConfig cd value =
     (case decode_config cd value of
        None \<Rightarrow> Inl (errors_new ''decode alert config'')
      | Some c \<Rightarrow> (case validate_config c of Inl e \<Rightarrow> Inl e | Inr _ \<Rightarrow> Inr c))"

definition MarshalConfig :: "codec \<Rightarrow> config \<Rightarrow> go_error + string" where
  "MarshalConfig cd c =
     (case validate_config c of
        Inl e \<Rightarrow> Inl e
      | Inr _ \<Rightarrow>
          (case encode_config cd c of
             None \<Rightarrow> Inl (errors_new ''encode alert config'') | Some s \<Rightarrow> Inr s))"

definition parseStateUnchecked :: "codec \<Rightarrow> string \<Rightarrow> go_error + state" where
  "parseStateUnchecked cd value =
     (case decode_state cd value of
        None \<Rightarrow> Inl (errors_new ''decode alert state'') | Some s \<Rightarrow> Inr s)"

definition ParseState :: "codec \<Rightarrow> string \<Rightarrow> go_error + state" where
  "ParseState cd value =
     (case parseStateUnchecked cd value of
        Inl e \<Rightarrow> Inl e
      | Inr s \<Rightarrow> (case validate_state s of Inl e \<Rightarrow> Inl e | Inr _ \<Rightarrow> Inr s))"

definition MarshalState :: "codec \<Rightarrow> state \<Rightarrow> go_error + string" where
  "MarshalState cd s =
     (case validate_state s of
        Inl e \<Rightarrow> Inl e
      | Inr _ \<Rightarrow>
          (case encode_state cd s of
             None \<Rightarrow> Inl (errors_new ''encode alert state'') | Some t \<Rightarrow> Inr t))"

section \<open>Facts\<close>

lemma validateSubject_ok:
  "ok (validateSubject s) \<longleftrightarrow>
     s \<noteq> [] \<and> trim_space s = s \<and>
     (\<forall>t\<in>set (split_on (CHR ''.'') s). t \<noteq> [] \<and>
        \<not> contains_any t [CHR '' '', CHR 0x09, CHR 0x0D, CHR 0x0A, CHR ''*'', CHR ''>''])"
  by (simp add: validateSubject_def validateToken_def) metis

lemma config_alert_prefix: "configSuffix = alertSuffix @ ''_config''"
  by (simp add: configSuffix_def alertSuffix_def)

lemma suffixes_nonempty [simp]: "configSuffix \<noteq> []" "alertSuffix \<noteq> []"
  by (simp_all add: configSuffix_def alertSuffix_def)

lemma InputSubject_Inr:
  "InputSubject s = Inr b \<longleftrightarrow> ok (validateSubject s) \<and> s = b @ configSuffix \<and> b \<noteq> []"
proof -
  have "InputSubject s = Inr b \<longleftrightarrow>
      ok (validateSubject s) \<and> trim_suffix s configSuffix \<noteq> s \<and> b = trim_suffix s configSuffix \<and> b \<noteq> []"
    by (auto simp: InputSubject_def Let_def split: sum.splits)
  also have "\<dots> \<longleftrightarrow> ok (validateSubject s) \<and> s = b @ configSuffix \<and> b \<noteq> []"
    by (auto simp: trim_suffix_changed has_suffix_iff)
  finally show ?thesis .
qed

lemma OutputSubject_Inr:
  "OutputSubject s = Inr out \<longleftrightarrow>
     (\<exists>b. ok (validateSubject s) \<and> s = b @ configSuffix \<and> b \<noteq> [] \<and> out = b @ alertSuffix)"
  by (auto simp: OutputSubject_def case_Inr_iff InputSubject_Inr)

lemma OutputSubject_inj: "OutputSubject s = Inr out \<Longrightarrow> OutputSubject t = Inr out \<Longrightarrow> s = t"
  by (auto simp: OutputSubject_Inr)

lemma OutputSubject_InputSubject:
  "OutputSubject s = Inr out \<longleftrightarrow> (\<exists>b. InputSubject s = Inr b \<and> out = b @ alertSuffix)"
  by (auto simp: OutputSubject_Inr InputSubject_Inr)

text \<open>The output subject of a configuration is a subject a summary may list.\<close>

lemma trim_space_alert:
  assumes trimmed: "trim_space (b @ configSuffix) = b @ configSuffix"
  shows "trim_space (b @ alertSuffix) = b @ alertSuffix"
proof -
  let ?c = "b @ configSuffix" and ?a = "b @ alertSuffix"
  from trimmed have "strip_seqs space_seqs ?c = ?c"
    using trim_left_trim_space [of ?c] by (simp add: trim_left_def)
  then have "find (\<lambda>w. w \<noteq> [] \<and> prefix w ?c) space_seqs = None"
    using strip_seqs_stuck [of space_seqs ?c] by simp
  then have no_c: "\<forall>w\<in>set space_seqs. w \<noteq> [] \<longrightarrow> \<not> prefix w ?c"
    by (auto simp: find_None_iff)
  have "prefix ?a ?c"
    by (simp add: config_alert_prefix)
  with no_c have "\<forall>w\<in>set space_seqs. w \<noteq> [] \<longrightarrow> \<not> prefix w ?a"
    by (meson prefix_order.trans)
  then have "find (\<lambda>w. w \<noteq> [] \<and> prefix w ?a) space_seqs = None"
    by (auto simp: find_None_iff)
  then have left: "trim_left ?a = ?a"
    by (simp add: trim_left_def strip_seqs_fix)
  have "rev ?a = CHR ''t'' # (''rela.'' @ rev b)"
    by (simp add: alertSuffix_def)
  then have "find (\<lambda>w. w \<noteq> [] \<and> prefix w (rev ?a)) (map rev space_seqs) = None"
    by (simp add: find_None_iff space_seqs_def alertSuffix_def)
  then have "trim_right ?a = ?a"
    unfolding trim_right_def by (simp only: strip_seqs_fix rev_rev_ident)
  with left show ?thesis by (simp add: trim_space_def)
qed

lemma split_config: "split_on (CHR ''.'') (b @ configSuffix) = split_on (CHR ''.'') b @ [''alert_config'']"
  using split_on_append [of "CHR ''.''" b "''alert_config''"] by (simp add: configSuffix_def)

lemma split_alert: "split_on (CHR ''.'') (b @ alertSuffix) = split_on (CHR ''.'') b @ [''alert'']"
  using split_on_append [of "CHR ''.''" b "''alert''"] by (simp add: alertSuffix_def)

lemma validateSubject_alert:
  assumes "ok (validateSubject (b @ configSuffix))"
  shows "ok (validateSubject (b @ alertSuffix))"
  using assms
  by (auto simp: validateSubject_ok trim_space_alert split_config split_alert contains_any_iff)

lemma validateMembers_ok:
  "ok (validateMembers seen ms) \<longleftrightarrow>
     distinct ms \<and> set ms \<inter> set seen = {} \<and>
     (\<forall>m\<in>set ms. ok (validateSubject m) \<and> (\<exists>b. b \<noteq> [] \<and> m = b @ alertSuffix))"
proof (induction ms arbitrary: seen)
  case Nil
  then show ?case by simp
next
  case (Cons m ms)
  have shape: "has_suffix m alertSuffix \<and> trim_suffix m alertSuffix \<noteq> [] \<longleftrightarrow>
      (\<exists>b. b \<noteq> [] \<and> m = b @ alertSuffix)"
    by (auto simp: has_suffix_iff)
  show ?case
    using shape by (auto simp: Cons.IH)
qed

lemma validate_summary_ok:
  "ok (validate_summary c) \<longleftrightarrow>
     sc_members c \<noteq> [] \<and> distinct (sc_members c) \<and>
     (\<forall>m\<in>set (sc_members c). ok (validateSubject m) \<and> (\<exists>b. b \<noteq> [] \<and> m = b @ alertSuffix))"
  by (auto simp: validate_summary_def validateMembers_ok)

lemma validateStateMembers_ok:
  "ok (validateStateMembers seen ms) \<longleftrightarrow>
     distinct ms \<and> set ms \<inter> set seen = {} \<and>
     (\<forall>m\<in>set ms. ok (validateSubject m) \<and> has_suffix m alertSuffix)"
  by (induction ms arbitrary: seen) auto

lemma validateTime_ok [simp]:
  "ok (validateTime (name, t)) \<longleftrightarrow> (case t of None \<Rightarrow> True | Some t' \<Rightarrow> zone_offset t' = 0)"
  by (auto simp: validateTime_def split: option.splits)

text \<open>A presentation that \<open>State.Validate\<close> accepts.\<close>

definition complete_presentation :: "presentation \<Rightarrow> bool" where
  "complete_presentation p \<longleftrightarrow>
     ok (validatePropertyReference (ps_property p)) \<and> trim_space (ps_color p) \<noteq> [] \<and>
     trim_space (ps_abbreviation p) \<noteq> [] \<and> trim_space (ps_short_sign p) \<noteq> []"

lemma hasPresentation_iff: "hasPresentation p \<longleftrightarrow> p \<noteq> no_presentation"
  by (cases p) (auto simp: hasPresentation_def no_presentation_def)

lemma validatePresentation_ok:
  "ok (validatePresentation p) \<longleftrightarrow> p = no_presentation \<or> complete_presentation p"
  by (auto simp: validatePresentation_def complete_presentation_def hasPresentation_iff
      split: if_splits)

lemma validate_state_ok:
  "ok (validate_state s) \<longleftrightarrow>
     st_version s = CurrentVersion \<and> \<not> (st_pending s \<and> st_acknowledged s) \<and>
     (st_active s \<longrightarrow> st_episode s \<noteq> [] \<and> st_came s \<noteq> None \<and> st_went s = None) \<and>
     (st_went s \<noteq> None \<longrightarrow> st_came s \<noteq> None) \<and>
     (st_ack s \<noteq> None \<longrightarrow> st_acknowledged s) \<and>
     (\<forall>t. st_came s = Some t \<or> st_went s = Some t \<or> st_ack s = Some t \<longrightarrow> zone_offset t = 0) \<and>
     (st_presentation s = no_presentation \<or> complete_presentation (st_presentation s)) \<and>
     distinct (slice_list (st_members s)) \<and>
     (\<forall>m\<in>set (slice_list (st_members s)). ok (validateSubject m) \<and> has_suffix m alertSuffix) \<and>
     (st_dominant s \<noteq> [] \<longrightarrow> st_dominant s \<in> set (slice_list (st_members s)))"
  by (auto simp: validate_state_def validatePresentation_ok validateStateMembers_ok
      split: option.splits)

lemma validate_properties_ok:
  "ok (validate_properties p) \<longleftrightarrow>
     pr_version p = CurrentVersion \<and> trim_space (pr_color p) \<noteq> [] \<and>
     trim_space (pr_abbreviation p) \<noteq> [] \<and> trim_space (pr_short_sign p) \<noteq> [] \<and>
     0 \<le> pr_priority p"
  by (auto simp: validate_properties_def)

lemma validate_config_ok:
  "ok (validate_config c) \<longleftrightarrow>
     cf_version c = CurrentVersion \<and>
     (\<exists>b. cf_type c = TypeBinary \<and> cf_binary c = Some b \<and> cf_value c = None \<and> cf_summary c = None \<and>
          ok (validate_binary b)) \<or>
     cf_version c = CurrentVersion \<and>
     (\<exists>v. cf_type c = TypeValue \<and> cf_binary c = None \<and> cf_value c = Some v \<and> cf_summary c = None \<and>
          ok (validate_value v)) \<or>
     cf_version c = CurrentVersion \<and>
     (\<exists>s. cf_type c = TypeSummary \<and> cf_binary c = None \<and> cf_value c = None \<and> cf_summary c = Some s \<and>
          ok (validate_summary s))"
  by (auto simp: validate_config_def variantCount_def split: alert_type.splits option.splits)

end
