(* ===== verification/Alert_Evaluator.thy ===== *)
theory Alert_Evaluator
  imports Alert_Protocol
begin

text \<open>
  \<open>alert/evaluator.go\<close>: the evaluation of binary, value and summary configurations, the lifecycle
  rules (\<open>ApplyEvaluation\<close>) and the acknowledgement of an episode. Property tables and state tables
  are maps. The two interval loops of the source (int64 and float64) are one function of the tests
  for the lower and the upper bound.
\<close>

section \<open>Presentations and intervals\<close>

definition resolvePresentation ::
    "string \<Rightarrow> (string \<rightharpoonup> properties) \<Rightarrow> go_error + presentation" where
  "resolvePresentation subject properties =
     (case properties subject of
        None \<Rightarrow> Inl (errorf ''alert property %q is not defined'' [FStr subject])
      | Some p \<Rightarrow>
          (case validate_properties p of
             Inl e \<Rightarrow> Inl (wrapf ''alert property %q: %w'' [FStr subject] e)
           | Inr _ \<Rightarrow>
               Inr \<lparr>ps_property = subject, ps_color = pr_color p,
                    ps_abbreviation = pr_abbreviation p, ps_short_sign = pr_short_sign p,
                    ps_priority = pr_priority p, ps_requires_ack = pr_requires_ack p\<rparr>))"

definition evaluationForInterval ::
    "interval \<Rightarrow> (string \<rightharpoonup> properties) \<Rightarrow> go_error + evaluation" where
  "evaluationForInterval iv properties =
     (case (if iv_active iv then resolvePresentation (iv_property iv) properties
            else Inr no_presentation) of
        Inl e \<Rightarrow> Inl e
      | Inr p \<Rightarrow>
          Inr (zero_evaluation\<lparr>ev_active := iv_active iv, ev_presentation := p,
                               ev_text := iv_text iv\<rparr>))"

definition intLowerContains :: "string option \<Rightarrow> int \<Rightarrow> go_error + bool" where
  "intLowerContains bound value =
     (case bound of
        None \<Rightarrow> Inr True
      | Some s \<Rightarrow>
          (case parse_int64 s of
             None \<Rightarrow> Inl (errorf ''invalid int64 lower bound %q'' [FStr s])
           | Some lo \<Rightarrow> Inr (value \<ge> lo)))"

definition intUpperContains :: "string option \<Rightarrow> int \<Rightarrow> go_error + bool" where
  "intUpperContains bound value =
     (case bound of
        None \<Rightarrow> Inr True
      | Some s \<Rightarrow>
          (case parse_int64 s of
             None \<Rightarrow> Inl (errorf ''invalid int64 upper bound %q'' [FStr s])
           | Some hi \<Rightarrow> Inr (value < hi)))"

definition floatLowerContains :: "string option \<Rightarrow> f64 \<Rightarrow> go_error + bool" where
  "floatLowerContains bound value =
     (case bound of
        None \<Rightarrow> Inr True
      | Some s \<Rightarrow>
          (case parse_float64 s of
             None \<Rightarrow> Inl (errorf ''invalid float64 lower bound %q'' [FStr s])
           | Some lo \<Rightarrow> Inr (f64_ge value lo)))"

definition floatUpperContains :: "string option \<Rightarrow> f64 \<Rightarrow> go_error + bool" where
  "floatUpperContains bound value =
     (case bound of
        None \<Rightarrow> Inr True
      | Some s \<Rightarrow>
          (case parse_float64 s of
             None \<Rightarrow> Inl (errorf ''invalid float64 upper bound %q'' [FStr s])
           | Some hi \<Rightarrow> Inr (f64_lt value hi)))"

fun scanIntervals ::
    "(string option \<Rightarrow> 'v \<Rightarrow> go_error + bool) \<Rightarrow> (string option \<Rightarrow> 'v \<Rightarrow> go_error + bool) \<Rightarrow>
     go_error \<Rightarrow> interval list \<Rightarrow> 'v \<Rightarrow> (string \<rightharpoonup> properties) \<Rightarrow> go_error + evaluation" where
  "scanIntervals lower upper uncovered [] value properties = Inl uncovered"
| "scanIntervals lower upper uncovered (iv # ivs) value properties =
     (case lower (iv_min iv) value of
        Inl e \<Rightarrow> Inl e
      | Inr minOK \<Rightarrow>
          (case upper (iv_max iv) value of
             Inl e \<Rightarrow> Inl e
           | Inr maxOK \<Rightarrow>
               if minOK \<and> maxOK then evaluationForInterval iv properties
               else scanIntervals lower upper uncovered ivs value properties))"

section \<open>Evaluation\<close>

definition EvaluateBinary ::
    "binary_config \<Rightarrow> bool \<Rightarrow> (string \<rightharpoonup> properties) \<Rightarrow> go_error + evaluation" where
  "EvaluateBinary config value properties =
     (case validate_binary config of
        Inl e \<Rightarrow> Inl e
      | Inr _ \<Rightarrow>
          (let mp = (if value then bc_true config else bc_false config);
               active = (value = bc_bad_value config)
           in (case (if active then resolvePresentation (mp_property mp) properties
                     else Inr no_presentation) of
                 Inl e \<Rightarrow> Inl e
               | Inr p \<Rightarrow>
                   Inr (zero_evaluation\<lparr>ev_active := active, ev_presentation := p,
                                        ev_text := mp_text mp\<rparr>))))"

definition EvaluateInt64 ::
    "value_config \<Rightarrow> int \<Rightarrow> (string \<rightharpoonup> properties) \<Rightarrow> go_error + evaluation" where
  "EvaluateInt64 config value properties =
     (if vc_type config \<noteq> ValueTypeInt64
      then Inl (errorf ''cannot evaluate int64 with value_type %q''
                  [FStr (value_type_name (vc_type config))])
      else (case validate_value config of
              Inl e \<Rightarrow> Inl e
            | Inr _ \<Rightarrow>
                scanIntervals intLowerContains intUpperContains
                  (errors_new ''int64 value is not covered by intervals'')
                  (vc_intervals config) value properties))"

definition EvaluateFloat64 ::
    "value_config \<Rightarrow> f64 \<Rightarrow> (string \<rightharpoonup> properties) \<Rightarrow> go_error + evaluation" where
  "EvaluateFloat64 config value properties =
     (if vc_type config \<noteq> ValueTypeFloat64
      then Inl (errorf ''cannot evaluate float64 with value_type %q''
                  [FStr (value_type_name (vc_type config))])
      else if f64_nan value \<or> f64_inf value
      then Inl (errors_new ''alert input must be a finite float64'')
      else (case validate_value config of
              Inl e \<Rightarrow> Inl e
            | Inr _ \<Rightarrow>
                scanIntervals floatLowerContains floatUpperContains
                  (errors_new ''float64 value is not covered by intervals'')
                  (vc_intervals config) value properties))"

definition EvaluateValue ::
    "value_config \<Rightarrow> any \<Rightarrow> (string \<rightharpoonup> properties) \<Rightarrow> go_error + evaluation" where
  "EvaluateValue config value properties =
     (case vc_type config of
        ValueTypeInt64 \<Rightarrow>
          (case value of
             VInt n \<Rightarrow> EvaluateInt64 config n properties
           | _ \<Rightarrow> Inl (errors_new ''int64 alert requires int64 input''))
      | ValueTypeFloat64 \<Rightarrow>
          (case value of
             VFloat w \<Rightarrow> EvaluateFloat64 config w properties
           | _ \<Rightarrow> Inl (errors_new ''float64 alert requires float64 input''))
      | ValueTypeOther t \<Rightarrow> Inl (errorf ''unsupported alert value_type %q'' [FStr t]))"

text \<open>The loop of \<open>EvaluateSummary\<close>: the result built so far and the dominant state.\<close>

fun summaryLoop ::
    "string list \<Rightarrow> (string \<rightharpoonup> state) \<Rightarrow> evaluation \<Rightarrow> state option \<Rightarrow>
     go_error + evaluation \<times> state option" where
  "summaryLoop [] states result dominant = Inr (result, dominant)"
| "summaryLoop (subject # rest) states result dominant =
     (case states subject of
        None \<Rightarrow> Inl (errorf ''summary member %q has no runtime state'' [FStr subject])
      | Some st \<Rightarrow>
          (case validate_state st of
             Inl e \<Rightarrow> Inl (wrapf ''summary member %q: %w'' [FStr subject] e)
           | Inr _ \<Rightarrow>
               if \<not> st_active st \<and> \<not> st_pending st
               then summaryLoop rest states result dominant
               else
                 (let result1 = result\<lparr>ev_members := ev_members result @ [subject],
                                       ev_active := ev_active result \<or> st_active st,
                                       ev_pending := ev_pending result \<or> st_pending st\<rparr>;
                      better = (case dominant of
                                  None \<Rightarrow> True
                                | Some d \<Rightarrow>
                                    (st_active st \<and> \<not> st_active d) \<or>
                                    (st_active st = st_active d \<and>
                                     ps_priority (st_presentation st) > ps_priority (st_presentation d)))
                  in if better
                     then summaryLoop rest states (result1\<lparr>ev_dominant := subject\<rparr>) (Some st)
                     else summaryLoop rest states result1 dominant)))"

definition EvaluateSummary ::
    "summary_config \<Rightarrow> (string \<rightharpoonup> state) \<Rightarrow> go_error + evaluation" where
  "EvaluateSummary config states =
     (case validate_summary config of
        Inl e \<Rightarrow> Inl e
      | Inr _ \<Rightarrow>
          (case summaryLoop (sc_members config) states zero_evaluation None of
             Inl e \<Rightarrow> Inl e
           | Inr (result, None) \<Rightarrow> Inr (result\<lparr>ev_acknowledged := True\<rparr>)
           | Inr (result, Some d) \<Rightarrow>
               Inr (result\<lparr>ev_presentation := st_presentation d, ev_text := st_text d,
                           ev_acknowledged := \<not> ev_pending result\<rparr>)))"

section \<open>Lifecycle\<close>

definition ApplyEvaluation ::
    "state option \<Rightarrow> evaluation \<Rightarrow> gotime \<Rightarrow> string \<Rightarrow> go_error + state" where
  "ApplyEvaluation previous evaluation time episodeID =
     (let now = utc time;
          fresh = \<lparr>st_version = CurrentVersion, st_active = ev_active evaluation, st_pending = False,
                   st_presentation = ev_presentation evaluation, st_text = ev_text evaluation,
                   st_acknowledged = False, st_came = None, st_went = None, st_ack = None,
                   st_dominant = ev_dominant evaluation,
                   st_members = append_nil (ev_members evaluation), st_episode = []\<rparr>
      in case (case previous of
                 None \<Rightarrow> Inr fresh
               | Some p \<Rightarrow>
                   (case validate_state p of
                      Inl e \<Rightarrow> Inl (wrapf ''previous alert state: %w'' [] e)
                    | Inr _ \<Rightarrow>
                        Inr (fresh\<lparr>st_came := st_came p, st_went := st_went p, st_ack := st_ack p,
                                   st_episode := st_episode p, st_pending := st_pending p,
                                   st_acknowledged := st_acknowledged p\<rparr>))) of
           Inl e \<Rightarrow> Inl e
         | Inr s \<Rightarrow>
             (let wasActive = (case previous of None \<Rightarrow> False | Some p \<Rightarrow> st_active p);
                  starting = (ev_active evaluation \<and> \<not> wasActive);
                  pending = (st_pending s \<or> ev_pending evaluation)
              in if starting \<and> episodeID = []
                 then Inl (errors_new ''new active episode requires episode ID'')
                 else
                   (let s1 =
                      (if starting
                       then (let pend = (ev_pending evaluation \<or>
                                          ps_requires_ack (ev_presentation evaluation) \<and>
                                          \<not> ev_acknowledged evaluation)
                             in s\<lparr>st_came := Some now, st_went := None, st_ack := None,
                                  st_episode := episodeID, st_pending := pend,
                                  st_acknowledged := \<not> pend\<rparr>)
                       else if ev_active evaluation
                       then (if pending
                             then s\<lparr>st_pending := True, st_acknowledged := False, st_ack := None\<rparr>
                             else s\<lparr>st_pending := False\<rparr>)
                       else (let s0 = (if wasActive then s\<lparr>st_went := Some now\<rparr> else s)
                             in if pending
                                then s0\<lparr>st_pending := True, st_acknowledged := False,
                                        st_ack := None\<rparr>
                                else s0\<lparr>st_pending := False,
                                        st_acknowledged :=
                                          ev_acknowledged evaluation \<or>
                                          \<not> ps_requires_ack (ev_presentation evaluation)\<rparr>))
                    in (case validate_state s1 of Inl e \<Rightarrow> Inl e | Inr _ \<Rightarrow> Inr s1))))"

definition Acknowledge :: "state \<Rightarrow> string \<Rightarrow> gotime \<Rightarrow> go_error + state" where
  "Acknowledge s episodeID time =
     (case validate_state s of
        Inl e \<Rightarrow> Inl e
      | Inr _ \<Rightarrow>
          if episodeID = [] \<or> episodeID \<noteq> st_episode s
          then Inl (errors_new ''acknowledgement episode ID does not match'')
          else if \<not> st_pending s then Inl (errors_new ''alert episode is not pending'')
          else Inr (s\<lparr>st_pending := False, st_acknowledged := True, st_ack := Some (utc time)\<rparr>))"

end
