(* ===== verification/Alert_Intervals.thy ===== *)
theory Alert_Intervals
  imports Alert_Evaluator
begin

text \<open>
  The interval search shared by int64 and float64 alerts, as an interface: what the parser of the
  bounds, the comparisons of \<open>protocol.go\<close> and the two containment tests of \<open>evaluator.go\<close> promise each
  other. The search of a validated configuration finds the one interval that covers the value. Both
  number types provide the interface.
\<close>

section \<open>Interval search\<close>

locale numeric_bounds =
  fixes ty :: value_type
    and bound_key :: "string \<Rightarrow> int option"
    and key :: "'v \<Rightarrow> int"
    and accepts :: "'v \<Rightarrow> bool"
    and lower upper :: "string option \<Rightarrow> 'v \<Rightarrow> go_error + bool"
  assumes bound_parses: "ok (parseBound ty (Some s)) \<Longrightarrow> \<exists>k. bound_key s = Some k"
    and bound_less: "bound_key a = Some j \<Longrightarrow> bound_key b = Some k \<Longrightarrow> boundLess ty a b \<longleftrightarrow> j < k"
    and bound_equal: "bound_key a = Some j \<Longrightarrow> bound_key b = Some k \<Longrightarrow> boundsEqual ty a b \<longleftrightarrow> j = k"
    and lower_none: "lower None v = Inr True"
    and lower_some: "bound_key s = Some k \<Longrightarrow> accepts v \<Longrightarrow> lower (Some s) v = Inr (k \<le> key v)"
    and upper_none: "upper None v = Inr True"
    and upper_some: "bound_key s = Some k \<Longrightarrow> accepts v \<Longrightarrow> upper (Some s) v = Inr (key v < k)"
begin

definition at_least :: "string option \<Rightarrow> 'v \<Rightarrow> bool" where
  "at_least bound v \<longleftrightarrow> (case bound of None \<Rightarrow> True | Some s \<Rightarrow> \<exists>k. bound_key s = Some k \<and> k \<le> key v)"

definition below :: "string option \<Rightarrow> 'v \<Rightarrow> bool" where
  "below bound v \<longleftrightarrow> (case bound of None \<Rightarrow> True | Some s \<Rightarrow> \<exists>k. bound_key s = Some k \<and> key v < k)"

definition covers :: "interval \<Rightarrow> 'v \<Rightarrow> bool" where
  "covers iv v \<longleftrightarrow> at_least (iv_min iv) v \<and> below (iv_max iv) v"

definition readable :: "interval \<Rightarrow> bool" where
  "readable iv \<longleftrightarrow> ok (parseBound ty (iv_min iv)) \<and> ok (parseBound ty (iv_max iv)) \<and>
     (\<forall>a b. iv_min iv = Some a \<and> iv_max iv = Some b \<longrightarrow> boundLess ty a b)"

lemma lower_at_least:
  "ok (parseBound ty b) \<Longrightarrow> accepts v \<Longrightarrow> lower b v = Inr (at_least b v)"
  by (cases b) (auto simp: lower_none at_least_def lower_some dest!: bound_parses)

lemma upper_below:
  "ok (parseBound ty b) \<Longrightarrow> accepts v \<Longrightarrow> upper b v = Inr (below b v)"
  by (cases b) (auto simp: upper_none below_def upper_some dest!: bound_parses)

lemma scan_step:
  assumes "readable iv" and "accepts v"
  shows "scanIntervals lower upper u (iv # ivs) v props =
    (if covers iv v then evaluationForInterval iv props
     else scanIntervals lower upper u ivs v props)"
  using assms by (auto simp: readable_def lower_at_least upper_below covers_def)

text \<open>At a shared boundary a value is below the upper bound or at least the lower one.\<close>

lemma shared_boundary:
  assumes "readable p" and "readable c"
    and "ok (validateBoundaries ty n (p # c # rest))"
  shows "below (iv_max p) v \<longleftrightarrow> \<not> at_least (iv_min c) v"
proof -
  from assms(3) obtain hi lo where hi: "iv_max p = Some hi" and lo: "iv_min c = Some lo"
    and eq: "boundsEqual ty hi lo"
    by (auto split: option.splits if_splits)
  from assms(1) hi obtain j where j: "bound_key hi = Some j"
    by (auto simp: readable_def dest: bound_parses)
  from assms(2) lo obtain k where k: "bound_key lo = Some k"
    by (auto simp: readable_def dest: bound_parses)
  from eq bound_equal [OF j k] have "j = k" by simp
  with hi lo j k show ?thesis
    by (auto simp: below_def at_least_def)
qed

lemma not_below_of_not_at_least:
  assumes "readable iv" and "\<not> at_least (iv_min iv) v" and "iv_max iv \<noteq> None"
  shows "below (iv_max iv) v"
proof -
  from assms(2) obtain a where a: "iv_min iv = Some a"
    by (auto simp: at_least_def split: option.splits)
  from assms(3) obtain b where b: "iv_max iv = Some b" by blast
  from assms(1) a obtain j where j: "bound_key a = Some j"
    by (auto simp: readable_def dest: bound_parses)
  from assms(1) b obtain k where k: "bound_key b = Some k"
    by (auto simp: readable_def dest: bound_parses)
  from assms(1) a b bound_less [OF j k] have "j < k"
    by (simp add: readable_def)
  with assms(2) a b j k show ?thesis
    by (auto simp: below_def at_least_def)
qed

text \<open>A value before the first interval of a validated chain is in none of them.\<close>

lemma chain_lower:
  assumes "\<forall>iv\<in>set ivs. readable iv" and "ok (validateBoundaries ty n ivs)"
    and "ivs \<noteq> []" and "\<not> at_least (iv_min (hd ivs)) v" and "iv \<in> set ivs"
  shows "\<not> covers iv v"
  using assms
proof (induction ivs arbitrary: n)
  case Nil
  then show ?case by simp
next
  case (Cons p ivs)
  show ?case
  proof (cases ivs)
    case Nil
    with Cons.prems show ?thesis by (simp add: covers_def)
  next
    case (Cons c rest)
    with Cons.prems have chain: "ok (validateBoundaries ty n (p # c # rest))"
      and read: "readable p" "readable c" by simp_all
    from chain have "iv_max p \<noteq> None"
      by (auto split: option.splits if_splits)
    with read Cons.prems(4) have "below (iv_max p) v"
      by (simp add: not_below_of_not_at_least)
    with shared_boundary [OF read chain] have "\<not> at_least (iv_min c) v" by simp
    moreover from chain have "ok (validateBoundaries ty (Suc n) (c # rest))"
      by (simp split: if_splits)
    ultimately have "iv \<in> set ivs \<Longrightarrow> \<not> covers iv v"
      using Cons.IH [of "Suc n"] Cons.prems(1) Cons by simp
    with Cons.prems(4,5) show ?thesis
      by (auto simp: covers_def)
  qed
qed

lemma scan_finds:
  assumes "\<forall>iv\<in>set ivs. readable iv" and "ok (validateBoundaries ty n ivs)" and "ivs \<noteq> []"
    and "iv_max (last ivs) = None" and "at_least (iv_min (hd ivs)) v" and "accepts v"
  shows "\<exists>i<length ivs. covers (ivs ! i) v \<and> (\<forall>j<length ivs. covers (ivs ! j) v \<longrightarrow> j = i) \<and>
    scanIntervals lower upper u ivs v props = evaluationForInterval (ivs ! i) props"
  using assms
proof (induction ivs arbitrary: n)
  case Nil
  then show ?case by simp
next
  case (Cons p ivs)
  show ?case
  proof (cases ivs)
    case Nil
    with Cons.prems have "covers p v" by (simp add: covers_def below_def)
    with Nil Cons.prems scan_step [of p v u "[]" props] show ?thesis by simp
  next
    case (Cons c rest)
    with Cons.prems have chain: "ok (validateBoundaries ty n (p # c # rest))"
      and read: "readable p" "readable c" by simp_all
    from chain have tail: "ok (validateBoundaries ty (Suc n) ivs)"
      using Cons by (simp split: if_splits)
    note step = scan_step [OF read(1) Cons.prems(6), of u ivs props]
    show ?thesis
    proof (cases "below (iv_max p) v")
      case True
      with Cons.prems(5) have here: "covers p v" by (simp add: covers_def)
      from True shared_boundary [OF read chain] have "\<not> at_least (iv_min (hd ivs)) v"
        using Cons by simp
      with tail Cons.prems(1) Cons have "\<forall>iv\<in>set ivs. \<not> covers iv v"
        using chain_lower [of ivs "Suc n" v] by simp
      then have "\<forall>j<length (p # ivs). covers ((p # ivs) ! j) v \<longrightarrow> j = 0"
        by (auto simp: nth_Cons split: nat.splits)
      with here step show ?thesis by (intro exI [of _ 0]) simp
    next
      case False
      then have here: "\<not> covers p v" by (simp add: covers_def)
      from False shared_boundary [OF read chain] have "at_least (iv_min (hd ivs)) v"
        using Cons by simp
      moreover have "\<forall>iv\<in>set ivs. readable iv" and ne: "ivs \<noteq> []"
        using Cons.prems(1) Cons by simp_all
      moreover have "iv_max (last ivs) = None"
        using Cons.prems(4) ne by simp
      ultimately obtain i where i: "i < length ivs" "covers (ivs ! i) v"
        and uniq: "\<forall>j<length ivs. covers (ivs ! j) v \<longrightarrow> j = i"
        and eval: "scanIntervals lower upper u ivs v props = evaluationForInterval (ivs ! i) props"
        using Cons.IH [OF _ tail] Cons.prems(6) by blast
      have "\<forall>j<length (p # ivs). covers ((p # ivs) ! j) v \<longrightarrow> j = Suc i"
        using here uniq by (auto simp: nth_Cons split: nat.splits)
      with i here step eval show ?thesis by (intro exI [of _ "Suc i"]) simp
    qed
  qed
qed

lemma validate_interval_readable: "ok (validateInterval ty n iv) \<Longrightarrow> readable iv"
  by (auto simp: validateInterval_def readable_def split: option.splits)

lemma validated_readable:
  assumes valid: "ok (validate_value c)" and ty: "vc_type c = ty" and "iv \<in> set (vc_intervals c)"
  shows "readable iv"
proof -
  let ?ivs = "vc_intervals c"
  from valid ty have each: "\<forall>(n, iv)\<in>set (enumerate 0 ?ivs). ok (validateInterval ty n iv)"
    by (auto simp: validate_value_def Let_def)
  from assms(3) obtain n where "n < length ?ivs" and "iv = ?ivs ! n"
    by (auto simp: in_set_conv_nth)
  then have "(n, iv) \<in> set (enumerate 0 ?ivs)"
    by (simp add: in_set_enumerate_eq)
  with each have "ok (validateInterval ty n iv)" by blast
  then show ?thesis by (rule validate_interval_readable)
qed

lemma validated_scan:
  assumes valid: "ok (validate_value c)" and ty: "vc_type c = ty" and "accepts v"
  shows "\<exists>i<length (vc_intervals c).
    covers (vc_intervals c ! i) v \<and>
    (\<forall>j<length (vc_intervals c). covers (vc_intervals c ! j) v \<longrightarrow> j = i) \<and>
    scanIntervals lower upper u (vc_intervals c) v props =
      evaluationForInterval (vc_intervals c ! i) props"
proof -
  let ?ivs = "vc_intervals c"
  from valid ty have nonempty: "?ivs \<noteq> []"
    and ends: "iv_min (hd ?ivs) = None" "iv_max (last ?ivs) = None"
    and chain: "ok (validateBoundaries ty 1 ?ivs)"
    by (auto simp: validate_value_def Let_def)
  have "\<forall>iv\<in>set ?ivs. readable iv"
    using validated_readable [OF valid ty] by blast
  then show ?thesis
    using scan_finds [OF _ chain nonempty ends(2)] ends(1) assms(3) by (simp add: at_least_def)
qed

end

section \<open>The two instances\<close>

interpretation int_bounds: numeric_bounds ValueTypeInt64 parse_int64 "\<lambda>n. n" "\<lambda>_. True"
  intLowerContains intUpperContains
  by unfold_locales
    (auto simp: parseBound_def boundLess_def boundsEqual_def intLowerContains_def
      intUpperContains_def split: option.splits)

definition finite_bound :: "string \<Rightarrow> int option" where
  "finite_bound s =
     (case parse_float64 s of
        None \<Rightarrow> None
      | Some w \<Rightarrow> if f64_inf w \<or> f64_nan w then None else Some (f64_key w))"

interpretation float_bounds: numeric_bounds ValueTypeFloat64 finite_bound f64_key
  "\<lambda>w. \<not> f64_nan w \<and> \<not> f64_inf w" floatLowerContains floatUpperContains
  by unfold_locales
    (auto simp: finite_bound_def parseBound_def boundLess_def boundsEqual_def
      floatLowerContains_def floatUpperContains_def f64_lt_def f64_ge_def f64_eq_def
      split: option.splits if_splits)

text \<open>Membership in an interval, as the README states it: \<open>[min, max)\<close>.\<close>

definition int_in :: "interval \<Rightarrow> int \<Rightarrow> bool" where
  "int_in iv v \<longleftrightarrow>
     (case iv_min iv of None \<Rightarrow> True | Some s \<Rightarrow> \<exists>k. parse_int64 s = Some k \<and> k \<le> v) \<and>
     (case iv_max iv of None \<Rightarrow> True | Some s \<Rightarrow> \<exists>k. parse_int64 s = Some k \<and> v < k)"

definition float_in :: "interval \<Rightarrow> f64 \<Rightarrow> bool" where
  "float_in iv v \<longleftrightarrow>
     (case iv_min iv of None \<Rightarrow> True | Some s \<Rightarrow> \<exists>w. parse_float64 s = Some w \<and> f64_ge v w) \<and>
     (case iv_max iv of None \<Rightarrow> True | Some s \<Rightarrow> \<exists>w. parse_float64 s = Some w \<and> f64_lt v w)"

lemma int_in_covers: "int_in = int_bounds.covers"
  by (intro ext) (simp add: int_in_def int_bounds.covers_def int_bounds.at_least_def
      int_bounds.below_def)

lemma float_in_covers:
  assumes "float_bounds.readable iv" and "\<not> f64_nan v"
  shows "float_in iv v \<longleftrightarrow> float_bounds.covers iv v"
  using assms
  by (auto simp: float_in_def float_bounds.covers_def float_bounds.at_least_def
      float_bounds.below_def float_bounds.readable_def parseBound_def finite_bound_def
      f64_ge_def f64_lt_def split: option.splits if_splits)

lemma int64_search:
  assumes "ok (validate_value c)" and "vc_type c = ValueTypeInt64"
  shows "\<exists>i<length (vc_intervals c). int_in (vc_intervals c ! i) v \<and>
    (\<forall>j<length (vc_intervals c). int_in (vc_intervals c ! j) v \<longrightarrow> j = i) \<and>
    EvaluateInt64 c v properties = evaluationForInterval (vc_intervals c ! i) properties"
  using int_bounds.validated_scan [OF assms, of v
      "errors_new ''int64 value is not covered by intervals''" properties] assms
  by (auto simp: EvaluateInt64_def int_in_covers ok_iff)

lemma float64_search:
  assumes "ok (validate_value c)" and "vc_type c = ValueTypeFloat64"
    and "\<not> f64_nan v" and "\<not> f64_inf v"
  shows "\<exists>i<length (vc_intervals c). float_in (vc_intervals c ! i) v \<and>
    (\<forall>j<length (vc_intervals c). float_in (vc_intervals c ! j) v \<longrightarrow> j = i) \<and>
    EvaluateFloat64 c v properties = evaluationForInterval (vc_intervals c ! i) properties"
proof -
  have "\<forall>i<length (vc_intervals c). float_bounds.readable (vc_intervals c ! i)"
    using float_bounds.validated_readable [OF assms(1,2)] by simp
  then have "\<forall>i<length (vc_intervals c).
      float_in (vc_intervals c ! i) v = float_bounds.covers (vc_intervals c ! i) v"
    using float_in_covers assms(3) by blast
  then show ?thesis
    using float_bounds.validated_scan [OF assms(1,2), of v
        "errors_new ''float64 value is not covered by intervals''" properties] assms
    by (auto simp: EvaluateFloat64_def ok_iff)
qed

end
