(* ===== verification/Alert_Lifecycle.thy ===== *)
theory Alert_Lifecycle
  imports Alert_Intervals
begin

text \<open>
  What the evaluators and the lifecycle rules guarantee: evaluations are well formed, a well-formed
  evaluation is never refused, the summary picks the dominant member, the timestamps and the
  episode are latched, and the life of one alert is a state machine whose reachable states satisfy
  the runtime-state invariants.
\<close>

section \<open>Definitions\<close>

text \<open>What \<open>ApplyEvaluation\<close> needs of an evaluation to accept it.\<close>

definition wf_evaluation :: "evaluation \<Rightarrow> bool" where
  "wf_evaluation ev \<longleftrightarrow>
     (ev_presentation ev = no_presentation \<or> complete_presentation (ev_presentation ev)) \<and>
     distinct (ev_members ev) \<and>
     (\<forall>m\<in>set (ev_members ev). ok (validateSubject m) \<and> has_suffix m alertSuffix) \<and>
     (ev_dominant ev \<noteq> [] \<longrightarrow> ev_dominant ev \<in> set (ev_members ev)) \<and>
     (ev_active ev \<or> ev_pending ev \<or> ev_acknowledged ev \<or> \<not> ps_requires_ack (ev_presentation ev))"

text \<open>The order in which a summary ranks its members: active first, then by priority.\<close>

definition outranks :: "state \<Rightarrow> state \<Rightarrow> bool" where
  "outranks s t \<longleftrightarrow>
     (st_active s \<and> \<not> st_active t) \<or>
     (st_active s = st_active t \<and>
      ps_priority (st_presentation s) > ps_priority (st_presentation t))"

definition shows_up :: "state \<Rightarrow> bool" where
  "shows_up s \<longleftrightarrow> st_active s \<or> st_pending s"

definition shown :: "(string \<rightharpoonup> state) \<Rightarrow> string list \<Rightarrow> string list" where
  "shown states ms = filter (\<lambda>m. \<exists>s. states m = Some s \<and> shows_up s) ms"

text \<open>The first of the members that no other outranks.\<close>

definition dominates :: "(string \<rightharpoonup> state) \<Rightarrow> string list \<Rightarrow> string \<Rightarrow> state \<Rightarrow> bool" where
  "dominates states ms m s \<longleftrightarrow>
     (\<exists>before after. ms = before @ m # after \<and> states m = Some s \<and>
        (\<forall>x\<in>set before. \<forall>t. states x = Some t \<longrightarrow> outranks s t) \<and>
        (\<forall>x\<in>set after. \<forall>t. states x = Some t \<longrightarrow> \<not> outranks t s))"

text \<open>The life of one alert: its last state and the last reading of the clock.\<close>

inductive lifecycle :: "state option \<Rightarrow> int \<Rightarrow> bool" where
  start: "lifecycle None t"
| evaluate: "lifecycle p t \<Longrightarrow> t \<le> instant time \<Longrightarrow> ApplyEvaluation p ev time episodeID = Inr s \<Longrightarrow>
     lifecycle (Some s) (instant time)"
| acknowledge: "lifecycle (Some p) t \<Longrightarrow> t \<le> instant time \<Longrightarrow> Acknowledge p episodeID time = Inr s \<Longrightarrow>
     lifecycle (Some s) (instant time)"

definition time_le :: "gotime option \<Rightarrow> gotime option \<Rightarrow> bool" where
  "time_le a b \<longleftrightarrow> (\<forall>s t. a = Some s \<and> b = Some t \<longrightarrow> instant s \<le> instant t)"

section \<open>Evaluations are well formed\<close>

lemma resolvePresentation_complete:
  assumes "resolvePresentation subject properties = Inr p"
    and "ok (validatePropertyReference subject)"
  shows "complete_presentation p"
  using assms
  by (auto simp: resolvePresentation_def complete_presentation_def unit_case_Inr_iff
      validate_properties_ok split: option.splits)

lemma wf_plain:
  assumes "active \<Longrightarrow> complete_presentation p" and "\<not> active \<Longrightarrow> p = no_presentation"
  shows "wf_evaluation (zero_evaluation\<lparr>ev_active := active, ev_presentation := p, ev_text := t\<rparr>)"
  using assms by (cases active) (auto simp: wf_evaluation_def)

lemma validate_mapping_reference:
  "ok (validate_mapping m name True) \<Longrightarrow> ok (validatePropertyReference (mp_property m))"
  by (simp add: validate_mapping_def)

lemma EvaluateBinary_wf:
  assumes "EvaluateBinary config value properties = Inr ev"
  shows "wf_evaluation ev"
proof -
  let ?mp = "if value then bc_true config else bc_false config"
  from assms have valid: "ok (validate_binary config)"
    by (simp add: EvaluateBinary_def unit_case_Inr_iff)
  have "ok (validatePropertyReference (mp_property ?mp))" if "value = bc_bad_value config"
    using valid that
    by (cases "value") (auto simp: validate_binary_def intro: validate_mapping_reference)
  then show ?thesis
    using assms valid
    by (auto simp: EvaluateBinary_def unit_case_Inr_iff case_Inr_iff Let_def
        intro!: wf_plain intro: resolvePresentation_complete split: if_splits)
qed

lemma evaluationForInterval_wf:
  assumes "evaluationForInterval iv properties = Inr ev" and "ok (validateInterval ty n iv)"
  shows "wf_evaluation ev"
  using assms
  by (auto simp: evaluationForInterval_def validateInterval_def case_Inr_iff
      intro!: wf_plain intro: resolvePresentation_complete split: if_splits)

lemma validated_interval:
  assumes "ok (validate_value c)" and "i < length (vc_intervals c)"
  shows "ok (validateInterval (vc_type c) i (vc_intervals c ! i))"
proof -
  from assms(2) have "(i, vc_intervals c ! i) \<in> set (enumerate 0 (vc_intervals c))"
    by (simp add: in_set_enumerate_eq)
  with assms(1) show ?thesis
    by (fastforce simp: validate_value_def Let_def)
qed

lemma EvaluateValue_wf:
  assumes "EvaluateValue config value properties = Inr ev"
  shows "wf_evaluation ev"
proof (cases "vc_type config")
  case ValueTypeInt64
  with assms obtain n where "EvaluateInt64 config n properties = Inr ev"
    by (auto simp: EvaluateValue_def split: any.splits)
  moreover from this have "ok (validate_value config)"
    by (simp add: EvaluateInt64_def unit_case_Inr_iff split: if_splits)
  ultimately show ?thesis
    using int64_search [of config n properties] ValueTypeInt64
    by (metis evaluationForInterval_wf validated_interval)
next
  case ValueTypeFloat64
  with assms obtain w where w: "EvaluateFloat64 config w properties = Inr ev"
    by (auto simp: EvaluateValue_def split: any.splits)
  moreover from this have "ok (validate_value config)" "\<not> f64_nan w" "\<not> f64_inf w"
    by (simp_all add: EvaluateFloat64_def unit_case_Inr_iff split: if_splits)
  ultimately show ?thesis
    using float64_search [of config w properties] ValueTypeFloat64
    by (metis evaluationForInterval_wf validated_interval)
next
  case (ValueTypeOther t)
  with assms show ?thesis by (simp add: EvaluateValue_def)
qed

section \<open>Summaries\<close>

lemma shown_simps [simp]:
  "shown states [] = []"
  "shown states (m # ms) =
     (if \<exists>s. states m = Some s \<and> shows_up s then m # shown states ms else shown states ms)"
  by (simp_all add: shown_def)

lemma shown_append [simp]: "shown states (xs @ ys) = shown states xs @ shown states ys"
  by (simp add: shown_def)

lemma outranks_trans: "outranks a b \<Longrightarrow> outranks b c \<Longrightarrow> outranks a c"
  by (auto simp: outranks_def)

lemma not_outranks_trans: "outranks a b \<Longrightarrow> \<not> outranks c b \<Longrightarrow> outranks a c"
  by (auto simp: outranks_def)

lemma dominates_single: "states m = Some s \<Longrightarrow> dominates states [m] m s"
  unfolding dominates_def by (intro exI [of _ "[]"]) auto

lemma dominates_keep:
  assumes "dominates states ms m s" and "states x = Some t" and "\<not> outranks t s"
  shows "dominates states (ms @ [x]) m s"
proof -
  from assms(1) obtain before after where
    "ms = before @ m # after" "states m = Some s"
    "\<forall>x\<in>set before. \<forall>t. states x = Some t \<longrightarrow> outranks s t"
    "\<forall>x\<in>set after. \<forall>t. states x = Some t \<longrightarrow> \<not> outranks t s"
    by (auto simp: dominates_def)
  with assms(2,3) show ?thesis
    unfolding dominates_def by (intro exI [of _ before] exI [of _ "after @ [x]"]) auto
qed

lemma dominates_replace:
  assumes "dominates states ms m s" and "states x = Some t" and "outranks t s"
  shows "dominates states (ms @ [x]) x t"
proof -
  from assms(1) obtain before after where
    ms: "ms = before @ m # after" "states m = Some s"
    and b: "\<forall>x\<in>set before. \<forall>t. states x = Some t \<longrightarrow> outranks s t"
    and a: "\<forall>x\<in>set after. \<forall>t. states x = Some t \<longrightarrow> \<not> outranks t s"
    by (auto simp: dominates_def)
  have "\<forall>y\<in>set ms. \<forall>u. states y = Some u \<longrightarrow> outranks t u"
    using ms b a assms(3) by (auto intro: outranks_trans not_outranks_trans)
  with assms(2) show ?thesis
    unfolding dominates_def by (intro exI [of _ ms] exI [of _ "[]"]) auto
qed

text \<open>The invariant of the summary loop after the members \<open>done\<close>.\<close>

definition summary_inv ::
    "(string \<rightharpoonup> state) \<Rightarrow> string list \<Rightarrow> evaluation \<Rightarrow> state option \<Rightarrow> bool" where
  "summary_inv states visited result dominant \<longleftrightarrow>
     (\<forall>m\<in>set visited. \<exists>s. states m = Some s \<and> ok (validate_state s)) \<and>
     ev_members result = shown states visited \<and>
     ev_active result = (\<exists>m\<in>set visited. \<exists>s. states m = Some s \<and> st_active s) \<and>
     ev_pending result = (\<exists>m\<in>set visited. \<exists>s. states m = Some s \<and> st_pending s) \<and>
     ev_presentation result = no_presentation \<and> ev_text result = [] \<and>
     \<not> ev_acknowledged result \<and>
     (case dominant of
        None \<Rightarrow> shown states visited = [] \<and> ev_dominant result = []
      | Some d \<Rightarrow> dominates states (shown states visited) (ev_dominant result) d)"

lemma summaryLoop_inv:
  assumes "summaryLoop ms states result dominant = Inr (result', dominant')"
    and "summary_inv states visited result dominant"
  shows "summary_inv states (visited @ ms) result' dominant'"
  using assms
proof (induction ms arbitrary: visited result dominant)
  case Nil
  then show ?case by simp
next
  case (Cons m ms)
  from Cons.prems(1) obtain s where s: "states m = Some s" and valid: "ok (validate_state s)"
    by (auto split: option.splits sum.splits simp: ok_iff)
  show ?case
  proof (cases "shows_up s")
    case False
    with Cons.prems s valid have "summaryLoop ms states result dominant = Inr (result', dominant')"
      by (auto simp: shows_up_def unit_case_Inr_iff)
    moreover from Cons.prems(2) s valid False
    have "summary_inv states (visited @ [m]) result dominant"
      by (auto simp: summary_inv_def shows_up_def split: option.splits)
    ultimately show ?thesis
      using Cons.IH [of result dominant "visited @ [m]"] by simp
  next
    case True
    define result1 where "result1 = result\<lparr>ev_members := ev_members result @ [m],
      ev_active := ev_active result \<or> st_active s, ev_pending := ev_pending result \<or> st_pending s\<rparr>"
    show ?thesis
    proof (cases "case dominant of None \<Rightarrow> True | Some d \<Rightarrow> outranks s d")
      case better: True
      with Cons.prems(1) s valid True
      have "summaryLoop ms states (result1\<lparr>ev_dominant := m\<rparr>) (Some s) = Inr (result', dominant')"
        by (cases dominant)
          (auto simp: shows_up_def unit_case_Inr_iff Let_def result1_def outranks_def)
      moreover have "summary_inv states (visited @ [m]) (result1\<lparr>ev_dominant := m\<rparr>) (Some s)"
      proof (cases dominant)
        case None
        with Cons.prems(2) s valid True show ?thesis
          by (auto simp: summary_inv_def result1_def dominates_single)
      next
        case (Some d)
        with Cons.prems(2) s valid True better show ?thesis
          by (auto simp: summary_inv_def result1_def intro: dominates_replace)
      qed
      ultimately show ?thesis
        using Cons.IH [of "result1\<lparr>ev_dominant := m\<rparr>" "Some s" "visited @ [m]"] by simp
    next
      case worse: False
      then obtain d where d: "dominant = Some d" "\<not> outranks s d"
        by (auto split: option.splits)
      with Cons.prems(1) s valid True
      have "summaryLoop ms states result1 dominant = Inr (result', dominant')"
        by (auto simp: shows_up_def unit_case_Inr_iff Let_def result1_def outranks_def split: if_splits)
      moreover from Cons.prems(2) s valid True d
      have "summary_inv states (visited @ [m]) result1 dominant"
        by (auto simp: summary_inv_def result1_def intro: dominates_keep)
      ultimately show ?thesis
        using Cons.IH [of result1 dominant "visited @ [m]"] by simp
    qed
  qed
qed

lemma summary_inv_start: "summary_inv states [] zero_evaluation None"
  by (simp add: summary_inv_def)

lemma EvaluateSummary_cases:
  assumes "EvaluateSummary config states = Inr ev"
  obtains result where
    "ok (validate_summary config)" "summary_inv states (sc_members config) result None"
    "ev = result\<lparr>ev_acknowledged := True\<rparr>"
  | result d where
    "ok (validate_summary config)" "summary_inv states (sc_members config) result (Some d)"
    "ev = result\<lparr>ev_presentation := st_presentation d, ev_text := st_text d,
                 ev_acknowledged := \<not> ev_pending result\<rparr>"
proof -
  from assms have valid: "ok (validate_summary config)"
    by (simp add: EvaluateSummary_def unit_case_Inr_iff)
  with assms obtain result dominant
    where loop: "summaryLoop (sc_members config) states zero_evaluation None = Inr (result, dominant)"
    by (auto simp: EvaluateSummary_def unit_case_Inr_iff split: sum.splits)
  then have inv: "summary_inv states (sc_members config) result dominant"
    using summaryLoop_inv [OF loop summary_inv_start] by simp
  show thesis
  proof (cases dominant)
    case None
    with assms loop valid inv that(1) show thesis
      by (simp add: EvaluateSummary_def unit_case_Inr_iff)
  next
    case (Some d)
    with assms loop valid inv that(2) show thesis
      by (simp add: EvaluateSummary_def unit_case_Inr_iff)
  qed
qed

lemma EvaluateSummary_spec:
  assumes "EvaluateSummary config states = Inr ev"
  shows "ev_members ev = shown states (sc_members config)"
    and "ev_active ev \<longleftrightarrow> (\<exists>m\<in>set (sc_members config). \<exists>s. states m = Some s \<and> st_active s)"
    and "ev_pending ev \<longleftrightarrow> (\<exists>m\<in>set (sc_members config). \<exists>s. states m = Some s \<and> st_pending s)"
    and "ev_acknowledged ev = (\<not> ev_pending ev)"
    and "shown states (sc_members config) = [] \<Longrightarrow>
      ev_dominant ev = [] \<and> ev_presentation ev = no_presentation \<and> ev_text ev = []"
    and "shown states (sc_members config) \<noteq> [] \<Longrightarrow>
      \<exists>s. dominates states (shown states (sc_members config)) (ev_dominant ev) s \<and>
          ev_presentation ev = st_presentation s \<and> ev_text ev = st_text s"
  using assms
  by (cases rule: EvaluateSummary_cases; auto simp: summary_inv_def shown_def filter_empty_conv shows_up_def dominates_def)+


lemma dominates_member: "dominates states ms m s \<Longrightarrow> m \<in> set ms \<and> states m = Some s"
  by (auto simp: dominates_def)

lemma summary_members_ok:
  assumes "ok (validate_summary config)" and "m \<in> set (shown states (sc_members config))"
  shows "ok (validateSubject m) \<and> has_suffix m alertSuffix"
proof -
  from assms(2) have "m \<in> set (sc_members config)"
    by (simp add: shown_def)
  with assms(1) show ?thesis
    unfolding validate_summary_ok by (auto simp: has_suffix_iff)
qed

lemma EvaluateSummary_valid:
  "EvaluateSummary config states = Inr ev \<Longrightarrow> ok (validate_summary config)"
  by (simp add: EvaluateSummary_def unit_case_Inr_iff)

lemma EvaluateSummary_wf:
  assumes ev: "EvaluateSummary config states = Inr ev"
  shows "wf_evaluation ev"
  using ev
proof (cases rule: EvaluateSummary_cases)
  case (1 result)
  then show ?thesis
    by (simp add: summary_inv_def wf_evaluation_def)
next
  case (2 result d)
  let ?shown = "shown states (sc_members config)"
  from 2 have dom: "dominates states ?shown (ev_dominant result) d"
    and members: "ev_members result = ?shown"
    and pending: "ev_pending result = (\<exists>m\<in>set (sc_members config). \<exists>s. states m = Some s \<and> st_pending s)"
    and states: "\<forall>m\<in>set (sc_members config). \<exists>s. states m = Some s \<and> ok (validate_state s)"
    by (simp_all add: summary_inv_def)
  from dominates_member [OF dom] have d: "ev_dominant result \<in> set ?shown" "states (ev_dominant result) = Some d"
    by auto
  then have "ok (validate_state d)"
    using states by (auto simp: shown_def)
  then have "st_presentation d = no_presentation \<or> complete_presentation (st_presentation d)"
    unfolding validate_state_ok by blast
  moreover have "distinct ?shown"
    using EvaluateSummary_valid [OF ev] by (simp add: shown_def validate_summary_ok)
  ultimately show ?thesis
    using 2(3) d(1) members summary_members_ok [OF EvaluateSummary_valid [OF ev]]
    by (auto simp: wf_evaluation_def)
qed

section \<open>Applying an evaluation\<close>

text \<open>The four transitions of the lifecycle.\<close>

definition started :: "state option \<Rightarrow> bool" where
  "started previous \<longleftrightarrow> (case previous of None \<Rightarrow> False | Some p \<Rightarrow> st_active p)"

definition was_pending :: "state option \<Rightarrow> bool" where
  "was_pending previous \<longleftrightarrow> (case previous of None \<Rightarrow> False | Some p \<Rightarrow> st_pending p)"

definition carried :: "state option \<Rightarrow> evaluation \<Rightarrow> state" where
  "carried previous ev =
     \<lparr>st_version = CurrentVersion, st_active = ev_active ev,
      st_pending = was_pending previous, st_presentation = ev_presentation ev,
      st_text = ev_text ev,
      st_acknowledged = (case previous of None \<Rightarrow> False | Some p \<Rightarrow> st_acknowledged p),
      st_came = Option.bind previous st_came, st_went = Option.bind previous st_went,
      st_ack = Option.bind previous st_ack, st_dominant = ev_dominant ev,
      st_members = append_nil (ev_members ev),
      st_episode = (case previous of None \<Rightarrow> [] | Some p \<Rightarrow> st_episode p)\<rparr>"

definition new_episode_pending :: "evaluation \<Rightarrow> bool" where
  "new_episode_pending ev \<longleftrightarrow>
     ev_pending ev \<or> ps_requires_ack (ev_presentation ev) \<and> \<not> ev_acknowledged ev"

definition next_state :: "state option \<Rightarrow> evaluation \<Rightarrow> gotime \<Rightarrow> string \<Rightarrow> state" where
  "next_state previous ev time episodeID =
     (let s = carried previous ev; pend = (was_pending previous \<or> ev_pending ev)
      in if ev_active ev \<and> \<not> started previous
         then s\<lparr>st_came := Some (utc time), st_went := None, st_ack := None,
                st_episode := episodeID, st_pending := new_episode_pending ev,
                st_acknowledged := \<not> new_episode_pending ev\<rparr>
         else if ev_active ev
         then (if pend then s\<lparr>st_pending := True, st_acknowledged := False, st_ack := None\<rparr>
               else s\<lparr>st_pending := False\<rparr>)
         else (let s0 = (if started previous then s\<lparr>st_went := Some (utc time)\<rparr> else s)
               in if pend then s0\<lparr>st_pending := True, st_acknowledged := False, st_ack := None\<rparr>
                  else s0\<lparr>st_pending := False,
                          st_acknowledged := ev_acknowledged ev \<or>
                            \<not> ps_requires_ack (ev_presentation ev)\<rparr>))"

lemma ApplyEvaluation_iff:
  "ApplyEvaluation previous ev time episodeID = Inr s \<longleftrightarrow>
     (\<forall>p. previous = Some p \<longrightarrow> ok (validate_state p)) \<and>
     (ev_active ev \<and> \<not> started previous \<longrightarrow> episodeID \<noteq> []) \<and>
     s = next_state previous ev time episodeID \<and> ok (validate_state s)"
proof (cases previous)
  case None
  then show ?thesis
    by (auto simp: ApplyEvaluation_def next_state_def carried_def started_def was_pending_def
        new_episode_pending_def Let_def unit_case_Inr_iff)
next
  case (Some p)
  then show ?thesis
    by (cases "validate_state p")
      (auto simp: ApplyEvaluation_def next_state_def carried_def started_def was_pending_def
        new_episode_pending_def Let_def unit_case_Inr_iff)
qed


lemma wf_presentation:
  "wf_evaluation ev \<Longrightarrow>
     ev_presentation ev = no_presentation \<or> complete_presentation (ev_presentation ev)"
  by (simp add: wf_evaluation_def)

lemma next_state_static [simp]:
  "st_version (next_state previous ev time eid) = CurrentVersion"
  "st_active (next_state previous ev time eid) = ev_active ev"
  "st_presentation (next_state previous ev time eid) = ev_presentation ev"
  "st_text (next_state previous ev time eid) = ev_text ev"
  "st_dominant (next_state previous ev time eid) = ev_dominant ev"
  "st_members (next_state previous ev time eid) = append_nil (ev_members ev)"
  by (simp_all add: next_state_def carried_def Let_def)

lemma next_state_episode:
  "st_episode (next_state previous ev time eid) =
     (if ev_active ev \<and> \<not> started previous then eid
      else case previous of None \<Rightarrow> [] | Some p \<Rightarrow> st_episode p)"
  "st_came (next_state previous ev time eid) =
     (if ev_active ev \<and> \<not> started previous then Some (utc time) else Option.bind previous st_came)"
  "st_went (next_state previous ev time eid) =
     (if ev_active ev \<and> \<not> started previous then None
      else if \<not> ev_active ev \<and> started previous then Some (utc time)
      else Option.bind previous st_went)"
  by (simp_all add: next_state_def carried_def Let_def)

lemma next_state_pending:
  "st_pending (next_state previous ev time eid) =
     (if ev_active ev \<and> \<not> started previous then new_episode_pending ev
      else was_pending previous \<or> ev_pending ev)"
  by (simp add: next_state_def carried_def Let_def)

lemma next_state_acknowledged:
  "st_acknowledged (next_state previous ev time eid) =
     (if ev_active ev \<and> \<not> started previous then \<not> new_episode_pending ev
      else if was_pending previous \<or> ev_pending ev then False
      else if ev_active ev then st_acknowledged (the previous)
      else ev_acknowledged ev \<or> \<not> ps_requires_ack (ev_presentation ev))"
  "st_ack (next_state previous ev time eid) =
     (if ev_active ev \<and> \<not> started previous \<or> was_pending previous \<or> ev_pending ev then None
      else Option.bind previous st_ack)"
  by (auto simp: next_state_def carried_def Let_def started_def split: option.splits)

lemmas next_state_fields =
  next_state_static next_state_episode next_state_pending next_state_acknowledged

lemma next_state_valid:
  assumes wf: "wf_evaluation ev"
    and prev: "\<forall>p. previous = Some p \<longrightarrow> ok (validate_state p)"
    and eid: "ev_active ev \<and> \<not> started previous \<longrightarrow> eid \<noteq> []"
  shows "ok (validate_state (next_state previous ev time eid))"
proof (cases previous)
  case None
  with wf eid show ?thesis
    unfolding validate_state_ok next_state_fields
    by (auto simp: wf_evaluation_def started_def was_pending_def)
next
  case (Some p)
  with prev have "ok (validate_state p)" by simp
  with Some wf eid show ?thesis
    unfolding validate_state_ok next_state_fields
    by (auto simp: wf_evaluation_def started_def was_pending_def)
qed

lemma ApplyEvaluation_wf:
  assumes "wf_evaluation ev"
  shows "ApplyEvaluation previous ev time episodeID = Inr s \<longleftrightarrow>
     (\<forall>p. previous = Some p \<longrightarrow> ok (validate_state p)) \<and>
     (ev_active ev \<and> \<not> started previous \<longrightarrow> episodeID \<noteq> []) \<and>
     s = next_state previous ev time episodeID"
  using next_state_valid [OF assms] by (auto simp: ApplyEvaluation_iff)

lemma ApplyEvaluation_valid: "ApplyEvaluation previous ev time eid = Inr s \<Longrightarrow> ok (validate_state s)"
  by (auto simp: ApplyEvaluation_iff)

lemma Acknowledge_iff:
  "Acknowledge p eid time = Inr s \<longleftrightarrow>
     ok (validate_state p) \<and> eid \<noteq> [] \<and> eid = st_episode p \<and> st_pending p \<and>
     s = p\<lparr>st_pending := False, st_acknowledged := True, st_ack := Some (utc time)\<rparr>"
  by (auto simp: Acknowledge_def unit_case_Inr_iff)

lemma Acknowledge_valid: "Acknowledge p eid time = Inr s \<Longrightarrow> ok (validate_state s)"
  unfolding Acknowledge_iff validate_state_ok by auto

section \<open>The life of an alert\<close>

definition before_clock :: "gotime option \<Rightarrow> int \<Rightarrow> bool" where
  "before_clock a t \<longleftrightarrow> (\<forall>s. a = Some s \<longrightarrow> instant s \<le> t)"

text \<open>What holds of every state in the life of an alert.\<close>

definition lifecycle_inv :: "state \<Rightarrow> int \<Rightarrow> bool" where
  "lifecycle_inv s t \<longleftrightarrow>
     ok (validate_state s) \<and>
     time_le (st_came s) (st_went s) \<and> time_le (st_came s) (st_ack s) \<and>
     before_clock (st_came s) t \<and> before_clock (st_went s) t \<and> before_clock (st_ack s) t \<and>
     (st_came s \<noteq> None \<longleftrightarrow> st_episode s \<noteq> []) \<and>
     (st_went s \<noteq> None \<longleftrightarrow> st_came s \<noteq> None \<and> \<not> st_active s)"

lemma time_le_simps [simp]:
  "time_le None b" "time_le a None"
  "time_le (Some x) (Some y) \<longleftrightarrow> instant x \<le> instant y"
  by (simp_all add: time_le_def)

lemma before_clock_simps [simp]:
  "before_clock None t" "before_clock (Some x) t \<longleftrightarrow> instant x \<le> t"
  by (simp_all add: before_clock_def)

lemma before_clock_mono: "before_clock a t \<Longrightarrow> t \<le> u \<Longrightarrow> before_clock a u"
  by (auto simp: before_clock_def)

lemma before_clock_le: "before_clock a t \<Longrightarrow> t \<le> instant y \<Longrightarrow> time_le a (Some y)"
  by (auto simp: before_clock_def time_le_def)

lemma valid_active: "ok (validate_state s) \<Longrightarrow> st_active s \<Longrightarrow> st_came s \<noteq> None \<and> st_went s = None"
  by (simp add: validate_state_ok)

lemma lifecycle_inv_evaluate:
  assumes "ApplyEvaluation previous ev time eid = Inr s" and "t \<le> instant time"
    and "\<forall>p. previous = Some p \<longrightarrow> lifecycle_inv p t"
  shows "lifecycle_inv s (instant time)"
proof -
  from assms(1) have s: "s = next_state previous ev time eid" "ok (validate_state s)"
    and eid: "ev_active ev \<and> \<not> started previous \<longrightarrow> eid \<noteq> []"
    by (auto simp: ApplyEvaluation_iff)
  show ?thesis
  proof (cases previous)
    case None
    with s eid show ?thesis
      by (auto simp: lifecycle_inv_def next_state_fields started_def)
  next
    case (Some p)
    with assms(3) have p: "lifecycle_inv p t" by simp
    let ?u = "instant time"
    from p assms(2) have clock: "before_clock (st_came p) ?u" "before_clock (st_went p) ?u"
        "before_clock (st_ack p) ?u" "time_le (st_came p) (Some (utc time))"
      by (auto simp: lifecycle_inv_def intro: before_clock_mono before_clock_le)
    from p have inv: "time_le (st_came p) (st_went p)" "time_le (st_came p) (st_ack p)"
        "(st_came p \<noteq> None) = (st_episode p \<noteq> [])"
        "(st_went p \<noteq> None) = (st_came p \<noteq> None \<and> \<not> st_active p)"
        "st_active p \<Longrightarrow> st_came p \<noteq> None"
      using valid_active by (auto simp: lifecycle_inv_def)
    show ?thesis
      unfolding lifecycle_inv_def
      using s clock inv eid Some by (simp add: next_state_fields started_def)
  qed
qed

lemma lifecycle_inv_acknowledge:
  assumes "Acknowledge p eid time = Inr s" and "t \<le> instant time" and "lifecycle_inv p t"
  shows "lifecycle_inv s (instant time)"
  using assms Acknowledge_valid [OF assms(1)]
  by (auto simp: lifecycle_inv_def time_le_def before_clock_def Acknowledge_iff)

lemma lifecycle_invariant: "lifecycle p t \<Longrightarrow> \<forall>s. p = Some s \<longrightarrow> lifecycle_inv s t"
proof (induction rule: lifecycle.induct)
  case (start t)
  then show ?case by simp
next
  case (evaluate p t time ev episodeID s)
  then show ?case by (auto intro: lifecycle_inv_evaluate)
next
  case (acknowledge p t time episodeID s)
  then show ?case by (auto intro: lifecycle_inv_acknowledge)
qed

end
