(* ===== verification/Alert_Service.thy ===== *)
theory Alert_Service
  imports Alert_Lifecycle "HOL-Library.AList"
begin

text \<open>
  \<open>alert/service.go\<close>: the service that follows properties, configurations, inputs and runtime states
  and keeps the canonical state of every alert. The record \<open>service\<close> has the fields of the Go struct;
  a Go map is an association list with distinct keys, read by \<open>map_of\<close>. The visiting order of a loop
  over a map, which Go leaves open, is an argument of the operation.

  What the code reaches through the \<open>serviceStream\<close> interface, the clock and the id generator is the
  record \<open>env\<close>, indexed by the number of calls made so far (\<open>sv_calls\<close>), so that two calls may
  answer differently. Publications that succeeded are kept, newest first, in \<open>sv_outbox\<close>. Logging
  is left out, and so are the mutex and the goroutines: every handler runs under \<open>reconcileMu\<close>.
\<close>

section \<open>State\<close>

record env =
  en_codec :: codec
  en_now :: "nat \<Rightarrow> gotime"
  en_new_id :: "nat \<Rightarrow> string"
  en_publish :: "nat \<Rightarrow> string \<Rightarrow> string \<Rightarrow> bool"
  en_get_string :: "nat \<Rightarrow> string \<Rightarrow> string option"
  en_get_any :: "nat \<Rightarrow> string \<Rightarrow> any option"
  en_watch :: "nat \<Rightarrow> string \<Rightarrow> bool"
  en_subscribe :: "nat \<Rightarrow> string \<Rightarrow> bool"
  en_list_suffix :: "nat \<Rightarrow> string \<Rightarrow> string list option"
  en_list_prefix :: "nat \<Rightarrow> string \<Rightarrow> string list option"

text \<open>The field \<open>ad_ref\<close> is the identity of the definition, which the code compares as a pointer.\<close>

record alert_definition =
  ad_raw :: string
  ad_config :: config
  ad_output :: string
  ad_source :: string
  ad_input :: "any option"
  ad_ref :: nat

record service =
  sv_properties :: "(string \<times> properties) list"
  sv_definitions :: "(string \<times> alert_definition) list"
  sv_by_output :: "(string \<times> string) list"
  sv_states :: "(string \<times> state) list"
  sv_published :: "(string \<times> string) list"
  sv_dirty :: "string list"
  sv_parents :: "(string \<times> string list) list"
  sv_configs :: "string list option"
  sv_states_watch :: "string list option"
  sv_inputs :: "string list option"
  sv_running :: bool
  sv_refs :: nat
  sv_calls :: nat
  sv_outbox :: "(string \<times> string) list"

definition newService :: service where
  "newService =
     \<lparr>sv_properties = [], sv_definitions = [], sv_by_output = [], sv_states = [],
      sv_published = [], sv_dirty = [], sv_parents = [], sv_configs = None,
      sv_states_watch = None, sv_inputs = None, sv_running = False, sv_refs = 0,
      sv_calls = 0, sv_outbox = []\<rparr>"

definition call :: "service \<Rightarrow> service" where
  "call sv = sv\<lparr>sv_calls := Suc (sv_calls sv)\<rparr>"

definition the_states :: "service \<Rightarrow> string \<rightharpoonup> state" where
  "the_states sv = map_of (sv_states sv)"

definition the_definitions :: "service \<Rightarrow> string \<rightharpoonup> alert_definition" where
  "the_definitions sv = map_of (sv_definitions sv)"

definition is_summary :: "alert_definition \<Rightarrow> bool" where
  "is_summary d \<longleftrightarrow> cf_type (ad_config d) = TypeSummary"

definition config_members :: "config \<Rightarrow> string list" where
  "config_members c = (case cf_summary c of None \<Rightarrow> [] | Some s \<Rightarrow> sc_members s)"

section \<open>Storing and publishing a state\<close>

definition publish_state :: "env \<Rightarrow> string \<Rightarrow> string \<Rightarrow> service \<Rightarrow> service" where
  "publish_state env subject encoded sv =
     (if en_publish env (sv_calls sv) subject encoded
      then call sv\<lparr>sv_published := AList.update subject encoded (sv_published sv),
                   sv_dirty := removeAll subject (sv_dirty sv),
                   sv_outbox := (subject, encoded) # sv_outbox sv\<rparr>
      else call sv\<lparr>sv_published := AList.delete subject (sv_published sv),
                   sv_dirty := List.insert subject (sv_dirty sv)\<rparr>)"

definition storeAndPublishLocked :: "env \<Rightarrow> string \<Rightarrow> state \<Rightarrow> service \<Rightarrow> service" where
  "storeAndPublishLocked env subject st sv =
     (if map_of (sv_states sv) subject = Some st \<and> \<not> List.member (sv_dirty sv) subject then sv
      else (case MarshalState (en_codec env) st of
              Inl _ \<Rightarrow> sv
            | Inr encoded \<Rightarrow>
                publish_state env subject encoded
                  (sv\<lparr>sv_states := AList.update subject st (sv_states sv)\<rparr>)))"

definition republishCanonicalLocked :: "env \<Rightarrow> string \<Rightarrow> service \<Rightarrow> service" where
  "republishCanonicalLocked env subject sv =
     (case map_of (sv_states sv) subject of
        None \<Rightarrow> sv
      | Some st \<Rightarrow>
          (case MarshalState (en_codec env) st of
             Inl _ \<Rightarrow> sv
           | Inr encoded \<Rightarrow> publish_state env subject encoded sv))"

definition applyLocked :: "env \<Rightarrow> string \<Rightarrow> evaluation \<Rightarrow> service \<Rightarrow> service" where
  "applyLocked env output evaluation sv =
     (case ApplyEvaluation (map_of (sv_states sv) output) evaluation
             (en_now env (sv_calls sv)) (en_new_id env (sv_calls sv)) of
        Inl _ \<Rightarrow> call sv
      | Inr next_st \<Rightarrow> storeAndPublishLocked env output next_st (call sv))"

definition makeInactiveLocked :: "env \<Rightarrow> string \<Rightarrow> service \<Rightarrow> service" where
  "makeInactiveLocked env output sv =
     applyLocked env output (zero_evaluation\<lparr>ev_acknowledged := True\<rparr>) sv"

section \<open>Evaluating a definition\<close>

text \<open>The states of the members of a summary, or the error of the first member without one.\<close>

fun gatherMembers ::
    "(string \<times> state) list \<Rightarrow> string list \<Rightarrow> (string \<times> state) list \<Rightarrow>
     go_error + (string \<times> state) list" where
  "gatherMembers states [] members = Inr members"
| "gatherMembers states (member # rest) members =
     (case map_of states member of
        None \<Rightarrow> Inl (errorf ''summary member %q has no runtime state'' [FStr member])
      | Some st \<Rightarrow> gatherMembers states rest (AList.update member st members))"

text \<open>
  \<open>None\<close> when there is nothing to evaluate yet. A configuration without the variant of its type would
  be a nil dereference; no stored definition has one (its configuration was validated).
\<close>

definition evaluateConfig ::
    "alert_definition \<Rightarrow> service \<Rightarrow> (go_error + evaluation) option" where
  "evaluateConfig d sv =
     (case cf_type (ad_config d) of
        TypeBinary \<Rightarrow>
          (case ad_input d of
             Some (VBool b) \<Rightarrow>
               map_option (\<lambda>c. EvaluateBinary c b (map_of (sv_properties sv))) (cf_binary (ad_config d))
           | _ \<Rightarrow> None)
      | TypeValue \<Rightarrow>
          (case ad_input d of
             None \<Rightarrow> None
           | Some v \<Rightarrow>
               map_option (\<lambda>c. EvaluateValue c v (map_of (sv_properties sv))) (cf_value (ad_config d)))
      | TypeSummary \<Rightarrow>
          (case cf_summary (ad_config d) of
             None \<Rightarrow> None
           | Some c \<Rightarrow>
               Some (case gatherMembers (sv_states sv) (sc_members c) [] of
                       Inl e \<Rightarrow> Inl e
                     | Inr members \<Rightarrow> EvaluateSummary c (map_of members)))
      | TypeOther _ \<Rightarrow> Some (Inr zero_evaluation))"

definition evaluateDefinitionLocked :: "env \<Rightarrow> string \<Rightarrow> service \<Rightarrow> service" where
  "evaluateDefinitionLocked env subject sv =
     (case map_of (sv_definitions sv) subject of
        None \<Rightarrow> sv
      | Some d \<Rightarrow>
          (case evaluateConfig d sv of
             None \<Rightarrow> sv
           | Some (Inl _) \<Rightarrow> makeInactiveLocked env (ad_output d) sv
           | Some (Inr evaluation) \<Rightarrow> applyLocked env (ad_output d) evaluation sv))"

section \<open>Frames\<close>

text \<open>What evaluating, publishing and acknowledging leave alone.\<close>

definition static_part :: "service \<Rightarrow> service" where
  "static_part sv = sv\<lparr>sv_states := [], sv_published := [], sv_dirty := [], sv_calls := 0,
                 sv_outbox := []\<rparr>"

lemma static_update [simp]:
  "static_part (sv\<lparr>sv_states := a\<rparr>) = static_part sv" "static_part (sv\<lparr>sv_published := b\<rparr>) = static_part sv"
  "static_part (sv\<lparr>sv_dirty := c\<rparr>) = static_part sv" "static_part (sv\<lparr>sv_calls := d\<rparr>) = static_part sv"
  "static_part (sv\<lparr>sv_outbox := e\<rparr>) = static_part sv" "static_part (call sv) = static_part sv"
  by (simp_all add: static_part_def call_def)

lemma static_fields:
  assumes "static_part a = static_part b"
  shows "sv_properties a = sv_properties b" "sv_definitions a = sv_definitions b"
    "sv_by_output a = sv_by_output b" "sv_parents a = sv_parents b" "sv_configs a = sv_configs b"
    "sv_states_watch a = sv_states_watch b" "sv_inputs a = sv_inputs b"
    "sv_running a = sv_running b" "sv_refs a = sv_refs b"
  using assms by (cases a; cases b; simp add: static_part_def)+

lemma call_fields [simp]:
  "sv_properties (call sv) = sv_properties sv" "sv_definitions (call sv) = sv_definitions sv"
  "sv_by_output (call sv) = sv_by_output sv" "sv_states (call sv) = sv_states sv"
  "sv_published (call sv) = sv_published sv" "sv_dirty (call sv) = sv_dirty sv"
  "sv_parents (call sv) = sv_parents sv" "sv_configs (call sv) = sv_configs sv"
  "sv_states_watch (call sv) = sv_states_watch sv" "sv_inputs (call sv) = sv_inputs sv"
  "sv_running (call sv) = sv_running sv" "sv_refs (call sv) = sv_refs sv"
  "sv_calls (call sv) = Suc (sv_calls sv)" "sv_outbox (call sv) = sv_outbox sv"
  by (simp_all add: call_def)

lemma static_publish_state [simp]: "static_part (publish_state env subject encoded sv) = static_part sv"
  by (simp add: publish_state_def)

lemma static_storeAndPublishLocked [simp]:
  "static_part (storeAndPublishLocked env subject st sv) = static_part sv"
  by (simp add: storeAndPublishLocked_def split: sum.split)

lemma static_republishCanonicalLocked [simp]:
  "static_part (republishCanonicalLocked env subject sv) = static_part sv"
  by (simp add: republishCanonicalLocked_def split: sum.split option.split)

lemma static_applyLocked [simp]: "static_part (applyLocked env output evaluation sv) = static_part sv"
  by (simp add: applyLocked_def split: sum.split)

lemma static_makeInactiveLocked [simp]: "static_part (makeInactiveLocked env output sv) = static_part sv"
  by (simp add: makeInactiveLocked_def)

lemma static_evaluateDefinitionLocked [simp]:
  "static_part (evaluateDefinitionLocked env subject sv) = static_part sv"
  by (simp add: evaluateDefinitionLocked_def split: option.split sum.split)

lemma states_publish_state [simp]: "sv_states (publish_state env subject encoded sv) = sv_states sv"
  by (simp add: publish_state_def)

lemma states_republishCanonicalLocked [simp]:
  "sv_states (republishCanonicalLocked env subject sv) = sv_states sv"
  by (simp add: republishCanonicalLocked_def split: option.split sum.split)

section \<open>Ancestors\<close>

definition parents_of :: "service \<Rightarrow> string \<Rightarrow> string list" where
  "parents_of sv output = (case map_of (sv_parents sv) output of None \<Rightarrow> [] | Some ps \<Rightarrow> ps)"

definition all_parents :: "service \<Rightarrow> string set" where
  "all_parents sv = (\<Union>mp\<in>set (sv_parents sv). set (snd mp))"

lemma finite_all_parents [simp]: "finite (all_parents sv)"
  by (simp add: all_parents_def)

lemma parents_of_subset: "set (parents_of sv output) \<subseteq> all_parents sv"
proof (cases "map_of (sv_parents sv) output")
  case (Some ps)
  then have "(output, ps) \<in> set (sv_parents sv)"
    by (rule map_of_SomeD)
  with Some show ?thesis
    by (force simp: parents_of_def all_parents_def)
qed (simp add: parents_of_def)

lemma static_parents: "static_part a = static_part b \<Longrightarrow> parents_of a = parents_of b \<and> all_parents a = all_parents b"
  using static_fields(4) [of a b] by (simp add: fun_eq_iff parents_of_def all_parents_def)

text \<open>The queue of \<open>evaluateAncestorsLocked\<close>: breadth first, every definition at most once.\<close>

function ancestorsLoop ::
    "env \<Rightarrow> string list \<Rightarrow> string set \<Rightarrow> service \<Rightarrow> service \<times> string set" where
  "ancestorsLoop env [] seen sv = (sv, seen)"
| "ancestorsLoop env (subject # queue) seen sv =
     (if subject \<in> seen then ancestorsLoop env queue seen sv
      else (let sv' = evaluateDefinitionLocked env subject sv
            in ancestorsLoop env
                 (case map_of (sv_definitions sv') subject of
                    None \<Rightarrow> queue
                  | Some d \<Rightarrow> queue @ parents_of sv' (ad_output d))
                 (insert subject seen) sv'))"
  by pat_completeness auto
termination
proof (relation "measures
    [\<lambda>(env, queue, seen, sv). card ((all_parents sv \<union> set queue) - seen),
     \<lambda>(env, queue, seen, sv). length queue]", goal_cases)
  case 1
  then show ?case by simp
next
  case (2 env subject queue seen sv)
  then have "(all_parents sv \<union> set (subject # queue)) - seen = (all_parents sv \<union> set queue) - seen"
    by auto
  then show ?case by simp
next
  case (3 env subject queue seen sv sv')
  let ?queue = "case map_of (sv_definitions sv') subject of
      None \<Rightarrow> queue | Some d \<Rightarrow> queue @ parents_of sv' (ad_output d)"
  from 3 have parents: "all_parents sv' = all_parents sv"
    using static_parents [OF static_evaluateDefinitionLocked] by simp
  have "set ?queue \<subseteq> all_parents sv \<union> set queue"
    using parents_of_subset [of sv'] by (auto simp: parents split: option.splits)
  then have "(all_parents sv' \<union> set ?queue) - insert subject seen
      \<subset> (all_parents sv \<union> set (subject # queue)) - seen"
    using 3 parents by auto
  then have "card ((all_parents sv' \<union> set ?queue) - insert subject seen)
      < card ((all_parents sv \<union> set (subject # queue)) - seen)"
    by (intro psubset_card_mono) auto
  then show ?case by simp
qed

definition evaluateAncestorsLocked ::
    "env \<Rightarrow> string \<Rightarrow> string set \<Rightarrow> service \<Rightarrow> service \<times> string set" where
  "evaluateAncestorsLocked env output seen sv = ancestorsLoop env (parents_of sv output) seen sv"

text \<open>The calls that pass no map of their own.\<close>

definition evaluateAncestors :: "env \<Rightarrow> string \<Rightarrow> service \<Rightarrow> service" where
  "evaluateAncestors env output sv = fst (evaluateAncestorsLocked env output {} sv)"

section \<open>Dependency cycles\<close>

definition definitionForOutputLocked :: "service \<Rightarrow> string \<Rightarrow> alert_definition option" where
  "definitionForOutputLocked sv output =
     map_of (sv_definitions sv)
       (case map_of (sv_by_output sv) output of None \<Rightarrow> [] | Some subject \<Rightarrow> subject)"

text \<open>The outputs a state is computed from.\<close>

definition members_of :: "service \<Rightarrow> string \<Rightarrow> string list" where
  "members_of sv output =
     (case definitionForOutputLocked sv output of
        None \<Rightarrow> []
      | Some d \<Rightarrow> if is_summary d then config_members (ad_config d) else [])"

definition all_members :: "service \<Rightarrow> string set" where
  "all_members sv = (\<Union>sd\<in>set (sv_definitions sv). set (config_members (ad_config (snd sd))))"

lemma finite_all_members [simp]: "finite (all_members sv)"
  by (simp add: all_members_def)

lemma members_of_subset: "set (members_of sv output) \<subseteq> all_members sv"
proof (cases "definitionForOutputLocked sv output")
  case (Some d)
  then obtain subject where "(subject, d) \<in> set (sv_definitions sv)"
    unfolding definitionForOutputLocked_def by (blast dest: map_of_SomeD)
  with Some show ?thesis
    by (force simp: members_of_def all_members_def)
qed (simp add: members_of_def)

text \<open>
  The closure \<open>visit\<close> of \<open>summaryCycleLocked\<close> and its loop over the members: the answer with the maps
  \<open>visiting\<close> and \<open>visited\<close>.
\<close>

function (sequential) visitOutput ::
    "service \<Rightarrow> string \<Rightarrow> string set \<times> string set \<Rightarrow> bool \<times> string set \<times> string set"
  and visitMembers ::
    "service \<Rightarrow> string list \<Rightarrow> string set \<times> string set \<Rightarrow> bool \<times> string set \<times> string set" where
  "visitOutput sv output (visiting, visited) =
     (if output \<in> visiting then (True, visiting, visited)
      else if output \<in> visited then (False, visiting, visited)
      else (case visitMembers sv (members_of sv output) (insert output visiting, insert output visited) of
              (True, maps) \<Rightarrow> (True, maps)
            | (False, visiting', visited') \<Rightarrow> (False, visiting' - {output}, visited')))"
| "visitMembers sv [] maps = (False, maps)"
| "visitMembers sv (member # rest) maps =
     (case visitOutput sv member maps of
        (True, maps') \<Rightarrow> (True, maps')
      | (False, maps') \<Rightarrow> visitMembers sv rest maps')"
  by pat_completeness auto

lemma visit_visited_grows:
  "visitOutput_visitMembers_dom (Inl (sv, output, maps)) \<Longrightarrow>
     snd maps \<subseteq> snd (snd (visitOutput sv output maps))"
  "visitOutput_visitMembers_dom (Inr (sv, ms, maps)) \<Longrightarrow>
     snd maps \<subseteq> snd (snd (visitMembers sv ms maps))"
proof (induction rule: visitOutput_visitMembers.pinduct)
  case (1 sv out visiting visited)
  then show ?case
    by (auto simp: visitOutput.psimps split: prod.splits bool.splits)
next
  case (2 sv maps)
  then show ?case by (simp add: visitMembers.psimps)
next
  case (3 sv member rest maps)
  obtain b maps' where eq: "visitOutput sv member maps = (b, maps')"
    by (cases "visitOutput sv member maps")
  from 3(2) eq have mono: "snd maps \<subseteq> snd maps'"
    by simp
  show ?case
  proof (cases b)
    case True
    with 3(1) eq mono show ?thesis
      by (simp add: visitMembers.psimps)
  next
    case False
    with 3(3) [of b maps'] eq have "snd maps' \<subseteq> snd (snd (visitMembers sv rest maps'))"
      by simp
    with False 3(1) eq mono show ?thesis
      by (simp add: visitMembers.psimps)
  qed
qed

termination visitOutput
proof (relation "measures
    [\<lambda>call. case call of
        Inl (sv, output, maps) \<Rightarrow> card (insert output (all_members sv) - snd maps)
      | Inr (sv, ms, maps) \<Rightarrow> card ((all_members sv \<union> set ms) - snd maps),
     \<lambda>call. case call of Inl _ \<Rightarrow> 0 | Inr (sv, ms, maps) \<Rightarrow> Suc (length ms)]", goal_cases)
  case 1
  then show ?case by simp
next
  case (2 sv out visiting visited)
  have "(all_members sv \<union> set (members_of sv out)) - insert out visited
      \<subset> insert out (all_members sv) - visited"
    using 2 members_of_subset [of sv out] by auto
  then have "card ((all_members sv \<union> set (members_of sv out)) - insert out visited)
      < card (insert out (all_members sv) - visited)"
    by (intro psubset_card_mono) auto
  then show ?case by simp
next
  case (3 sv member rest maps)
  have "card (insert member (all_members sv) - snd maps)
      \<le> card ((all_members sv \<union> set (member # rest)) - snd maps)"
    by (intro card_mono) auto
  then show ?case by auto
next
  case (4 sv member rest maps x maps')
  from 4(3) have "snd maps \<subseteq> snd (snd (visitOutput sv member maps))"
    by (rule visit_visited_grows)
  with 4 have "snd maps \<subseteq> snd maps'"
    by (metis snd_conv)
  then have "card ((all_members sv \<union> set rest) - snd maps')
      \<le> card ((all_members sv \<union> set (member # rest)) - snd maps)"
    by (intro card_mono) auto
  then show ?case by auto
qed

definition summaryCycleLocked :: "service \<Rightarrow> string \<Rightarrow> bool" where
  "summaryCycleLocked sv start = fst (visitOutput sv start ({}, {}))"

section \<open>Watches\<close>

text \<open>\<open>Watch\<close> on the watch of the states; an error is only logged.\<close>

definition watchState :: "env \<Rightarrow> string \<Rightarrow> service \<Rightarrow> service" where
  "watchState env name sv =
     (case sv_states_watch sv of
        None \<Rightarrow> sv
      | Some names \<Rightarrow>
          if en_watch env (sv_calls sv) name
          then call sv\<lparr>sv_states_watch := Some (List.insert name names)\<rparr> else call sv)"

definition catchUpStateLocked :: "env \<Rightarrow> string \<Rightarrow> service \<Rightarrow> service" where
  "catchUpStateLocked env subject sv =
     (if map_of (sv_states sv) subject \<noteq> None then sv
      else (case en_get_string env (sv_calls sv) subject of
              None \<Rightarrow> call sv
            | Some raw \<Rightarrow>
                if trim_space raw = [] then call sv
                else (case ParseState (en_codec env) raw of
                        Inl _ \<Rightarrow> call sv
                      | Inr st \<Rightarrow>
                          call sv\<lparr>sv_states := AList.update subject st (sv_states sv)\<rparr>)))"

section \<open>Definitions\<close>

definition removeString :: "string list \<Rightarrow> string \<Rightarrow> string list" where
  "removeString values target = filter (\<lambda>v. v \<noteq> target) values"

fun hookMembers :: "string \<Rightarrow> string list \<Rightarrow> service \<Rightarrow> service" where
  "hookMembers subject [] sv = sv"
| "hookMembers subject (member # rest) sv =
     hookMembers subject rest
       (sv\<lparr>sv_parents := AList.update member (parents_of sv member @ [subject]) (sv_parents sv)\<rparr>)"

definition hookParentsLocked :: "string \<Rightarrow> alert_definition \<Rightarrow> service \<Rightarrow> service" where
  "hookParentsLocked subject d sv =
     (if is_summary d then hookMembers subject (config_members (ad_config d)) sv else sv)"

fun unhookMembers :: "string \<Rightarrow> string list \<Rightarrow> service \<Rightarrow> service" where
  "unhookMembers subject [] sv = sv"
| "unhookMembers subject (member # rest) sv =
     (let left = removeString (parents_of sv member) subject
      in unhookMembers subject rest
           (sv\<lparr>sv_parents := (if left = [] then AList.delete member (sv_parents sv)
                             else AList.update member left (sv_parents sv))\<rparr>))"

definition unhookParentsLocked :: "string \<Rightarrow> alert_definition \<Rightarrow> service \<Rightarrow> service" where
  "unhookParentsLocked subject d sv =
     (if is_summary d then unhookMembers subject (config_members (ad_config d)) sv else sv)"

definition removeDefinitionLocked :: "env \<Rightarrow> string \<Rightarrow> service \<Rightarrow> service" where
  "removeDefinitionLocked env subject sv =
     (case map_of (sv_definitions sv) subject of
        None \<Rightarrow> sv
      | Some d \<Rightarrow>
          (let sv1 = unhookParentsLocked subject d sv;
               sv2 = sv1\<lparr>sv_definitions := AList.delete subject (sv_definitions sv1),
                         sv_by_output := AList.delete (ad_output d) (sv_by_output sv1)\<rparr>
           in if is_summary d then sv2
              else (case sv_inputs sv2 of
                      None \<Rightarrow> sv2
                    | Some names \<Rightarrow>
                        if en_watch env (sv_calls sv2) (ad_source d)
                        then call sv2\<lparr>sv_inputs := Some (removeAll (ad_source d) names)\<rparr>
                        else call sv2)))"

text \<open>The two calls that take an alert out of service.\<close>

definition deactivate :: "env \<Rightarrow> string \<Rightarrow> service \<Rightarrow> service" where
  "deactivate env output sv = evaluateAncestors env output (makeInactiveLocked env output sv)"

definition acceptInputLocked ::
    "env \<Rightarrow> string \<Rightarrow> alert_definition \<Rightarrow> any \<Rightarrow> service \<Rightarrow> service" where
  "acceptInputLocked env subject expected v sv =
     (case map_of (sv_definitions sv) subject of
        None \<Rightarrow> sv
      | Some d \<Rightarrow>
          if ad_ref d \<noteq> ad_ref expected then sv
          else evaluateAncestors env (ad_output d)
                 (evaluateDefinitionLocked env subject
                    (sv\<lparr>sv_definitions :=
                         AList.update subject (d\<lparr>ad_input := Some v\<rparr>) (sv_definitions sv)\<rparr>)))"

fun catchUpMembers :: "env \<Rightarrow> string list \<Rightarrow> service \<Rightarrow> service" where
  "catchUpMembers env [] sv = sv"
| "catchUpMembers env (member # rest) sv =
     catchUpMembers env rest (catchUpStateLocked env member (watchState env member sv))"

definition parseConfigFor :: "codec \<Rightarrow> string \<Rightarrow> string \<Rightarrow> go_error + config" where
  "parseConfigFor cd subject raw =
     (case ParseConfig cd raw of
        Inl e \<Rightarrow> Inl e
      | Inr c \<Rightarrow> (case ValidateForSubject c subject of Inl e \<Rightarrow> Inl e | Inr _ \<Rightarrow> Inr c))"

text \<open>The part of \<open>reconcileConfigLocked\<close> that installs a valid, enabled configuration.\<close>

definition installDefinition ::
    "env \<Rightarrow> string \<Rightarrow> alert_definition \<Rightarrow> service \<Rightarrow> service" where
  "installDefinition env subject d sv =
     watchState env (ad_output d)
       (sv\<lparr>sv_definitions := AList.update subject d (sv_definitions sv),
           sv_by_output := AList.update (ad_output d) subject (sv_by_output sv),
           sv_refs := Suc (sv_refs sv)\<rparr>)"

definition reconcileConfigLocked :: "env \<Rightarrow> string \<Rightarrow> string \<Rightarrow> service \<Rightarrow> service" where
  "reconcileConfigLocked env subject raw sv =
     (let sv0 = removeDefinitionLocked env subject sv
      in case (parseConfigFor (en_codec env) subject raw, OutputSubject subject, InputSubject subject) of
           (Inr c, Inr output, Inr source) \<Rightarrow>
             if \<not> cf_enabled c then deactivate env output sv0
             else
               (let d = \<lparr>ad_raw = raw, ad_config = c, ad_output = output, ad_source = source,
                         ad_input = None, ad_ref = sv_refs sv0\<rparr>;
                    sv1 = installDefinition env subject d sv0
                in if is_summary d
                   then (let sv2 = hookParentsLocked subject d sv1
                         in if summaryCycleLocked sv2 output
                            then deactivate env output (removeDefinitionLocked env subject sv2)
                            else evaluateAncestors env output
                                   (evaluateDefinitionLocked env subject
                                      (catchUpMembers env (config_members c) sv2)))
                   else (case sv_inputs sv1 of
                           None \<Rightarrow> sv1
                         | Some names \<Rightarrow>
                             if \<not> en_watch env (sv_calls sv1) source
                             then deactivate env output
                                    (removeDefinitionLocked env subject (call sv1))
                             else
                               (let sv2 = call sv1\<lparr>sv_inputs := Some (List.insert source names)\<rparr>
                                in case en_get_any env (sv_calls sv2) source of
                                     None \<Rightarrow> call sv2
                                   | Some v \<Rightarrow> acceptInputLocked env subject d v (call sv2))))
         | (_, Inr output, _) \<Rightarrow> deactivate env output sv0
         | _ \<Rightarrow> sv0)"

section \<open>Properties and inputs\<close>

definition definitionReferences :: "config \<Rightarrow> string \<Rightarrow> bool" where
  "definitionReferences c property =
     (case cf_binary c of
        Some b \<Rightarrow> mp_property (bc_true b) = property \<or> mp_property (bc_false b) = property
      | None \<Rightarrow>
          (case cf_value c of
             Some v \<Rightarrow> list_ex (\<lambda>iv. iv_property iv = property) (vc_intervals v)
           | None \<Rightarrow> False))"

text \<open>The loop over the definitions shares one map \<open>seen\<close> between the calls.\<close>

fun propertyLoop :: "env \<Rightarrow> string \<Rightarrow> string list \<Rightarrow> string set \<Rightarrow> service \<Rightarrow> service" where
  "propertyLoop env property [] seen sv = sv"
| "propertyLoop env property (subject # rest) seen sv =
     (case map_of (sv_definitions sv) subject of
        None \<Rightarrow> propertyLoop env property rest seen sv
      | Some d \<Rightarrow>
          if \<not> is_summary d \<and> definitionReferences (ad_config d) property \<and> ad_input d \<noteq> None
          then (case evaluateAncestorsLocked env (ad_output d) seen
                       (evaluateDefinitionLocked env subject sv) of
                  (sv', seen') \<Rightarrow> propertyLoop env property rest seen' sv')
          else propertyLoop env property rest seen sv)"

definition reconcilePropertyLocked ::
    "env \<Rightarrow> string list \<Rightarrow> string \<Rightarrow> string \<Rightarrow> service \<Rightarrow> service" where
  "reconcilePropertyLocked env order subject raw sv =
     (let sv1 = (case ParseProperties (en_codec env) raw of
                   Inl _ \<Rightarrow> sv\<lparr>sv_properties := AList.delete subject (sv_properties sv)\<rparr>
                 | Inr p \<Rightarrow> sv\<lparr>sv_properties := AList.update subject p (sv_properties sv)\<rparr>)
      in propertyLoop env subject order {} sv1)"

fun acceptSourceLocked ::
    "env \<Rightarrow> string list \<Rightarrow> string \<Rightarrow> any \<Rightarrow> service \<Rightarrow> service" where
  "acceptSourceLocked env [] source v sv = sv"
| "acceptSourceLocked env (subject # rest) source v sv =
     acceptSourceLocked env rest source v
       (case map_of (sv_definitions sv) subject of
          None \<Rightarrow> sv
        | Some d \<Rightarrow>
            if \<not> is_summary d \<and> ad_source d = source then acceptInputLocked env subject d v sv
            else sv)"

section \<open>Runtime states from the bus\<close>

definition acknowledgeOneLocked :: "env \<Rightarrow> string \<Rightarrow> service \<Rightarrow> service" where
  "acknowledgeOneLocked env subject sv =
     (case map_of (sv_states sv) subject of
        None \<Rightarrow> sv
      | Some st \<Rightarrow>
          if \<not> st_pending st then sv
          else (case Acknowledge st (st_episode st) (en_now env (sv_calls sv)) of
                  Inl _ \<Rightarrow> call sv
                | Inr next_st \<Rightarrow> storeAndPublishLocked env subject next_st (call sv)))"

lemma static_acknowledgeOneLocked [simp]:
  "static_part (acknowledgeOneLocked env subject sv) = static_part sv"
  by (simp add: acknowledgeOneLocked_def split: option.split sum.split)

lemma static_members:
  assumes "static_part a = static_part b"
  shows "members_of a = members_of b" "all_members a = all_members b"
  using static_fields [OF assms]
  by (simp_all add: fun_eq_iff members_of_def definitionForOutputLocked_def all_members_def)

text \<open>
  \<open>visiting\<close> holds the path from the root: the code deletes a subject from the map when it returns.
\<close>

function (sequential) acknowledgeTreeLocked ::
    "env \<Rightarrow> string \<Rightarrow> string set \<Rightarrow> service \<Rightarrow> service"
  and acknowledgeMembers :: "env \<Rightarrow> string list \<Rightarrow> string set \<Rightarrow> service \<Rightarrow> service" where
  "acknowledgeTreeLocked env subject visiting sv =
     (if subject \<in> visiting then sv
      else acknowledgeOneLocked env subject
             (acknowledgeMembers env (members_of sv subject) (insert subject visiting) sv))"
| "acknowledgeMembers env [] visiting sv = sv"
| "acknowledgeMembers env (member # rest) visiting sv =
     acknowledgeMembers env rest visiting
       (case map_of (sv_states sv) member of
          None \<Rightarrow> sv
        | Some st \<Rightarrow>
            if st_active st \<or> st_pending st
            then acknowledgeTreeLocked env member visiting sv else sv)"
  by pat_completeness auto

lemma static_acknowledgeTree_dom:
  "acknowledgeTreeLocked_acknowledgeMembers_dom (Inl (env, subject, visiting, sv)) \<Longrightarrow>
     static_part (acknowledgeTreeLocked env subject visiting sv) = static_part sv"
  "acknowledgeTreeLocked_acknowledgeMembers_dom (Inr (env, ms, visiting, sv)) \<Longrightarrow>
     static_part (acknowledgeMembers env ms visiting sv) = static_part sv"
  by (induction rule: acknowledgeTreeLocked_acknowledgeMembers.pinduct)
    (auto simp: acknowledgeTreeLocked.psimps acknowledgeMembers.psimps split: option.splits)

termination acknowledgeTreeLocked
proof (relation "measures
    [\<lambda>call. case call of
        Inl (env, subject, visiting, sv) \<Rightarrow> card (insert subject (all_members sv) - visiting)
      | Inr (env, ms, visiting, sv) \<Rightarrow> card ((all_members sv \<union> set ms) - visiting),
     \<lambda>call. case call of Inl _ \<Rightarrow> 0 | Inr (env, ms, visiting, sv) \<Rightarrow> Suc (length ms)]", goal_cases)
  case 1
  then show ?case by simp
next
  case (2 env subject visiting sv)
  then have "(all_members sv \<union> set (members_of sv subject)) - insert subject visiting
      \<subset> insert subject (all_members sv) - visiting"
    using members_of_subset [of sv subject] by auto
  then have "card ((all_members sv \<union> set (members_of sv subject)) - insert subject visiting)
      < card (insert subject (all_members sv) - visiting)"
    by (intro psubset_card_mono) auto
  then show ?case by simp
next
  case (3 env member rest visiting sv st)
  have "card (insert member (all_members sv) - visiting)
      \<le> card ((all_members sv \<union> set (member # rest)) - visiting)"
    by (intro card_mono) auto
  then show ?case by auto
next
  case (4 env member rest visiting sv)
  let ?sv' = "case map_of (sv_states sv) member of None \<Rightarrow> sv
    | Some st \<Rightarrow> if st_active st \<or> st_pending st
        then acknowledgeTreeLocked env member visiting sv else sv"
  have "static_part ?sv' = static_part sv"
    using 4 static_acknowledgeTree_dom(1) by (auto split: option.splits)
  then have "all_members ?sv' = all_members sv"
    by (rule static_members)
  moreover have "card ((all_members sv \<union> set rest) - visiting)
      \<le> card ((all_members sv \<union> set (member # rest)) - visiting)"
    by (intro card_mono) auto
  ultimately show ?case by auto
qed

definition reconcileStateLocked :: "env \<Rightarrow> string \<Rightarrow> string \<Rightarrow> service \<Rightarrow> service" where
  "reconcileStateLocked env subject raw sv =
     (let owned = (map_of (sv_by_output sv) subject \<noteq> None)
      in case parseStateUnchecked (en_codec env) raw of
           Inl _ \<Rightarrow> if owned then republishCanonicalLocked env subject sv else sv
         | Inr incoming \<Rightarrow>
             (case (owned, map_of (sv_states sv) subject) of
                (True, Some canonical) \<Rightarrow>
                  if canonical = incoming then sv
                  else if st_acknowledged incoming \<and> st_pending canonical \<and>
                          st_episode incoming = st_episode canonical
                  then evaluateAncestors env subject
                         (if (case definitionForOutputLocked sv subject of
                                None \<Rightarrow> False | Some d \<Rightarrow> is_summary d)
                          then acknowledgeTreeLocked env subject {} sv
                          else acknowledgeOneLocked env subject sv)
                  else republishCanonicalLocked env subject sv
              | _ \<Rightarrow>
                  (case validate_state incoming of
                     Inl _ \<Rightarrow> sv
                   | Inr _ \<Rightarrow>
                       evaluateAncestors env subject
                         (sv\<lparr>sv_states := AList.update subject incoming (sv_states sv)\<rparr>))))"

section \<open>Loading, running and stopping\<close>

text \<open>Reading a Go map at an absent key gives the zero value.\<close>

definition zero_state :: state where
  "zero_state =
     \<lparr>st_version = 0, st_active = False, st_pending = False, st_presentation = no_presentation,
      st_text = [], st_acknowledged = False, st_came = None, st_went = None, st_ack = None,
      st_dominant = [], st_members = None, st_episode = []\<rparr>"

definition state_at :: "service \<Rightarrow> string \<Rightarrow> state" where
  "state_at sv subject = (case map_of (sv_states sv) subject of None \<Rightarrow> zero_state | Some st \<Rightarrow> st)"

text \<open>One pass of \<open>evaluateAllSummariesLocked\<close>, and the passes that are left.\<close>

fun summaryPass :: "env \<Rightarrow> string list \<Rightarrow> bool \<Rightarrow> service \<Rightarrow> service \<times> bool" where
  "summaryPass env [] changed sv = (sv, changed)"
| "summaryPass env (subject # rest) changed sv =
     (case map_of (sv_definitions sv) subject of
        None \<Rightarrow> summaryPass env rest changed sv
      | Some d \<Rightarrow>
          if \<not> is_summary d then summaryPass env rest changed sv
          else (let sv' = evaluateDefinitionLocked env subject sv
                in summaryPass env rest
                     (changed \<or> state_at sv (ad_output d) \<noteq> state_at sv' (ad_output d))
                     sv'))"

fun summaryPasses :: "env \<Rightarrow> (nat \<Rightarrow> string list) \<Rightarrow> nat \<Rightarrow> service \<Rightarrow> service" where
  "summaryPasses env order 0 sv = sv"
| "summaryPasses env order (Suc n) sv =
     (case summaryPass env (order n) False sv of
        (sv', changed) \<Rightarrow> if changed then summaryPasses env order n sv' else sv')"

definition evaluateAllSummariesLocked ::
    "env \<Rightarrow> (nat \<Rightarrow> string list) \<Rightarrow> service \<Rightarrow> service" where
  "evaluateAllSummariesLocked env order sv =
     summaryPasses env order (Suc (length (sv_definitions sv))) sv"

fun loadSubjects ::
    "env \<Rightarrow> (string \<Rightarrow> string \<Rightarrow> service \<Rightarrow> service) \<Rightarrow> string list \<Rightarrow> service \<Rightarrow> service" where
  "loadSubjects env apply [] sv = sv"
| "loadSubjects env apply (subject # rest) sv =
     (case en_get_string env (sv_calls sv) subject of
        None \<Rightarrow> loadSubjects env apply rest (call sv)
      | Some v \<Rightarrow> loadSubjects env apply rest (apply subject v (call sv)))"

definition load ::
    "env \<Rightarrow> (nat \<Rightarrow> string list option) \<Rightarrow> (string \<Rightarrow> string \<Rightarrow> service \<Rightarrow> service) \<Rightarrow>
     service \<Rightarrow> service \<times> bool" where
  "load env list apply sv =
     (case list (sv_calls sv) of
        None \<Rightarrow> (call sv, False)
      | Some subjects \<Rightarrow> (loadSubjects env apply (sort subjects) (call sv), True))"

text \<open>An invalid retained state is skipped; the first two loads have no definitions to evaluate.\<close>

definition loadState :: "env \<Rightarrow> string \<Rightarrow> string \<Rightarrow> service \<Rightarrow> service" where
  "loadState env subject raw sv =
     (case ParseState (en_codec env) raw of
        Inl _ \<Rightarrow> sv
      | Inr st \<Rightarrow> sv\<lparr>sv_states := AList.update subject st (sv_states sv)\<rparr>)"

definition loadInitial ::
    "env \<Rightarrow> (string \<Rightarrow> string list) \<Rightarrow> (nat \<Rightarrow> string list) \<Rightarrow> service \<Rightarrow> service \<times> bool" where
  "loadInitial env property_order order sv =
     (case load env (\<lambda>n. en_list_suffix env n alertSuffix) (loadState env) sv of
        (sv1, False) \<Rightarrow> (sv1, False)
      | (sv1, True) \<Rightarrow>
          (case load env (\<lambda>n. en_list_prefix env n (trim_suffix propertiesPrefix ''.''))
                  (\<lambda>subject. reconcilePropertyLocked env (property_order subject) subject) sv1 of
             (sv2, False) \<Rightarrow> (sv2, False)
           | (sv2, True) \<Rightarrow>
               (case load env (\<lambda>n. en_list_suffix env n configSuffix)
                       (reconcileConfigLocked env) sv2 of
                  (sv3, False) \<Rightarrow> (sv3, False)
                | (sv3, True) \<Rightarrow> (evaluateAllSummariesLocked env order sv3, True))))"

definition configsWatch :: string where "configsWatch = ''alert-configs''"
definition statesWatch :: string where "statesWatch = ''alert-states''"
definition inputsWatch :: string where "inputsWatch = ''alert-inputs''"

text \<open>\<open>WatchExact\<close> and the two subscriptions succeed or fail; a watch starts with no names.\<close>

definition startWatches :: "env \<Rightarrow> service \<Rightarrow> service \<times> bool" where
  "startWatches env sv =
     (let sv1 = call sv; sv2 = call sv1; sv3 = call sv2
      in if \<not> en_subscribe env (sv_calls sv) configsWatch then (sv1, False)
         else if \<not> en_subscribe env (sv_calls sv1) statesWatch then (sv2, False)
         else if \<not> en_subscribe env (sv_calls sv2) inputsWatch then (sv3, False)
         else (sv3\<lparr>sv_configs := Some [], sv_states_watch := Some [], sv_inputs := Some []\<rparr>, True))"

definition watchConfig :: "env \<Rightarrow> string \<Rightarrow> service \<Rightarrow> service" where
  "watchConfig env name sv =
     (case sv_configs sv of
        None \<Rightarrow> sv
      | Some names \<Rightarrow>
          if en_watch env (sv_calls sv) name
          then call sv\<lparr>sv_configs := Some (List.insert name names)\<rparr> else call sv)"

definition watchKnown ::
    "env \<Rightarrow> string \<Rightarrow> (string \<Rightarrow> service \<Rightarrow> service) \<Rightarrow> service \<Rightarrow> service \<times> bool" where
  "watchKnown env suff watch sv =
     (case en_list_suffix env (sv_calls sv) suff of
        None \<Rightarrow> (call sv, False)
      | Some subjects \<Rightarrow> (fold watch subjects (call sv), True))"

definition subscribeGlobals :: "env \<Rightarrow> service \<Rightarrow> service \<times> bool" where
  "subscribeGlobals env sv =
     (let sv1 = call sv; sv2 = call sv1
      in if \<not> en_subscribe env (sv_calls sv) (trim_suffix propertiesPrefix ''.'') then (sv1, False)
         else if \<not> en_subscribe env (sv_calls sv1) ''registry.subject.created'' then (sv2, False)
         else (case watchKnown env configSuffix (watchConfig env) sv2 of
                 (sv3, False) \<Rightarrow> (sv3, False)
               | (sv3, True) \<Rightarrow> watchKnown env alertSuffix (watchState env) sv3))"

definition stop :: "service \<Rightarrow> service" where
  "stop sv = sv\<lparr>sv_configs := None, sv_states_watch := None, sv_inputs := None,
               sv_running := False\<rparr>"

text \<open>\<open>Run\<close> up to the point where it waits for its context; \<open>False\<close> when it has failed.\<close>

definition Run ::
    "env \<Rightarrow> (string \<Rightarrow> string list) \<Rightarrow> (nat \<Rightarrow> string list) \<Rightarrow> service \<Rightarrow> service \<times> bool" where
  "Run env property_order order sv =
     (if sv_running sv then (sv, False)
      else (case startWatches env (sv\<lparr>sv_running := True\<rparr>) of
              (sv1, False) \<Rightarrow> (stop sv1, False)
            | (sv1, True) \<Rightarrow>
                (case loadInitial env property_order order sv1 of
                   (sv2, False) \<Rightarrow> (stop sv2, False)
                 | (sv2, True) \<Rightarrow>
                     (case subscribeGlobals env sv2 of
                        (sv3, False) \<Rightarrow> (stop sv3, False)
                      | (sv3, True) \<Rightarrow> (sv3, True)))))"

text \<open>The handlers of the running service; a value of another type than string is only logged.\<close>

datatype event =
    ConfigValue string any | StateValue string any | InputValue "string list" string any
  | PropertyValue "string list" string string | CreatedSubject string string

definition handle :: "env \<Rightarrow> event \<Rightarrow> service \<Rightarrow> service" where
  "handle env ev sv =
     (case ev of
        ConfigValue subject v \<Rightarrow>
          (case v of VString raw \<Rightarrow> reconcileConfigLocked env subject raw sv | _ \<Rightarrow> sv)
      | StateValue subject v \<Rightarrow>
          (case v of VString raw \<Rightarrow> reconcileStateLocked env subject raw sv | _ \<Rightarrow> sv)
      | InputValue order subject v \<Rightarrow> acceptSourceLocked env order subject v sv
      | PropertyValue order subject raw \<Rightarrow> reconcilePropertyLocked env order subject raw sv
      | CreatedSubject suff subject \<Rightarrow>
          if suff = trim_prefix configSuffix ''.'' then watchConfig env subject sv
          else if suff = trim_prefix alertSuffix ''.'' then watchState env subject sv
          else sv)"

end
