(* ===== verification/Alert_Service_Steps.thy ===== *)
theory Alert_Service_Steps
  imports Alert_Service
begin

text \<open>
  What the operations that evaluate, publish and acknowledge have in common: they leave the
  definitions and the wiring alone, keep the runtime states valid, only publish encodings of valid
  states, and every state they change is either the newest publication of its subject or marked
  dirty. The contract is the locale \<open>state_operation\<close>, interpreted on each of these operations.
\<close>

section \<open>The contract\<close>

definition states_valid :: "service \<Rightarrow> bool" where
  "states_valid sv \<longleftrightarrow> (\<forall>x st. map_of (sv_states sv) x = Some st \<longrightarrow> ok (validate_state st))"

definition message_ok :: "env \<Rightarrow> string \<times> string \<Rightarrow> bool" where
  "message_ok env m \<longleftrightarrow> (\<exists>st. ok (validate_state st) \<and> MarshalState (en_codec env) st = Inr (snd m))"

text \<open>The state of \<open>x\<close> is the newest message on \<open>x\<close>, or the service still owes it.\<close>

definition announced :: "env \<Rightarrow> service \<Rightarrow> string \<Rightarrow> bool" where
  "announced env sv x \<longleftrightarrow>
     x \<in> set (sv_dirty sv) \<or>
     (\<exists>st enc. map_of (sv_states sv) x = Some st \<and> MarshalState (en_codec env) st = Inr enc \<and>
        map_of (sv_outbox sv) x = Some enc)"

definition state_step :: "env \<Rightarrow> service \<Rightarrow> service \<Rightarrow> bool" where
  "state_step env sv sv' \<longleftrightarrow>
     static_part sv' = static_part sv \<and>
     (states_valid sv \<longrightarrow> states_valid sv') \<and>
     (\<exists>new. sv_outbox sv' = new @ sv_outbox sv \<and> (\<forall>m\<in>set new. message_ok env m)) \<and>
     (\<forall>x. map_of (sv_states sv) x \<noteq> None \<longrightarrow> map_of (sv_states sv') x \<noteq> None) \<and>
     (\<forall>x. announced env sv x \<or> map_of (sv_states sv') x \<noteq> map_of (sv_states sv) x \<longrightarrow>
          announced env sv' x)"

locale state_operation =
  fixes env :: env and op :: "service \<Rightarrow> service"
  assumes step: "state_step env sv (op sv)"
begin

lemma static: "static_part (op sv) = static_part sv"
  using step [of sv] by (simp add: state_step_def)

lemmas fields = static_fields [OF static]

lemma valid: "states_valid sv \<Longrightarrow> states_valid (op sv)"
  using step [of sv] by (simp add: state_step_def)

lemma only_valid_messages:
  "m \<in> set (sv_outbox (op sv)) \<Longrightarrow> m \<in> set (sv_outbox sv) \<or> message_ok env m"
  using step [of sv] by (auto simp: state_step_def)

lemma changes_announced:
  "map_of (sv_states (op sv)) x \<noteq> map_of (sv_states sv) x \<Longrightarrow> announced env (op sv) x"
  using step [of sv] unfolding state_step_def by blast

end

section \<open>Composition\<close>

lemma state_step_refl [simp]: "state_step env sv sv"
  by (simp add: state_step_def)

lemma state_step_trans:
  assumes "state_step env sv sv'" and "state_step env sv' sv''"
  shows "state_step env sv sv''"
proof -
  from assms obtain new new' where
    "sv_outbox sv' = new @ sv_outbox sv" "\<forall>m\<in>set new. message_ok env m"
    "sv_outbox sv'' = new' @ sv_outbox sv'" "\<forall>m\<in>set new'. message_ok env m"
    by (auto simp: state_step_def)
  then have "\<exists>new. sv_outbox sv'' = new @ sv_outbox sv \<and> (\<forall>m\<in>set new. message_ok env m)"
    by (intro exI [of _ "new' @ new"]) auto
  moreover have "announced env sv'' x"
    if "announced env sv x \<or> map_of (sv_states sv'') x \<noteq> map_of (sv_states sv) x" for x
    using assms that unfolding state_step_def by metis
  ultimately show ?thesis
    using assms by (simp add: state_step_def)
qed

lemma state_step_call [simp]: "state_step env sv (call sv)"
  by (simp add: state_step_def states_valid_def announced_def)

lemma state_step_call_trans: "state_step env (call sv) sv' \<Longrightarrow> state_step env sv sv'"
  by (rule state_step_trans [OF state_step_call])

section \<open>The operations\<close>

lemma message_ok_marshal:
  "MarshalState (en_codec env) st = Inr enc \<Longrightarrow> message_ok env (x, enc)"
  unfolding message_ok_def MarshalState_def
  by (auto simp: unit_case_Inr_iff intro!: exI [of _ st] split: sum.splits)

lemma MarshalState_valid: "MarshalState cd st = Inr enc \<Longrightarrow> ok (validate_state st)"
  by (simp add: MarshalState_def unit_case_Inr_iff)

lemma outbox_publish_state:
  "sv_outbox (publish_state env x enc sv) =
     (if en_publish env (sv_calls sv) x enc then (x, enc) # sv_outbox sv else sv_outbox sv)"
  by (simp add: publish_state_def)

lemma announced_publish_state:
  assumes "map_of (sv_states sv) x = Some st" and "MarshalState (en_codec env) st = Inr enc"
  shows "announced env (publish_state env x enc sv) x"
  using assms by (simp add: announced_def publish_state_def)

lemma announced_publish_other:
  assumes "y \<noteq> x"
  shows "announced env (publish_state env x enc sv) y = announced env sv y"
  using assms by (simp add: announced_def publish_state_def)

lemma state_step_storeAndPublish:
  "state_step env sv (storeAndPublishLocked env x st sv)"
proof (cases "MarshalState (en_codec env) st")
  case (Inl e)
  then show ?thesis by (simp add: storeAndPublishLocked_def)
next
  case (Inr enc)
  let ?sv = "sv\<lparr>sv_states := AList.update x st (sv_states sv)\<rparr>"
  let ?pub = "publish_state env x enc ?sv"
  have "announced env ?pub x"
    by (rule announced_publish_state [OF _ Inr]) (simp add: update_conv)
  moreover have "announced env ?pub y = announced env sv y" if "y \<noteq> x" for y
    unfolding announced_publish_other [OF that] using that by (simp add: announced_def update_conv')
  moreover have "\<exists>new. sv_outbox ?pub = new @ sv_outbox sv \<and> (\<forall>m\<in>set new. message_ok env m)"
    using message_ok_marshal [OF Inr]
    by (cases "en_publish env (sv_calls ?sv) x enc") (simp_all add: outbox_publish_state)
  ultimately have "state_step env sv ?pub"
    using MarshalState_valid [OF Inr]
    by (auto simp: state_step_def states_valid_def update_conv split: if_splits)
  with Inr show ?thesis by (simp add: storeAndPublishLocked_def)
qed

lemma state_step_republish: "state_step env sv (republishCanonicalLocked env x sv)"
proof (cases "map_of (sv_states sv) x")
  case None
  then show ?thesis by (simp add: republishCanonicalLocked_def)
next
  case (Some st)
  show ?thesis
  proof (cases "MarshalState (en_codec env) st")
    case (Inl e)
    with Some show ?thesis by (simp add: republishCanonicalLocked_def)
  next
    case (Inr enc)
    let ?pub = "publish_state env x enc sv"
    have "announced env ?pub y" if "announced env sv y" for y
      using that announced_publish_state [OF Some Inr] announced_publish_other
      by (cases "y = x") auto
    moreover have "\<exists>new. sv_outbox ?pub = new @ sv_outbox sv \<and> (\<forall>m\<in>set new. message_ok env m)"
      using message_ok_marshal [OF Inr]
      by (cases "en_publish env (sv_calls sv) x enc") (simp_all add: outbox_publish_state)
    ultimately have "state_step env sv ?pub"
      by (auto simp: state_step_def states_valid_def)
    with Inr Some show ?thesis by (simp add: republishCanonicalLocked_def)
  qed
qed

lemma state_step_apply: "state_step env sv (applyLocked env x ev sv)"
  by (auto simp: applyLocked_def split: sum.split
      intro: state_step_call_trans state_step_storeAndPublish)

lemma state_step_makeInactive: "state_step env sv (makeInactiveLocked env x sv)"
  by (simp add: makeInactiveLocked_def state_step_apply)

lemma state_step_evaluateDefinition: "state_step env sv (evaluateDefinitionLocked env x sv)"
  by (simp add: evaluateDefinitionLocked_def state_step_apply state_step_makeInactive
      split: option.split sum.split)

lemma state_step_ancestorsLoop: "state_step env sv (fst (ancestorsLoop env queue seen sv))"
proof (induction env queue seen sv rule: ancestorsLoop.induct)
  case (1 env seen sv)
  then show ?case by simp
next
  case (2 env subject queue seen sv)
  then show ?case
    by (auto simp: Let_def intro: state_step_trans state_step_evaluateDefinition)
qed

lemma state_step_ancestors: "state_step env sv (fst (evaluateAncestorsLocked env x seen sv))"
  by (simp add: evaluateAncestorsLocked_def state_step_ancestorsLoop)

lemma state_step_evaluateAncestors: "state_step env sv (evaluateAncestors env x sv)"
  by (simp add: evaluateAncestors_def state_step_ancestors)

lemma state_step_deactivate: "state_step env sv (deactivate env x sv)"
  unfolding deactivate_def
  by (rule state_step_trans [OF state_step_makeInactive state_step_evaluateAncestors])

lemma state_step_acknowledgeOne: "state_step env sv (acknowledgeOneLocked env x sv)"
  by (auto simp: acknowledgeOneLocked_def split: option.split sum.split
      intro: state_step_call_trans state_step_storeAndPublish)

lemma state_step_acknowledge:
  "state_step env sv (acknowledgeTreeLocked env x visiting sv)"
  "state_step env sv (acknowledgeMembers env ms visiting sv)"
proof (induction env x visiting sv and env ms visiting sv
    rule: acknowledgeTreeLocked_acknowledgeMembers.induct)
  case (1 env subject visiting sv)
  then show ?case
    by (auto intro: state_step_trans state_step_acknowledgeOne)
next
  case (2 env visiting sv)
  then show ?case by simp
next
  case (3 env member rest visiting sv)
  then show ?case
    by (auto intro: state_step_trans split: option.splits if_splits)
qed

lemma state_step_propertyLoop: "state_step env sv (propertyLoop env property order seen sv)"
proof (induction env property order seen sv rule: propertyLoop.induct)
  case (1 env property seen sv)
  then show ?case by simp
next
  case (2 env property subject rest seen sv)
  show ?case
  proof (cases "map_of (sv_definitions sv) subject")
    case None
    with 2 show ?thesis by simp
  next
    case (Some d)
    obtain sv' seen' where eq: "evaluateAncestorsLocked env (ad_output d) seen
        (evaluateDefinitionLocked env subject sv) = (sv', seen')"
      by (cases "evaluateAncestorsLocked env (ad_output d) seen (evaluateDefinitionLocked env subject sv)")
    have "state_step env sv sv'"
      using state_step_trans [OF state_step_evaluateDefinition state_step_ancestors] eq
      by (metis fst_conv)
    with 2 Some eq show ?thesis
      by (auto intro: state_step_trans)
  qed
qed

lemma state_step_summaryPass: "state_step env sv (fst (summaryPass env order changed sv))"
proof (induction env order changed sv rule: summaryPass.induct)
  case (1 env changed sv)
  then show ?case by simp
next
  case (2 env subject rest changed sv)
  show ?case
  proof (cases "\<exists>d. map_of (sv_definitions sv) subject = Some d \<and> is_summary d")
    case True
    then obtain d where d: "map_of (sv_definitions sv) subject = Some d" "is_summary d"
      by blast
    with "2.IH"(3) [OF d(1) _ refl] have "state_step env (evaluateDefinitionLocked env subject sv)
        (fst (summaryPass env (subject # rest) changed sv))"
      by (simp add: Let_def)
    then show ?thesis
      by (rule state_step_trans [OF state_step_evaluateDefinition])
  next
    case False
    with 2 show ?thesis by (auto split: option.split)
  qed
qed

lemma state_step_summaryPasses: "state_step env sv (summaryPasses env order n sv)"
proof (induction n arbitrary: sv)
  case 0
  then show ?case by simp
next
  case (Suc n)
  obtain sv' changed where eq: "summaryPass env (order n) False sv = (sv', changed)"
    by (cases "summaryPass env (order n) False sv")
  with state_step_summaryPass [of env sv "order n" False] have "state_step env sv sv'"
    by simp
  with Suc [of sv'] eq show ?case
    by (auto intro: state_step_trans)
qed

lemma state_step_allSummaries: "state_step env sv (evaluateAllSummariesLocked env order sv)"
  by (simp add: evaluateAllSummariesLocked_def state_step_summaryPasses del: summaryPasses.simps)

section \<open>Interpretations\<close>

interpretation apply_op: state_operation env "applyLocked env x ev" for env x ev
  by unfold_locales (rule state_step_apply)

interpretation inactive_op: state_operation env "makeInactiveLocked env x" for env x
  by unfold_locales (rule state_step_makeInactive)

interpretation republish_op: state_operation env "republishCanonicalLocked env x" for env x
  by unfold_locales (rule state_step_republish)

interpretation definition_op: state_operation env "evaluateDefinitionLocked env x" for env x
  by unfold_locales (rule state_step_evaluateDefinition)

interpretation ancestors_op: state_operation env "evaluateAncestors env x" for env x
  by unfold_locales (rule state_step_evaluateAncestors)

interpretation deactivate_op: state_operation env "deactivate env x" for env x
  by unfold_locales (rule state_step_deactivate)

interpretation acknowledge_op: state_operation env "acknowledgeOneLocked env x" for env x
  by unfold_locales (rule state_step_acknowledgeOne)

interpretation tree_op: state_operation env "acknowledgeTreeLocked env x visiting" for env x visiting
  by unfold_locales (rule state_step_acknowledge)

interpretation property_op: state_operation env "propertyLoop env property order seen"
  for env property order seen
  by unfold_locales (rule state_step_propertyLoop)

interpretation summaries_op: state_operation env "evaluateAllSummariesLocked env order"
  for env order
  by unfold_locales (rule state_step_allSummaries)

end
