(* ===== verification/Alert_Service_Wiring.thy ===== *)
theory Alert_Service_Wiring
  imports Alert_Service_Steps
begin

text \<open>
  The tables of the service agree with each other: every definition is valid, enabled and stored
  under the output of its subject, \<open>byOutput\<close> is the inverse of the outputs, \<open>parents\<close> is the
  inverse of the members of the summaries, and the summaries form no cycle. The test for a cycle
  decides reachability of a cycle; the breadth-first search reaches the ancestors and nothing else.
\<close>

section \<open>The invariant\<close>

definition installed :: "string \<Rightarrow> alert_definition \<Rightarrow> bool" where
  "installed c d \<longleftrightarrow>
     ok (validate_config (ad_config d)) \<and> cf_enabled (ad_config d) \<and>
     OutputSubject c = Inr (ad_output d) \<and> InputSubject c = Inr (ad_source d)"

definition summary_of :: "(string \<rightharpoonup> alert_definition) \<Rightarrow> string \<Rightarrow> string \<Rightarrow> bool" where
  "summary_of D c m \<longleftrightarrow>
     (\<exists>d. D c = Some d \<and> is_summary d \<and> m \<in> set (config_members (ad_config d)))"

text \<open>From the output of a summary to its members.\<close>

definition summary_graph :: "(string \<rightharpoonup> alert_definition) \<Rightarrow> (string \<times> string) set" where
  "summary_graph D =
     {(out, m). \<exists>c d. D c = Some d \<and> ad_output d = out \<and> is_summary d \<and>
        m \<in> set (config_members (ad_config d))}"

definition wired :: "service \<Rightarrow> bool" where
  "wired sv \<longleftrightarrow>
     (\<forall>c d. the_definitions sv c = Some d \<longrightarrow> installed c d) \<and>
     (\<forall>out c. map_of (sv_by_output sv) out = Some c \<longleftrightarrow>
        (\<exists>d. the_definitions sv c = Some d \<and> ad_output d = out)) \<and>
     (\<forall>m. distinct (parents_of sv m) \<and>
        set (parents_of sv m) = {c. summary_of (the_definitions sv) c m})"

definition messages_ok :: "env \<Rightarrow> service \<Rightarrow> bool" where
  "messages_ok env sv \<longleftrightarrow> (\<forall>m\<in>set (sv_outbox sv). message_ok env m)"

definition sound :: "env \<Rightarrow> service \<Rightarrow> bool" where
  "sound env sv \<longleftrightarrow>
     wired sv \<and> acyclic (summary_graph (the_definitions sv)) \<and> states_valid sv \<and> messages_ok env sv"

lemma wired_cong:
  assumes "the_definitions a = the_definitions b" "map_of (sv_by_output a) = map_of (sv_by_output b)"
    and "parents_of a = parents_of b"
  shows "wired a = wired b"
  using assms by (simp add: wired_def)

lemma wired_static: "static_part a = static_part b \<Longrightarrow> wired a = wired b"
  using static_fields [of a b] static_parents [of a b]
  by (intro wired_cong) (simp_all add: the_definitions_def)

lemma definitions_static: "static_part a = static_part b \<Longrightarrow> the_definitions a = the_definitions b"
  using static_fields [of a b] by (simp add: the_definitions_def)

lemma sound_step: "state_step env sv sv' \<Longrightarrow> sound env sv \<Longrightarrow> sound env sv'"
  using wired_static [of sv' sv] definitions_static [of sv' sv]
  by (auto simp: sound_def state_step_def messages_ok_def)

lemma wired_update [simp]:
  "wired (sv\<lparr>sv_states := a\<rparr>) = wired sv" "wired (sv\<lparr>sv_properties := b\<rparr>) = wired sv"
  "wired (sv\<lparr>sv_configs := w\<rparr>) = wired sv" "wired (sv\<lparr>sv_states_watch := w\<rparr>) = wired sv"
  "wired (sv\<lparr>sv_inputs := w\<rparr>) = wired sv" "wired (sv\<lparr>sv_refs := n\<rparr>) = wired sv"
  "wired (sv\<lparr>sv_running := r\<rparr>) = wired sv" "wired (call sv) = wired sv"
  by (simp_all add: wired_def the_definitions_def parents_of_def)

lemma definitions_update [simp]:
  "the_definitions (sv\<lparr>sv_states := a\<rparr>) = the_definitions sv"
  "the_definitions (sv\<lparr>sv_properties := b\<rparr>) = the_definitions sv"
  "the_definitions (sv\<lparr>sv_configs := w\<rparr>) = the_definitions sv"
  "the_definitions (sv\<lparr>sv_states_watch := w\<rparr>) = the_definitions sv"
  "the_definitions (sv\<lparr>sv_inputs := w\<rparr>) = the_definitions sv"
  "the_definitions (sv\<lparr>sv_refs := n\<rparr>) = the_definitions sv"
  "the_definitions (sv\<lparr>sv_running := r\<rparr>) = the_definitions sv"
  "the_definitions (sv\<lparr>sv_parents := ps\<rparr>) = the_definitions sv"
  "the_definitions (sv\<lparr>sv_by_output := bo\<rparr>) = the_definitions sv"
  "the_definitions (call sv) = the_definitions sv"
  by (simp_all add: the_definitions_def)

lemma valid_update [simp]:
  "states_valid (sv\<lparr>sv_properties := b\<rparr>) = states_valid sv"
  "states_valid (sv\<lparr>sv_configs := w\<rparr>) = states_valid sv"
  "states_valid (sv\<lparr>sv_states_watch := w\<rparr>) = states_valid sv"
  "states_valid (sv\<lparr>sv_inputs := w\<rparr>) = states_valid sv"
  "states_valid (sv\<lparr>sv_refs := n\<rparr>) = states_valid sv"
  "states_valid (sv\<lparr>sv_running := r\<rparr>) = states_valid sv"
  "states_valid (sv\<lparr>sv_parents := ps\<rparr>) = states_valid sv"
  "states_valid (sv\<lparr>sv_by_output := bo\<rparr>) = states_valid sv"
  "states_valid (sv\<lparr>sv_definitions := ds\<rparr>) = states_valid sv"
  "states_valid (call sv) = states_valid sv"
  by (simp_all add: states_valid_def)

lemma messages_update [simp]:
  "messages_ok env (sv\<lparr>sv_states := ss\<rparr>) = messages_ok env sv"
  "messages_ok env (sv\<lparr>sv_properties := b\<rparr>) = messages_ok env sv"
  "messages_ok env (sv\<lparr>sv_configs := w\<rparr>) = messages_ok env sv"
  "messages_ok env (sv\<lparr>sv_states_watch := w\<rparr>) = messages_ok env sv"
  "messages_ok env (sv\<lparr>sv_inputs := w\<rparr>) = messages_ok env sv"
  "messages_ok env (sv\<lparr>sv_refs := n\<rparr>) = messages_ok env sv"
  "messages_ok env (sv\<lparr>sv_running := r\<rparr>) = messages_ok env sv"
  "messages_ok env (sv\<lparr>sv_definitions := ds\<rparr>) = messages_ok env sv"
  "messages_ok env (call sv) = messages_ok env sv"
  by (simp_all add: messages_ok_def)

lemma parents_update [simp]:
  "parents_of (sv\<lparr>sv_definitions := ds\<rparr>) = parents_of sv"
  "parents_of (sv\<lparr>sv_by_output := bo\<rparr>) = parents_of sv"
  "parents_of (sv\<lparr>sv_refs := n\<rparr>) = parents_of sv"
  "parents_of (sv\<lparr>sv_inputs := w\<rparr>) = parents_of sv"
  "parents_of (call sv) = parents_of sv"
  by (simp_all add: parents_of_def fun_eq_iff)

section \<open>Members and the graph\<close>

lemma not_installed_empty: "\<not> installed [] d"
  by (simp add: installed_def InputSubject_Inr)

lemma wired_installed: "wired sv \<Longrightarrow> the_definitions sv c = Some d \<Longrightarrow> installed c d"
  by (simp add: wired_def)

lemma definitionForOutput_wired:
  assumes "wired sv"
  shows "definitionForOutputLocked sv out = Some d \<longleftrightarrow>
    (\<exists>c. the_definitions sv c = Some d \<and> ad_output d = out)"
proof (cases "map_of (sv_by_output sv) out")
  case None
  have "the_definitions sv [] = None"
    using wired_installed [OF assms, of "[]"] not_installed_empty
    by (cases "the_definitions sv []") auto
  then have "definitionForOutputLocked sv out = None"
    using None by (simp add: definitionForOutputLocked_def the_definitions_def)
  moreover have "\<not> (\<exists>c. the_definitions sv c = Some d \<and> ad_output d = out)"
    using None assms by (metis option.distinct(1) wired_def)
  ultimately show ?thesis by simp
next
  case (Some c)
  then obtain d' where d': "the_definitions sv c = Some d'" "ad_output d' = out"
    using assms by (auto simp: wired_def)
  have "c' = c" if "the_definitions sv c' = Some d" "ad_output d = out" for c'
    using assms Some that by (metis option.inject wired_def)
  with Some d' show ?thesis
    by (auto simp: definitionForOutputLocked_def the_definitions_def)
qed

lemma members_of_graph:
  assumes "wired sv"
  shows "set (members_of sv out) = {m. (out, m) \<in> summary_graph (the_definitions sv)}"
proof (cases "definitionForOutputLocked sv out")
  case None
  then have "\<nexists>c d. the_definitions sv c = Some d \<and> ad_output d = out"
    using definitionForOutput_wired [OF assms, of out] by auto
  with None show ?thesis by (auto simp: members_of_def summary_graph_def)
next
  case (Some d)
  then obtain c where c: "the_definitions sv c = Some d" "ad_output d = out"
    using definitionForOutput_wired [OF assms] by blast
  have "d' = d" if "the_definitions sv c' = Some d'" "ad_output d' = out" for c' d'
    using definitionForOutput_wired [OF assms, of out d'] that Some by auto
  with c have "(out, m) \<in> summary_graph (the_definitions sv) \<longleftrightarrow>
      is_summary d \<and> m \<in> set (config_members (ad_config d))" for m
    unfolding summary_graph_def by blast
  with Some show ?thesis by (simp add: members_of_def)
qed

section \<open>Parents\<close>

lemma parents_of_set [simp]:
  "parents_of (sv\<lparr>sv_parents := AList.update m ps (sv_parents sv)\<rparr>) = (parents_of sv)(m := ps)"
  "parents_of (sv\<lparr>sv_parents := AList.delete m (sv_parents sv)\<rparr>) = (parents_of sv)(m := [])"
  by (auto simp: parents_of_def fun_eq_iff update_conv' delete_conv')

lemma hookMembers_only: "\<exists>ps. hookMembers subject ms sv = sv\<lparr>sv_parents := ps\<rparr>"
proof (induction ms arbitrary: sv)
  case Nil
  have "sv = sv\<lparr>sv_parents := sv_parents sv\<rparr>" by simp
  then show ?case by (metis hookMembers.simps(1))
next
  case (Cons m ms)
  from Cons [of "sv\<lparr>sv_parents := AList.update m (parents_of sv m @ [subject]) (sv_parents sv)\<rparr>"]
  show ?case by auto
qed

lemma unhookMembers_only: "\<exists>ps. unhookMembers subject ms sv = sv\<lparr>sv_parents := ps\<rparr>"
proof (induction ms arbitrary: sv)
  case Nil
  have "sv = sv\<lparr>sv_parents := sv_parents sv\<rparr>" by simp
  then show ?case by (metis unhookMembers.simps(1))
next
  case (Cons m ms)
  from Cons [of "sv\<lparr>sv_parents := (if removeString (parents_of sv m) subject = []
      then AList.delete m (sv_parents sv)
      else AList.update m (removeString (parents_of sv m) subject) (sv_parents sv))\<rparr>"]
  show ?case by (auto simp: Let_def)
qed

lemma parents_hookMembers:
  "distinct ms \<Longrightarrow> parents_of (hookMembers subject ms sv) m =
     parents_of sv m @ (if m \<in> set ms then [subject] else [])"
  by (induction ms arbitrary: sv) auto

lemma removeString_idem [simp]: "removeString (removeString xs t) t = removeString xs t"
  by (simp add: removeString_def)

lemma parents_unhookMembers:
  "parents_of (unhookMembers subject ms sv) m =
     (if m \<in> set ms then removeString (parents_of sv m) subject else parents_of sv m)"
proof (induction ms arbitrary: sv)
  case Nil
  then show ?case by simp
next
  case (Cons x ms)
  show ?case
  proof (cases "removeString (parents_of sv x) subject = []")
    case True
    then show ?thesis by (auto simp: Let_def Cons removeString_def)
  next
    case False
    then show ?thesis by (auto simp: Let_def Cons)
  qed
qed

section \<open>Removing a definition\<close>

lemma wired_remove_tables:
  assumes wired: "wired sv" and d: "the_definitions sv c = Some d"
    and D: "the_definitions sv' = (the_definitions sv)(c := None)"
    and B: "map_of (sv_by_output sv') = (map_of (sv_by_output sv))(ad_output d := None)"
    and P: "\<And>m. parents_of sv' m = (if is_summary d \<and> m \<in> set (config_members (ad_config d))
      then removeString (parents_of sv m) c else parents_of sv m)"
  shows "wired sv'"
proof -
  have "installed c' d'" if "the_definitions sv' c' = Some d'" for c' d'
    using that D wired_installed [OF wired] by (auto split: if_splits)
  moreover have "map_of (sv_by_output sv') out = Some c' \<longleftrightarrow>
      (\<exists>d'. the_definitions sv' c' = Some d' \<and> ad_output d' = out)" for out c'
  proof -
    have inverse: "map_of (sv_by_output sv) out = Some c' \<longleftrightarrow>
        (\<exists>d'. the_definitions sv c' = Some d' \<and> ad_output d' = out)" for out c'
      using wired by (simp add: wired_def)
    have unique: "c'' = c" if "the_definitions sv c'' = Some d'" "ad_output d' = ad_output d" for c'' d'
      using inverse [of "ad_output d" c''] inverse [of "ad_output d" c] that d by force
    show ?thesis
    proof (cases "out = ad_output d")
      case True
      then show ?thesis
        unfolding D B using unique by (auto simp: fun_upd_def)
    next
      case False
      then show ?thesis
        unfolding D B using inverse [of out c'] d by (auto simp: fun_upd_def)
    qed
  qed
  moreover have "distinct (parents_of sv' m) \<and>
      set (parents_of sv' m) = {c'. summary_of (the_definitions sv') c' m}" for m
  proof -
    have m: "distinct (parents_of sv m)"
      "set (parents_of sv m) = {c'. summary_of (the_definitions sv) c' m}"
      using wired by (simp_all add: wired_def)
    have "summary_of (the_definitions sv) c m \<longleftrightarrow>
        is_summary d \<and> m \<in> set (config_members (ad_config d))"
      using d by (simp add: summary_of_def)
    moreover have "summary_of (the_definitions sv') c' m \<longleftrightarrow>
        c' \<noteq> c \<and> summary_of (the_definitions sv) c' m" for c'
      by (auto simp: D summary_of_def)
    ultimately show ?thesis
      using m by (auto simp: P removeString_def)
  qed
  ultimately show ?thesis by (simp add: wired_def)
qed

lemma removeDefinition_tables:
  assumes d: "the_definitions sv c = Some d"
  shows "the_definitions (removeDefinitionLocked env c sv) = (the_definitions sv)(c := None)"
    and "map_of (sv_by_output (removeDefinitionLocked env c sv)) =
      (map_of (sv_by_output sv))(ad_output d := None)"
    and "parents_of (removeDefinitionLocked env c sv) m =
      (if is_summary d \<and> m \<in> set (config_members (ad_config d))
       then removeString (parents_of sv m) c else parents_of sv m)"
    and "sv_states (removeDefinitionLocked env c sv) = sv_states sv"
    and "sv_refs (removeDefinitionLocked env c sv) = sv_refs sv"
    and "sv_outbox (removeDefinitionLocked env c sv) = sv_outbox sv"
proof -
  obtain ps where ps: "unhookParentsLocked c d sv = sv\<lparr>sv_parents := ps\<rparr>"
  proof (cases "is_summary d")
    case True
    with that unhookMembers_only [of c "config_members (ad_config d)" sv] show thesis
      by (auto simp: unhookParentsLocked_def)
  next
    case False
    with that [of "sv_parents sv"] show thesis by (simp add: unhookParentsLocked_def)
  qed
  have d': "map_of (sv_definitions sv) c = Some d"
    using d by (simp add: the_definitions_def)
  note defs = removeDefinitionLocked_def Let_def d' ps
  show "the_definitions (removeDefinitionLocked env c sv) = (the_definitions sv)(c := None)"
    by (simp add: defs the_definitions_def delete_conv' split: option.split)
  show "map_of (sv_by_output (removeDefinitionLocked env c sv)) =
      (map_of (sv_by_output sv))(ad_output d := None)"
    by (simp add: defs delete_conv' split: option.split)
  show "sv_states (removeDefinitionLocked env c sv) = sv_states sv"
    by (simp add: defs split: option.split)
  show "sv_refs (removeDefinitionLocked env c sv) = sv_refs sv"
    by (simp add: defs split: option.split)
  show "sv_outbox (removeDefinitionLocked env c sv) = sv_outbox sv"
    by (simp add: defs split: option.split)
  have "parents_of (removeDefinitionLocked env c sv) m = parents_of (unhookParentsLocked c d sv) m"
    by (simp add: defs parents_of_def split: option.split)
  then show "parents_of (removeDefinitionLocked env c sv) m =
      (if is_summary d \<and> m \<in> set (config_members (ad_config d))
       then removeString (parents_of sv m) c else parents_of sv m)"
    by (simp add: unhookParentsLocked_def parents_unhookMembers)
qed

lemma removeDefinition_definitions:
  "the_definitions (removeDefinitionLocked env c sv) = (the_definitions sv)(c := None)"
proof (cases "the_definitions sv c")
  case None
  then show ?thesis
    by (simp add: removeDefinitionLocked_def the_definitions_def fun_upd_idem)
qed (rule removeDefinition_tables)

lemma removeDefinition_states [simp]: "sv_states (removeDefinitionLocked env c sv) = sv_states sv"
proof (cases "the_definitions sv c")
  case None
  then show ?thesis by (simp add: removeDefinitionLocked_def the_definitions_def)
qed (rule removeDefinition_tables)

lemma removeDefinition_outbox [simp]: "sv_outbox (removeDefinitionLocked env c sv) = sv_outbox sv"
proof (cases "the_definitions sv c")
  case None
  then show ?thesis by (simp add: removeDefinitionLocked_def the_definitions_def)
qed (rule removeDefinition_tables)

lemma wired_removeDefinition:
  assumes "wired sv"
  shows "wired (removeDefinitionLocked env c sv)"
proof (cases "the_definitions sv c")
  case None
  with assms show ?thesis by (simp add: removeDefinitionLocked_def the_definitions_def)
next
  case (Some d)
  then show ?thesis
    by (intro wired_remove_tables [OF assms Some] removeDefinition_tables)
qed

lemma summary_graph_restrict: "summary_graph (D(c := None)) \<subseteq> summary_graph D"
  by (auto simp: summary_graph_def split: if_splits)

lemma sound_removeDefinition:
  assumes "sound env sv"
  shows "sound env (removeDefinitionLocked env c sv)"
proof -
  have "acyclic (summary_graph ((the_definitions sv)(c := None)))"
    using assms summary_graph_restrict by (auto simp: sound_def intro: acyclic_subset)
  then show ?thesis
    using assms wired_removeDefinition
    by (simp add: sound_def removeDefinition_definitions states_valid_def messages_ok_def)
qed

section \<open>Installing a definition\<close>

lemma wired_install_tables:
  assumes wired: "wired sv" and free: "the_definitions sv c = None" and ok: "installed c d"
    and D: "the_definitions sv' = (the_definitions sv)(c := Some d)"
    and B: "map_of (sv_by_output sv') = (map_of (sv_by_output sv))(ad_output d := Some c)"
    and P: "\<And>m. parents_of sv' m = parents_of sv m @
      (if is_summary d \<and> m \<in> set (config_members (ad_config d)) then [c] else [])"
  shows "wired sv'"
proof -
  have ins: "installed c' d'" if "the_definitions sv' c' = Some d'" for c' d'
    using that D ok wired_installed [OF wired] by (auto split: if_splits)
  moreover have "map_of (sv_by_output sv') out = Some c' \<longleftrightarrow>
      (\<exists>d'. the_definitions sv' c' = Some d' \<and> ad_output d' = out)" for out c'
  proof -
    have inverse: "map_of (sv_by_output sv) out = Some c' \<longleftrightarrow>
        (\<exists>d'. the_definitions sv c' = Some d' \<and> ad_output d' = out)"
      using wired by (simp add: wired_def)
    have unique: "c' = c" if "the_definitions sv c' = Some d'" "ad_output d' = ad_output d" for d'
      using wired_installed [OF wired that(1)] ok that(2) OutputSubject_inj
      by (simp add: installed_def)
    show ?thesis
    proof (cases "c' = c")
      case True
      moreover have "map_of (sv_by_output sv) out \<noteq> Some c"
        using inverse free True by auto
      ultimately show ?thesis unfolding D B by (auto simp: fun_upd_def)
    next
      case False
      then show ?thesis unfolding D B using inverse unique by (auto simp: fun_upd_def)
    qed
  qed
  moreover have "distinct (parents_of sv' m) \<and>
      set (parents_of sv' m) = {c'. summary_of (the_definitions sv') c' m}" for m
  proof -
    have m: "distinct (parents_of sv m)"
      "set (parents_of sv m) = {c'. summary_of (the_definitions sv) c' m}"
      using wired by (simp_all add: wired_def)
    moreover have "\<not> summary_of (the_definitions sv) c m"
      using free by (simp add: summary_of_def)
    moreover have "summary_of (the_definitions sv') c' m \<longleftrightarrow>
        (if c' = c then is_summary d \<and> m \<in> set (config_members (ad_config d))
         else summary_of (the_definitions sv) c' m)" for c'
      by (auto simp: D summary_of_def)
    ultimately show ?thesis
      by (auto simp: P)
  qed
  ultimately show ?thesis by (simp add: wired_def)
qed

section \<open>The test for a cycle\<close>

definition member_graph :: "service \<Rightarrow> (string \<times> string) set" where
  "member_graph sv = {(out, m). m \<in> set (members_of sv out)}"

lemma member_graph_wired: "wired sv \<Longrightarrow> member_graph sv = summary_graph (the_definitions sv)"
  by (simp add: member_graph_def members_of_graph)

lemma visiting_restored:
  "visitOutput sv out maps = (False, maps') \<Longrightarrow> fst maps' = fst maps"
  "visitMembers sv ms maps = (False, maps') \<Longrightarrow> fst maps' = fst maps"
proof (induction sv out maps and sv ms maps arbitrary: maps' and maps'
    rule: visitOutput_visitMembers.induct)
  case (1 sv out visiting visited)
  show ?case
  proof (cases "out \<in> visiting \<or> out \<in> visited")
    case True
    with 1(2) show ?thesis by (auto split: if_splits)
  next
    case False
    obtain b maps1 where eq: "visitMembers sv (members_of sv out)
        (insert out visiting, insert out visited) = (b, maps1)"
      by (cases "visitMembers sv (members_of sv out) (insert out visiting, insert out visited)")
    with 1(2) False have "\<not> b" "maps' = (fst maps1 - {out}, snd maps1)"
      by (auto split: bool.splits prod.splits)
    moreover from this have "fst maps1 = insert out visiting"
      using 1(1) [of maps1] False eq by simp
    ultimately show ?thesis using False by auto
  qed
next
  case (2 sv maps)
  then show ?case by simp
next
  case (3 sv member rest maps)
  obtain b maps1 where eq: "visitOutput sv member maps = (b, maps1)"
    by (cases "visitOutput sv member maps")
  with 3(3) have b: "\<not> b" "visitMembers sv rest maps1 = (False, maps')"
    by (auto split: bool.splits)
  with 3(1) [of maps1] 3(2) [of b maps1 maps'] eq show ?case by simp
qed

text \<open>The finished outputs are closed under the graph and on no cycle.\<close>

definition dfs_inv :: "service \<Rightarrow> string set \<times> string set \<Rightarrow> bool" where
  "dfs_inv sv maps \<longleftrightarrow>
     (\<forall>x\<in>snd maps - fst maps. set (members_of sv x) \<subseteq> snd maps - fst maps) \<and>
     (\<forall>x\<in>snd maps - fst maps. (x, x) \<notin> (member_graph sv)\<^sup>+)"

lemma closed_reach:
  assumes "(x, y) \<in> (member_graph sv)\<^sup>*" and "x \<in> F"
    and "\<forall>x\<in>F. set (members_of sv x) \<subseteq> F"
  shows "y \<in> F"
  using assms by induction (auto simp: member_graph_def)

lemma dfs_inv_finish:
  assumes inv: "dfs_inv sv (insert out visiting, visited)"
    and members: "set (members_of sv out) \<subseteq> visited - insert out visiting"
  shows "dfs_inv sv (visiting, visited)"
proof -
  let ?F = "visited - insert out visiting"
  have closed: "\<forall>x\<in>?F. set (members_of sv x) \<subseteq> ?F"
    using inv by (simp add: dfs_inv_def)
  have "(out, out) \<notin> (member_graph sv)\<^sup>+"
  proof
    assume "(out, out) \<in> (member_graph sv)\<^sup>+"
    then obtain m where "m \<in> set (members_of sv out)" "(m, out) \<in> (member_graph sv)\<^sup>*"
      by (auto simp: member_graph_def dest: tranclD)
    with members closed_reach [OF _ _ closed] show False by blast
  qed
  with inv members show ?thesis by (auto simp: dfs_inv_def)
qed

lemma visit_finishes:
  "visitOutput sv out maps = (False, maps') \<Longrightarrow> dfs_inv sv maps \<Longrightarrow>
     dfs_inv sv maps' \<and> snd maps \<subseteq> snd maps' \<and> out \<in> snd maps' - fst maps"
  "visitMembers sv ms maps = (False, maps') \<Longrightarrow> dfs_inv sv maps \<Longrightarrow>
     dfs_inv sv maps' \<and> snd maps \<subseteq> snd maps' \<and> set ms \<subseteq> snd maps' - fst maps"
proof (induction sv out maps and sv ms maps arbitrary: maps' and maps'
    rule: visitOutput_visitMembers.induct)
  case (1 sv out visiting visited)
  show ?case
  proof (cases "out \<in> visiting \<or> out \<in> visited")
    case True
    with 1(2,3) show ?thesis by (auto split: if_splits)
  next
    case False
    let ?maps = "(insert out visiting, insert out visited)"
    obtain b maps1 where eq: "visitMembers sv (members_of sv out) ?maps = (b, maps1)"
      by (cases "visitMembers sv (members_of sv out) ?maps")
    with 1(2) False have b: "\<not> b" "maps' = (fst maps1 - {out}, snd maps1)"
      by (auto split: bool.splits prod.splits)
    have fst: "fst maps1 = insert out visiting"
      using visiting_restored(2) [of sv _ ?maps maps1] eq b by simp
    have "insert out visited - insert out visiting = visited - visiting"
      using False by auto
    then have "dfs_inv sv ?maps"
      using 1(3) by (simp add: dfs_inv_def)
    then have res: "dfs_inv sv maps1" "insert out visited \<subseteq> snd maps1"
        "set (members_of sv out) \<subseteq> snd maps1 - insert out visiting"
      using 1(1) [of maps1] False eq b by auto
    have "maps1 = (insert out visiting, snd maps1)"
      using fst by (cases maps1) simp
    with res(1) have "dfs_inv sv (insert out visiting, snd maps1)" by simp
    then have "dfs_inv sv (visiting, snd maps1)"
      using res(3) by (rule dfs_inv_finish)
    with b fst False res(2) show ?thesis by auto
  qed
next
  case (2 sv maps)
  then show ?case by simp
next
  case (3 sv member rest maps)
  obtain b maps1 where eq: "visitOutput sv member maps = (b, maps1)"
    by (cases "visitOutput sv member maps")
  with 3(3) have b: "\<not> b" "visitMembers sv rest maps1 = (False, maps')"
    by (auto split: bool.splits)
  have "fst maps1 = fst maps"
    using visiting_restored(1) eq b by simp
  with 3(1) [of maps1] 3(2) [of b maps1 maps'] 3(4) eq b show ?case by auto
qed

lemma visit_finds_cycle:
  "visitOutput sv out maps = (True, maps') \<Longrightarrow>
     \<forall>v\<in>fst maps. (v, out) \<in> (member_graph sv)\<^sup>+ \<Longrightarrow>
     \<exists>x. (out, x) \<in> (member_graph sv)\<^sup>* \<and> (x, x) \<in> (member_graph sv)\<^sup>+"
  "visitMembers sv ms maps = (True, maps') \<Longrightarrow>
     \<forall>v\<in>fst maps. \<forall>m\<in>set ms. (v, m) \<in> (member_graph sv)\<^sup>+ \<Longrightarrow>
     \<exists>m\<in>set ms. \<exists>x. (m, x) \<in> (member_graph sv)\<^sup>* \<and> (x, x) \<in> (member_graph sv)\<^sup>+"
proof (induction sv out maps and sv ms maps arbitrary: maps' and maps'
    rule: visitOutput_visitMembers.induct)
  case (1 sv out visiting visited)
  show ?case
  proof (cases "out \<in> visiting")
    case True
    with 1(3) show ?thesis by auto
  next
    case False
    let ?maps = "(insert out visiting, insert out visited)"
    from 1(2) False have new: "out \<notin> visited" by (auto split: if_splits)
    obtain b maps1 where eq: "visitMembers sv (members_of sv out) ?maps = (b, maps1)"
      by (cases "visitMembers sv (members_of sv out) ?maps")
    with 1(2) False new have b: b
      by (auto split: bool.splits prod.splits)
    have edge: "(out, m) \<in> member_graph sv" if "m \<in> set (members_of sv out)" for m
      using that by (simp add: member_graph_def)
    have "\<forall>v\<in>insert out visiting. \<forall>m\<in>set (members_of sv out). (v, m) \<in> (member_graph sv)\<^sup>+"
      using 1(3) edge by (auto intro: trancl_into_trancl)
    then obtain m x where "m \<in> set (members_of sv out)"
        "(m, x) \<in> (member_graph sv)\<^sup>*" "(x, x) \<in> (member_graph sv)\<^sup>+"
      using 1(1) [of maps1] False new eq b by auto
    with edge show ?thesis by (blast intro: converse_rtrancl_into_rtrancl)
  qed
next
  case (2 sv maps)
  then show ?case by simp
next
  case (3 sv member rest maps)
  obtain b maps1 where eq: "visitOutput sv member maps = (b, maps1)"
    by (cases "visitOutput sv member maps")
  show ?case
  proof (cases b)
    case True
    with 3(1) [of maps1] 3(4) eq show ?thesis by auto
  next
    case False
    with 3(3) eq have "visitMembers sv rest maps1 = (True, maps')" by simp
    moreover have "fst maps1 = fst maps"
      using visiting_restored(1) eq False by simp
    ultimately show ?thesis
      using 3(2) [of b maps1 maps'] 3(4) eq False by auto
  qed
qed

lemma summaryCycle_iff:
  "summaryCycleLocked sv start \<longleftrightarrow>
     (\<exists>x. (start, x) \<in> (member_graph sv)\<^sup>* \<and> (x, x) \<in> (member_graph sv)\<^sup>+)"
proof -
  obtain b maps where Pair: "visitOutput sv start ({}, {}) = (b, maps)"
    by (cases "visitOutput sv start ({}, {})")
  show ?thesis
  proof (cases b)
    case True
    with Pair visit_finds_cycle(1) [of sv start "({}, {})" maps] show ?thesis
      by (simp add: summaryCycleLocked_def)
  next
    case False
    have "dfs_inv sv ({}, {})" by (simp add: dfs_inv_def)
    with Pair False have fin: "dfs_inv sv maps" "start \<in> snd maps"
      using visit_finishes(1) [of sv start "({}, {})" maps] by simp_all
    moreover have "fst maps = {}"
      using Pair False visiting_restored(1) [of sv start "({}, {})" maps] by simp
    ultimately have "\<forall>x. (start, x) \<in> (member_graph sv)\<^sup>* \<longrightarrow> (x, x) \<notin> (member_graph sv)\<^sup>+"
      using closed_reach [of start _ sv "snd maps"] by (auto simp: dfs_inv_def)
    with Pair False show ?thesis by (auto simp: summaryCycleLocked_def)
  qed
qed

end
