(* ===== verification/Alert_Service_Inv.thy ===== *)
theory Alert_Service_Inv
  imports Alert_Service_Wiring
begin

text \<open>
  Every handler of the service, and \<open>Run\<close> itself, keeps the tables sound. The service after any
  sequence of events is therefore sound, whatever the bus, the clock and the order of the loops over
  Go maps do.
\<close>

section \<open>Inputs and watches\<close>

lemma watchState_fields [simp]:
  "the_definitions (watchState env x sv) = the_definitions sv"
  "sv_by_output (watchState env x sv) = sv_by_output sv"
  "sv_states (watchState env x sv) = sv_states sv"
  "sv_outbox (watchState env x sv) = sv_outbox sv"
  "sv_inputs (watchState env x sv) = sv_inputs sv"
  "parents_of (watchState env x sv) = parents_of sv"
  by (simp_all add: watchState_def parents_of_def fun_eq_iff the_definitions_def split: option.split)

lemma sound_fields:
  assumes "the_definitions a = the_definitions b" "map_of (sv_by_output a) = map_of (sv_by_output b)"
    and "parents_of a = parents_of b" "sv_states a = sv_states b" "sv_outbox a = sv_outbox b"
  shows "sound env a = sound env b"
  using wired_cong [OF assms(1-3)] assms by (simp add: sound_def states_valid_def messages_ok_def)

lemma sound_watchState [simp]: "sound env (watchState env x sv) = sound env sv"
  by (rule sound_fields) simp_all

lemma sound_call [simp]: "sound env (call sv) = sound env sv"
  by (simp add: sound_def)

lemma sound_inputs [simp]: "sound env (sv\<lparr>sv_inputs := w\<rparr>) = sound env sv"
  by (simp add: sound_def)

lemma sound_properties [simp]: "sound env (sv\<lparr>sv_properties := ps\<rparr>) = sound env sv"
  by (simp add: sound_def)

lemma sound_configs [simp]: "sound env (sv\<lparr>sv_configs := w\<rparr>) = sound env sv"
  by (simp add: sound_def)

lemma sound_add_state:
  assumes "sound env sv" and "ok (validate_state st)"
  shows "sound env (sv\<lparr>sv_states := AList.update x st (sv_states sv)\<rparr>)"
  using assms by (auto simp: sound_def states_valid_def update_conv' split: if_splits)

lemma ParseState_valid: "ParseState cd raw = Inr st \<Longrightarrow> ok (validate_state st)"
  by (auto simp: ParseState_def case_Inr_iff ok_def split: sum.splits)

lemma sound_catchUpState: "sound env sv \<Longrightarrow> sound env (catchUpStateLocked env x sv)"
  by (auto simp: catchUpStateLocked_def split: option.split sum.split
      intro!: sound_add_state [of _ "call sv", simplified] ParseState_valid)

lemma sound_catchUpMembers: "sound env sv \<Longrightarrow> sound env (catchUpMembers env ms sv)"
  by (induction ms arbitrary: sv) (simp_all add: sound_catchUpState)

lemma sound_input:
  assumes "sound env sv" and d: "the_definitions sv c = Some d"
  shows "sound env (sv\<lparr>sv_definitions := AList.update c (d\<lparr>ad_input := v\<rparr>) (sv_definitions sv)\<rparr>)"
    (is "sound env ?sv")
proof -
  have D: "the_definitions ?sv = (the_definitions sv)(c := Some (d\<lparr>ad_input := v\<rparr>))"
    by (simp add: the_definitions_def update_conv')
  have "installed c d"
    using assms by (auto simp: sound_def intro: wired_installed)
  then have "installed c (d\<lparr>ad_input := v\<rparr>)"
    by (simp add: installed_def)
  moreover have "summary_of (the_definitions ?sv) = summary_of (the_definitions sv)"
    using d by (simp add: D summary_of_def is_summary_def fun_eq_iff)
  moreover have "(\<exists>d'. the_definitions ?sv c' = Some d' \<and> ad_output d' = out) \<longleftrightarrow>
      (\<exists>d'. the_definitions sv c' = Some d' \<and> ad_output d' = out)" for c' out
    using d by (simp add: D)
  ultimately have "wired ?sv"
    using assms(1) by (simp add: sound_def wired_def) (simp add: D)
  moreover have "summary_graph (the_definitions ?sv) \<subseteq> summary_graph (the_definitions sv)"
    using d by (auto simp: D summary_graph_def is_summary_def split: if_splits)
  ultimately show ?thesis
    using assms(1) by (auto simp: sound_def intro: acyclic_subset)
qed

lemma sound_evaluate:
  "sound env sv \<Longrightarrow> sound env (evaluateAncestors env x (evaluateDefinitionLocked env c sv))"
  by (blast intro: sound_step state_step_evaluateAncestors state_step_evaluateDefinition)

lemma sound_acceptInput:
  assumes "sound env sv"
  shows "sound env (acceptInputLocked env c expected v sv)"
proof (cases "the_definitions sv c")
  case None
  with assms show ?thesis by (simp add: acceptInputLocked_def the_definitions_def)
next
  case (Some d)
  show ?thesis
    using assms Some sound_input [OF assms Some]
    by (auto simp: acceptInputLocked_def the_definitions_def intro!: sound_evaluate)
qed

section \<open>Configurations\<close>

lemma parseConfigFor_valid:
  "parseConfigFor cd subject raw = Inr c \<Longrightarrow> ok (validate_config c)"
  by (auto simp: parseConfigFor_def ParseConfig_def ValidateForSubject_def case_Inr_iff ok_def
      split: sum.splits option.splits)

lemma summary_members_distinct:
  assumes "ok (validate_config c)" and "cf_type c = TypeSummary"
  shows "distinct (config_members c)"
  using assms by (auto simp: validate_config_ok config_members_def validate_summary_ok)

lemma acyclic_add_successors:
  assumes "acyclic r" and "A \<subseteq> {out} \<times> UNIV"
    and "\<nexists>x. (out, x) \<in> (r \<union> A)\<^sup>* \<and> (x, x) \<in> (r \<union> A)\<^sup>+"
  shows "acyclic (r \<union> A)"
proof -
  have split: "(x, y) \<in> r\<^sup>+ \<or> (out, y) \<in> (r \<union> A)\<^sup>*" if "(x, y) \<in> (r \<union> A)\<^sup>+" for x y
    using that
  proof induction
    case (base y)
    then show ?case using assms(2) by auto
  next
    case (step y z)
    then show ?case using assms(2) by (auto intro: rtrancl_into_rtrancl trancl_into_trancl)
  qed
  show ?thesis
    using assms(1,3) split by (auto simp: acyclic_def)
qed

lemma installDefinition_fields:
  "the_definitions (installDefinition env c d sv) = (the_definitions sv)(c := Some d)"
  "map_of (sv_by_output (installDefinition env c d sv)) =
     (map_of (sv_by_output sv))(ad_output d := Some c)"
  "parents_of (installDefinition env c d sv) = parents_of sv"
  "sv_states (installDefinition env c d sv) = sv_states sv"
  "sv_outbox (installDefinition env c d sv) = sv_outbox sv"
  by (simp_all add: installDefinition_def update_conv' the_definitions_def flip: the_definitions_def)
    (simp_all add: the_definitions_def update_conv' parents_of_def fun_eq_iff)

lemma hookParents_fields:
  "the_definitions (hookParentsLocked c d sv) = the_definitions sv"
  "sv_by_output (hookParentsLocked c d sv) = sv_by_output sv"
  "sv_states (hookParentsLocked c d sv) = sv_states sv"
  "sv_outbox (hookParentsLocked c d sv) = sv_outbox sv"
  using hookMembers_only [of c "config_members (ad_config d)" sv]
  by (auto simp: hookParentsLocked_def)

lemma parents_hookParents:
  assumes "is_summary d \<longrightarrow> distinct (config_members (ad_config d))"
  shows "parents_of (hookParentsLocked c d sv) m = parents_of sv m @
    (if is_summary d \<and> m \<in> set (config_members (ad_config d)) then [c] else [])"
  using assms by (simp add: hookParentsLocked_def parents_hookMembers)

lemma wired_installed_definition:
  assumes "wired sv" and "the_definitions sv c = None" and "installed c d" and "\<not> is_summary d"
  shows "wired (installDefinition env c d sv)"
  by (rule wired_install_tables [OF assms(1-3)]) (simp_all add: installDefinition_fields assms(4))

lemma wired_installed_summary:
  assumes "wired sv" and "the_definitions sv c = None" and "installed c d" and "is_summary d"
  shows "wired (hookParentsLocked c d (installDefinition env c d sv))"
proof -
  have "distinct (config_members (ad_config d))"
    using assms(3,4) summary_members_distinct by (auto simp: installed_def is_summary_def)
  then show ?thesis
    by (intro wired_install_tables [OF assms(1-3)])
      (simp_all add: installDefinition_fields hookParents_fields parents_hookParents)
qed

lemma ex_fresh_upd:
  assumes "D c = None"
  shows "(\<exists>x y. (D(c := Some d)) x = Some y \<and> P y) \<longleftrightarrow> P d \<or> (\<exists>x y. D x = Some y \<and> P y)"
    (is "?l \<longleftrightarrow> ?r")
proof
  assume ?l
  then show ?r by (auto split: if_splits)
next
  assume ?r
  then show ?l
  proof
    assume "P d"
    then show ?l by (intro exI [of _ c] exI [of _ d]) simp
  next
    assume "\<exists>x y. D x = Some y \<and> P y"
    then obtain x y where "D x = Some y" "P y" by blast
    with assms show ?l by (intro exI [of _ x] exI [of _ y]) auto
  qed
qed

lemma summary_graph_add:
  assumes "D c = None"
  shows "summary_graph (D(c := Some d)) =
    summary_graph D \<union> (if is_summary d then {ad_output d} \<times> set (config_members (ad_config d)) else {})"
  unfolding summary_graph_def ex_fresh_upd [of D c d, OF assms] by auto

lemma sound_install:
  assumes "sound env sv" and "the_definitions sv c = None" and "installed c d" and "\<not> is_summary d"
  shows "sound env (installDefinition env c d sv)"
  using assms wired_installed_definition
  by (simp add: sound_def installDefinition_fields summary_graph_add states_valid_def messages_ok_def)

lemma sound_install_summary:
  assumes "sound env sv" and "the_definitions sv c = None" and "installed c d" and "is_summary d"
    and no_cycle: "\<not> summaryCycleLocked (hookParentsLocked c d (installDefinition env c d sv)) (ad_output d)"
  shows "sound env (hookParentsLocked c d (installDefinition env c d sv))"
proof -
  let ?sv = "hookParentsLocked c d (installDefinition env c d sv)"
  let ?new = "{ad_output d} \<times> set (config_members (ad_config d))"
  have wired: "wired ?sv"
    using assms by (simp add: sound_def wired_installed_summary)
  have D: "summary_graph (the_definitions ?sv) = summary_graph (the_definitions sv) \<union> ?new"
    using assms by (simp add: hookParents_fields installDefinition_fields summary_graph_add)
  have "acyclic (summary_graph (the_definitions sv) \<union> ?new)"
  proof (rule acyclic_add_successors)
    show "acyclic (summary_graph (the_definitions sv))"
      using assms(1) by (simp add: sound_def)
    show "?new \<subseteq> {ad_output d} \<times> UNIV" by auto
    show "\<nexists>x. (ad_output d, x) \<in> (summary_graph (the_definitions sv) \<union> ?new)\<^sup>* \<and>
        (x, x) \<in> (summary_graph (the_definitions sv) \<union> ?new)\<^sup>+"
      using no_cycle by (simp add: summaryCycle_iff member_graph_wired [OF wired] D)
  qed
  then show ?thesis
    using wired D assms(1)
    by (simp add: sound_def states_valid_def messages_ok_def hookParents_fields installDefinition_fields)
qed

lemma sound_uninstall_summary:
  assumes "sound env sv" and "the_definitions sv c = None" and "installed c d" and "is_summary d"
  shows "sound env (removeDefinitionLocked env' c (hookParentsLocked c d (installDefinition env c d sv)))"
proof -
  let ?sv = "hookParentsLocked c d (installDefinition env c d sv)"
  have "wired (removeDefinitionLocked env' c ?sv)"
    using assms by (intro wired_removeDefinition wired_installed_summary) (simp_all add: sound_def)
  moreover have "the_definitions (removeDefinitionLocked env' c ?sv) = the_definitions sv"
    using assms(2)
    by (simp add: removeDefinition_definitions hookParents_fields installDefinition_fields fun_upd_idem)
  moreover have "states_valid (removeDefinitionLocked env' c ?sv)"
    using assms(1)
    by (simp add: states_valid_def hookParents_fields installDefinition_fields sound_def)
  moreover have "messages_ok env (removeDefinitionLocked env' c ?sv)"
    using assms(1)
    by (simp add: messages_ok_def hookParents_fields installDefinition_fields sound_def)
  ultimately show ?thesis using assms(1) by (simp add: sound_def)
qed

lemma sound_deactivate: "sound env sv \<Longrightarrow> sound env (deactivate env x sv)"
  by (rule sound_step [OF state_step_deactivate])

lemma sound_reconcileConfig:
  assumes "sound env sv"
  shows "sound env (reconcileConfigLocked env c raw sv)"
proof -
  let ?sv0 = "removeDefinitionLocked env c sv"
  have sv0: "sound env ?sv0" "the_definitions ?sv0 c = None"
    using assms by (simp_all add: sound_removeDefinition removeDefinition_definitions)
  show ?thesis
  proof (cases "\<exists>cfg out source. parseConfigFor (en_codec env) c raw = Inr cfg \<and>
      OutputSubject c = Inr out \<and> InputSubject c = Inr source \<and> cf_enabled cfg")
    case False
    then show ?thesis
      using sv0 by (auto simp: reconcileConfigLocked_def Let_def sound_deactivate split: sum.split)
  next
    case True
    then obtain cfg out source where parsed: "parseConfigFor (en_codec env) c raw = Inr cfg"
        "OutputSubject c = Inr out" "InputSubject c = Inr source" "cf_enabled cfg"
      by blast
    define d where "d = \<lparr>ad_raw = raw, ad_config = cfg, ad_output = out, ad_source = source,
      ad_input = None, ad_ref = sv_refs ?sv0\<rparr>"
    have ins: "installed c d"
      using parsed parseConfigFor_valid by (simp add: d_def installed_def)
    show ?thesis
    proof (cases "is_summary d")
      case True
      let ?sv2 = "hookParentsLocked c d (installDefinition env c d ?sv0)"
      have "reconcileConfigLocked env c raw sv =
          (if summaryCycleLocked ?sv2 out then deactivate env out (removeDefinitionLocked env c ?sv2)
           else evaluateAncestors env out (evaluateDefinitionLocked env c
             (catchUpMembers env (config_members cfg) ?sv2)))"
        using parsed True by (simp add: reconcileConfigLocked_def Let_def flip: d_def)
      moreover have "sound env (removeDefinitionLocked env c ?sv2)"
        using sv0 ins True by (rule sound_uninstall_summary)
      moreover have "sound env ?sv2" if "\<not> summaryCycleLocked ?sv2 out"
        using sound_install_summary [OF sv0 ins True] that by (simp add: d_def)
      ultimately show ?thesis
        by (simp add: sound_deactivate sound_evaluate sound_catchUpMembers)
    next
      case False
      let ?sv1 = "installDefinition env c d ?sv0"
      have sv1: "sound env ?sv1"
        using sv0 ins False by (rule sound_install)
      then show ?thesis
        using parsed False
        by (auto simp: reconcileConfigLocked_def Let_def d_def [symmetric]
            intro!: sound_deactivate sound_removeDefinition sound_acceptInput split: option.split)
    qed
  qed
qed

section \<open>Events\<close>

lemma sound_reconcileProperty:
  "sound env sv \<Longrightarrow> sound env (reconcilePropertyLocked env order subject raw sv)"
  by (auto simp: reconcilePropertyLocked_def Let_def split: sum.split
      intro!: sound_step [OF state_step_propertyLoop])

lemma sound_acceptSource: "sound env sv \<Longrightarrow> sound env (acceptSourceLocked env order source v sv)"
  by (induction order arbitrary: sv) (auto simp: sound_acceptInput split: option.split)

lemma sound_reconcileState:
  assumes "sound env sv"
  shows "sound env (reconcileStateLocked env x raw sv)"
proof -
  have external: "sound env (evaluateAncestors env x
      (sv\<lparr>sv_states := AList.update x st (sv_states sv)\<rparr>))" if "ok (validate_state st)" for st
    using sound_add_state [OF assms that] by (rule sound_step [OF state_step_evaluateAncestors])
  have ack: "sound env (evaluateAncestors env x (acknowledgeTreeLocked env x {} sv))"
      "sound env (evaluateAncestors env x (acknowledgeOneLocked env x sv))"
    using assms state_step_acknowledge(1) state_step_acknowledgeOne
    by (blast intro: sound_step [OF state_step_evaluateAncestors] sound_step)+
  show ?thesis
    using assms external ack sound_step [OF state_step_republish]
    by (auto simp: reconcileStateLocked_def Let_def ok_def split: sum.split option.split)
qed

lemma sound_handle:
  assumes "sound env sv"
  shows "sound env (handle env ev sv)"
proof -
  have "sound env (watchConfig env x sv)" for x
    using assms by (simp add: watchConfig_def split: option.split)
  then show ?thesis
    using assms sound_reconcileConfig sound_reconcileState sound_acceptSource sound_reconcileProperty
    by (auto simp: handle_def split: event.split any.split)
qed

lemma sound_loadSubjects:
  assumes "\<And>x raw sv. sound env sv \<Longrightarrow> sound env (apply x raw sv)" and "sound env sv"
  shows "sound env (loadSubjects env apply subjects sv)"
  using assms(2)
  by (induction subjects arbitrary: sv) (simp_all add: assms(1) split: option.split)

lemma sound_load:
  assumes "\<And>x raw sv. sound env sv \<Longrightarrow> sound env (apply x raw sv)" and "sound env sv"
  shows "sound env (fst (load env list apply sv))"
  using assms by (simp add: load_def sound_loadSubjects split: option.split)

lemma sound_loadState: "sound env sv \<Longrightarrow> sound env (loadState env x raw sv)"
  using ParseState_valid by (auto simp: loadState_def intro: sound_add_state split: sum.split)

lemma sound_loadInitial:
  assumes "sound env sv"
  shows "sound env (fst (loadInitial env property_order order sv))"
proof -
  let ?l1 = "load env (\<lambda>n. en_list_suffix env n alertSuffix) (loadState env)"
  let ?l2 = "load env (\<lambda>n. en_list_prefix env n (trim_suffix propertiesPrefix ''.''))
    (\<lambda>subject. reconcilePropertyLocked env (property_order subject) subject)"
  let ?l3 = "load env (\<lambda>n. en_list_suffix env n configSuffix) (reconcileConfigLocked env)"
  have l1: "sound env (fst (?l1 sv))" if "sound env sv" for sv
    by (rule sound_load [OF sound_loadState that])
  have l2: "sound env (fst (?l2 sv))" if "sound env sv" for sv
    by (rule sound_load [OF sound_reconcileProperty that])
  have l3: "sound env (fst (?l3 sv))" if "sound env sv" for sv
    by (rule sound_load [OF sound_reconcileConfig that])
  obtain sv1 b1 where r1: "?l1 sv = (sv1, b1)" by (cases "?l1 sv")
  obtain sv2 b2 where r2: "?l2 sv1 = (sv2, b2)" by (cases "?l2 sv1")
  obtain sv3 b3 where r3: "?l3 sv2 = (sv3, b3)" by (cases "?l3 sv2")
  have "sound env sv1" "sound env sv2" "sound env sv3"
    using l1 [OF assms] l2 [of sv1] l3 [of sv2] r1 r2 r3 by simp_all
  moreover from this have "sound env (evaluateAllSummariesLocked env order sv3)"
    using sound_step [OF state_step_allSummaries] by blast
  ultimately show ?thesis
    using r1 r2 r3 by (cases b1; cases b2; cases b3) (simp_all add: loadInitial_def)
qed

section \<open>The service from its start\<close>

lemma sound_newService: "sound env newService"
  by (simp add: sound_def newService_def wired_def states_valid_def messages_ok_def
      the_definitions_def parents_of_def summary_of_def summary_graph_def acyclic_def)

lemma sound_running [simp]: "sound env (sv\<lparr>sv_running := b\<rparr>) = sound env sv"
  by (simp add: sound_def)

lemma sound_states_watch [simp]: "sound env (sv\<lparr>sv_states_watch := w\<rparr>) = sound env sv"
  by (simp add: sound_def)

lemma sound_stop [simp]: "sound env (stop sv) = sound env sv"
  by (simp add: stop_def)

lemma sound_startWatches: "sound env sv \<Longrightarrow> sound env (fst (startWatches env sv))"
  by (simp add: startWatches_def Let_def)

lemma sound_fold:
  assumes "\<And>x sv. sound env sv \<Longrightarrow> sound env (f x sv)" and "sound env sv"
  shows "sound env (fold f xs sv)"
  using assms(2) by (induction xs arbitrary: sv) (simp_all add: assms(1))

lemma sound_watchConfig: "sound env sv \<Longrightarrow> sound env (watchConfig env x sv)"
  by (simp add: watchConfig_def split: option.split)

lemma sound_watchKnown:
  assumes "\<And>x sv. sound env sv \<Longrightarrow> sound env (watch x sv)" and "sound env sv"
  shows "sound env (fst (watchKnown env suff watch sv))"
  using assms by (simp add: watchKnown_def sound_fold split: option.split)

lemma sound_subscribeGlobals:
  assumes "sound env sv"
  shows "sound env (fst (subscribeGlobals env sv))"
proof -
  obtain sv3 b where r: "watchKnown env configSuffix (watchConfig env) (call (call sv)) = (sv3, b)"
    by (cases "watchKnown env configSuffix (watchConfig env) (call (call sv))")
  have "sound env sv3"
    using sound_watchKnown [of env "watchConfig env" "call (call sv)" configSuffix] assms r
    by (simp add: sound_watchConfig)
  then have "sound env (fst (watchKnown env alertSuffix (watchState env) sv3))"
    by (intro sound_watchKnown) simp_all
  then show ?thesis
    using assms r \<open>sound env sv3\<close> by (cases b) (simp_all add: subscribeGlobals_def Let_def)
qed

lemma sound_Run:
  assumes "sound env sv"
  shows "sound env (fst (Run env property_order order sv))"
proof -
  obtain sv1 b1 where r1: "startWatches env (sv\<lparr>sv_running := True\<rparr>) = (sv1, b1)"
    by (cases "startWatches env (sv\<lparr>sv_running := True\<rparr>)")
  obtain sv2 b2 where r2: "loadInitial env property_order order sv1 = (sv2, b2)"
    by (cases "loadInitial env property_order order sv1")
  obtain sv3 b3 where r3: "subscribeGlobals env sv2 = (sv3, b3)"
    by (cases "subscribeGlobals env sv2")
  have s: "sound env sv1" "sound env sv2" "sound env sv3"
    using assms r1 r2 r3 sound_startWatches [of env "sv\<lparr>sv_running := True\<rparr>"]
      sound_loadInitial [of env sv1 property_order order] sound_subscribeGlobals [of env sv2]
    by simp_all
  then show ?thesis
    using assms r1 r2 r3 by (cases b1; cases b2; cases b3) (simp_all add: Run_def)
qed

text \<open>Any history of one service value: runs, events and stops.\<close>

inductive reachable :: "env \<Rightarrow> service \<Rightarrow> bool" for env where
  new: "reachable env newService"
| run: "reachable env sv \<Longrightarrow> reachable env (fst (Run env property_order order sv))"
| event: "reachable env sv \<Longrightarrow> reachable env (handle env ev sv)"
| stopped: "reachable env sv \<Longrightarrow> reachable env (stop sv)"

lemma reachable_sound: "reachable env sv \<Longrightarrow> sound env sv"
  by (induction rule: reachable.induct)
    (simp_all add: sound_newService sound_Run sound_handle)

end
