(* ===== verification/Alert_Service_Spec.thy ===== *)
theory Alert_Service_Spec
  imports Alert_Service_Inv
begin

text \<open>
  What the service computes: which definitions a change re-evaluates, which states an operation may
  touch, that a state written on the bus by somebody else can only acknowledge an owned alert, and
  that an accepted input leaves its alert in the state its configuration asks for.
\<close>

section \<open>The ancestors that are evaluated\<close>

text \<open>From a definition to the summaries that list its output.\<close>

definition parent_graph :: "service \<Rightarrow> (string \<times> string) set" where
  "parent_graph sv =
     {(c, p). \<exists>d. the_definitions sv c = Some d \<and> p \<in> set (parents_of sv (ad_output d))}"

lemma parent_graph_static: "static_part a = static_part b \<Longrightarrow> parent_graph a = parent_graph b"
  using static_parents [of a b] definitions_static [of a b] by (simp add: parent_graph_def)

lemma parent_graph_succ:
  "set (case map_of (sv_definitions sv) c of None \<Rightarrow> [] | Some d \<Rightarrow> parents_of sv (ad_output d)) =
     {p. (c, p) \<in> parent_graph sv}"
  by (cases "map_of (sv_definitions sv) c") (simp_all add: parent_graph_def the_definitions_def)

lemma ancestorsLoop_seen:
  "seen \<subseteq> snd (ancestorsLoop env queue seen sv) \<and> set queue \<subseteq> snd (ancestorsLoop env queue seen sv) \<and>
   (\<forall>c\<in>snd (ancestorsLoop env queue seen sv) - seen.
      \<forall>p. (c, p) \<in> parent_graph sv \<longrightarrow> p \<in> snd (ancestorsLoop env queue seen sv)) \<and>
   snd (ancestorsLoop env queue seen sv) \<subseteq> seen \<union> (parent_graph sv)\<^sup>* `` set queue"
proof (induction env queue seen sv rule: ancestorsLoop.induct)
  case (1 env seen sv)
  then show ?case by simp
next
  case (2 env subject queue seen sv)
  show ?case
  proof (cases "subject \<in> seen")
    case True
    with 2(1) show ?thesis by (simp; blast)
  next
    case False
    let ?sv' = "evaluateDefinitionLocked env subject sv"
    let ?next = "case map_of (sv_definitions ?sv') subject of
      None \<Rightarrow> queue | Some d \<Rightarrow> queue @ parents_of ?sv' (ad_output d)"
    define S where "S = snd (ancestorsLoop env ?next (insert subject seen) ?sv')"
    have graph: "parent_graph ?sv' = parent_graph sv"
      by (rule parent_graph_static) simp
    have nxt: "set ?next = set queue \<union> {p. (subject, p) \<in> parent_graph sv}"
      using parent_graph_succ [of ?sv' subject] graph by (auto split: option.splits)
    have "insert subject seen \<subseteq> S \<and> set ?next \<subseteq> S \<and>
        (\<forall>c\<in>S - insert subject seen. \<forall>p. (c, p) \<in> parent_graph sv \<longrightarrow> p \<in> S) \<and>
        S \<subseteq> insert subject seen \<union> (parent_graph sv)\<^sup>* `` set ?next"
      using 2(2) [OF False refl] unfolding graph S_def .
    then have IH: "subject \<in> S" "seen \<subseteq> S" "set queue \<subseteq> S"
        "\<And>p. (subject, p) \<in> parent_graph sv \<Longrightarrow> p \<in> S"
        "\<And>c p. c \<in> S \<Longrightarrow> c \<notin> seen \<Longrightarrow> c \<noteq> subject \<Longrightarrow> (c, p) \<in> parent_graph sv \<Longrightarrow> p \<in> S"
        "S \<subseteq> insert subject seen \<union>
          (parent_graph sv)\<^sup>* `` (set queue \<union> {p. (subject, p) \<in> parent_graph sv})"
      unfolding nxt by blast+
    have "(parent_graph sv)\<^sup>* `` (set queue \<union> {p. (subject, p) \<in> parent_graph sv})
        \<subseteq> (parent_graph sv)\<^sup>* `` set (subject # queue)"
      by (auto intro: converse_rtrancl_into_rtrancl)
    moreover have "subject \<in> (parent_graph sv)\<^sup>* `` set (subject # queue)"
      by auto
    ultimately have "S \<subseteq> seen \<union> (parent_graph sv)\<^sup>* `` set (subject # queue)"
      using IH(6) by blast
    moreover have "p \<in> S" if "c \<in> S" "c \<notin> seen" "(c, p) \<in> parent_graph sv" for c p
      using IH(4,5) that by (cases "c = subject") auto
    moreover have "snd (ancestorsLoop env (subject # queue) seen sv) = S"
      using False by (simp add: Let_def S_def)
    ultimately show ?thesis
      using IH(1-3) by auto
  qed
qed

lemma closed_under_rtrancl:
  assumes "(x, y) \<in> r\<^sup>*" and "x \<in> S" and "\<forall>c\<in>S. \<forall>p. (c, p) \<in> r \<longrightarrow> p \<in> S"
  shows "y \<in> S"
  using assms by induction auto

lemma evaluateAncestors_seen:
  "snd (evaluateAncestorsLocked env out {} sv) = (parent_graph sv)\<^sup>* `` set (parents_of sv out)"
proof -
  let ?S = "snd (evaluateAncestorsLocked env out {} sv)"
  note facts = ancestorsLoop_seen [of "{}" env "parents_of sv out" sv,
      folded evaluateAncestorsLocked_def]
  have "y \<in> ?S" if "(x, y) \<in> (parent_graph sv)\<^sup>*" "x \<in> set (parents_of sv out)" for x y
    using facts that closed_under_rtrancl [of x y "parent_graph sv" ?S] by blast
  with facts show ?thesis by auto
qed

text \<open>The same set, read in the graph of the outputs.\<close>

lemma parents_of_iff:
  assumes "wired sv"
  shows "c \<in> set (parents_of sv m) \<longleftrightarrow>
    (\<exists>d. the_definitions sv c = Some d \<and> is_summary d \<and> (ad_output d, m) \<in> summary_graph (the_definitions sv))"
proof -
  have "summary_of (the_definitions sv) c m \<longleftrightarrow>
      (\<exists>d. the_definitions sv c = Some d \<and> is_summary d \<and> (ad_output d, m) \<in> summary_graph (the_definitions sv))"
  proof
    assume "summary_of (the_definitions sv) c m"
    then show "\<exists>d. the_definitions sv c = Some d \<and> is_summary d \<and>
        (ad_output d, m) \<in> summary_graph (the_definitions sv)"
      by (auto simp: summary_of_def summary_graph_def)
  next
    assume "\<exists>d. the_definitions sv c = Some d \<and> is_summary d \<and>
        (ad_output d, m) \<in> summary_graph (the_definitions sv)"
    then obtain d where d: "the_definitions sv c = Some d" "is_summary d"
        "m \<in> set (members_of sv (ad_output d))"
      using members_of_graph [OF assms] by auto
    moreover have "definitionForOutputLocked sv (ad_output d) = Some d"
      using definitionForOutput_wired [OF assms] d(1) by blast
    ultimately show "summary_of (the_definitions sv) c m"
      by (auto simp: members_of_def summary_of_def split: if_splits)
  qed
  then show ?thesis using assms by (simp add: wired_def)
qed

lemma ancestors_iff:
  assumes wired: "wired sv"
  shows "c \<in> (parent_graph sv)\<^sup>* `` set (parents_of sv out) \<longleftrightarrow>
    (\<exists>d. the_definitions sv c = Some d \<and> (ad_output d, out) \<in> (summary_graph (the_definitions sv))\<^sup>+)"
proof
  let ?G = "summary_graph (the_definitions sv)"
  assume "c \<in> (parent_graph sv)\<^sup>* `` set (parents_of sv out)"
  then obtain p where p: "p \<in> set (parents_of sv out)" "(p, c) \<in> (parent_graph sv)\<^sup>*"
    by blast
  from p(2) show "\<exists>d. the_definitions sv c = Some d \<and> (ad_output d, out) \<in> ?G\<^sup>+"
  proof induction
    case base
    then show ?case using p(1) parents_of_iff [OF wired] by blast
  next
    case (step y z)
    then obtain d where "the_definitions sv y = Some d" "(ad_output d, out) \<in> ?G\<^sup>+"
        "z \<in> set (parents_of sv (ad_output d))"
      by (auto simp: parent_graph_def)
    then show ?case
      using parents_of_iff [OF wired] by (blast intro: trancl_into_trancl2)
  qed
next
  let ?G = "summary_graph (the_definitions sv)"
  assume "\<exists>d. the_definitions sv c = Some d \<and> (ad_output d, out) \<in> ?G\<^sup>+"
  then obtain d where d: "the_definitions sv c = Some d" "(ad_output d, out) \<in> ?G\<^sup>+"
    by blast
  have "\<forall>c d. the_definitions sv c = Some d \<longrightarrow> ad_output d = x \<longrightarrow>
      c \<in> (parent_graph sv)\<^sup>* `` set (parents_of sv out)" if "(x, out) \<in> ?G\<^sup>+" for x
    using that
  proof (induction rule: converse_trancl_induct)
    case (base y)
    show ?case
    proof (intro allI impI)
      fix c d
      assume cd: "the_definitions sv c = Some d" "ad_output d = y"
      then have "is_summary d"
        using base members_of_graph [OF wired, of y] definitionForOutput_wired [OF wired, of y d]
        by (auto simp: members_of_def split: if_splits)
      then have "c \<in> set (parents_of sv out)"
        using cd base parents_of_iff [OF wired] by blast
      then show "c \<in> (parent_graph sv)\<^sup>* `` set (parents_of sv out)" by blast
    qed
  next
    case (step y z)
    show ?case
    proof (intro allI impI)
      fix c d
      assume cd: "the_definitions sv c = Some d" "ad_output d = y"
      then have sum: "is_summary d"
        using step(1) members_of_graph [OF wired, of y] definitionForOutput_wired [OF wired, of y d]
        by (auto simp: members_of_def split: if_splits)
      from step(2) have "\<exists>b. (z, b) \<in> ?G" by (meson tranclD)
      then obtain c' d' where cd': "the_definitions sv c' = Some d'" "ad_output d' = z"
        by (auto simp: summary_graph_def)
      with step(3) have "c' \<in> (parent_graph sv)\<^sup>* `` set (parents_of sv out)" by blast
      moreover have "(c', c) \<in> parent_graph sv"
        using cd cd' sum step(1) parents_of_iff [OF wired] by (auto simp: parent_graph_def)
      ultimately show "c \<in> (parent_graph sv)\<^sup>* `` set (parents_of sv out)"
        by (blast intro: rtrancl_into_rtrancl)
    qed
  qed
  with d show "c \<in> (parent_graph sv)\<^sup>* `` set (parents_of sv out)" by blast
qed

section \<open>The states an operation may touch\<close>

lemma states_storeAndPublish:
  "map_of (sv_states (storeAndPublishLocked env x st sv)) y =
     (if y = x \<and> ok (MarshalState (en_codec env) st)
      then Some st else map_of (sv_states sv) y)"
  by (cases "MarshalState (en_codec env) st") (auto simp: storeAndPublishLocked_def update_conv')

lemma states_storeAndPublish_other:
  "y \<noteq> x \<Longrightarrow> map_of (sv_states (storeAndPublishLocked env x st sv)) y = map_of (sv_states sv) y"
  by (simp add: states_storeAndPublish)

lemma states_apply_other:
  "y \<noteq> x \<Longrightarrow> map_of (sv_states (applyLocked env x ev sv)) y = map_of (sv_states sv) y"
  by (simp add: applyLocked_def states_storeAndPublish_other split: sum.split)

lemma states_makeInactive_other:
  "y \<noteq> x \<Longrightarrow> map_of (sv_states (makeInactiveLocked env x sv)) y = map_of (sv_states sv) y"
  by (simp add: makeInactiveLocked_def states_apply_other)

lemma states_evaluateDefinition_other:
  assumes "\<forall>d. the_definitions sv c = Some d \<longrightarrow> ad_output d \<noteq> y"
  shows "map_of (sv_states (evaluateDefinitionLocked env c sv)) y = map_of (sv_states sv) y"
  using assms
  by (auto simp: evaluateDefinitionLocked_def the_definitions_def states_apply_other
      states_makeInactive_other split: option.split sum.split)

lemma states_ancestorsLoop_other:
  assumes "\<forall>c\<in>snd (ancestorsLoop env queue seen sv). \<forall>d. the_definitions sv c = Some d \<longrightarrow> ad_output d \<noteq> y"
  shows "map_of (sv_states (fst (ancestorsLoop env queue seen sv))) y = map_of (sv_states sv) y"
  using assms
proof (induction env queue seen sv rule: ancestorsLoop.induct)
  case (1 env seen sv)
  then show ?case by simp
next
  case (2 env subject queue seen sv)
  show ?case
  proof (cases "subject \<in> seen")
    case True
    with 2 show ?thesis by simp
  next
    case False
    let ?sv' = "evaluateDefinitionLocked env subject sv"
    have D: "the_definitions ?sv' = the_definitions sv"
      by (rule definitions_static) simp
    have "subject \<in> snd (ancestorsLoop env (subject # queue) seen sv)"
      using ancestorsLoop_seen [of seen env "subject # queue" sv] by auto
    then have "map_of (sv_states ?sv') y = map_of (sv_states sv) y"
      using 2(3) by (intro states_evaluateDefinition_other) blast
    with 2(2) [OF False refl] 2(3) False D show ?thesis
      by (simp add: Let_def)
  qed
qed

lemma states_evaluateAncestors_other:
  assumes "wired sv" and "(y, out) \<notin> (summary_graph (the_definitions sv))\<^sup>+"
  shows "map_of (sv_states (evaluateAncestors env out sv)) y = map_of (sv_states sv) y"
proof -
  have "\<forall>c\<in>snd (evaluateAncestorsLocked env out {} sv). \<forall>d. the_definitions sv c = Some d \<longrightarrow> ad_output d \<noteq> y"
  proof (intro ballI allI impI)
    fix c d
    assume "c \<in> snd (evaluateAncestorsLocked env out {} sv)" and c: "the_definitions sv c = Some d"
    then have "(ad_output d, out) \<in> (summary_graph (the_definitions sv))\<^sup>+"
      using ancestors_iff [OF assms(1), of c out] by (simp add: evaluateAncestors_seen)
    with assms(2) show "ad_output d \<noteq> y" by blast
  qed
  then show ?thesis
    unfolding evaluateAncestors_def evaluateAncestorsLocked_def
    by (rule states_ancestorsLoop_other)
qed

lemma states_evaluateAncestors_self:
  assumes "sound env' sv"
  shows "map_of (sv_states (evaluateAncestors env out sv)) out = map_of (sv_states sv) out"
  using assms by (intro states_evaluateAncestors_other) (auto simp: sound_def acyclic_def)

section \<open>External writes\<close>

text \<open>A state is left alone or acknowledged, at some time, for its own episode.\<close>

definition kept_or_acknowledged :: "state option \<Rightarrow> state option \<Rightarrow> bool" where
  "kept_or_acknowledged a b \<longleftrightarrow>
     a = b \<or> (\<exists>s s' t. a = Some s \<and> b = Some s' \<and> Acknowledge s (st_episode s) t = Inr s')"

lemma kept_refl [simp]: "kept_or_acknowledged a a"
  by (simp add: kept_or_acknowledged_def)

lemma Acknowledge_once:
  assumes "Acknowledge s e t = Inr s'"
  shows "Acknowledge s' e' t' \<noteq> Inr s''"
  using assms by (auto simp: Acknowledge_iff)

lemma kept_trans:
  "kept_or_acknowledged a b \<Longrightarrow> kept_or_acknowledged b c \<Longrightarrow> kept_or_acknowledged a c"
  using Acknowledge_once unfolding kept_or_acknowledged_def by (metis option.inject)

lemma kept_acknowledgeOne:
  "kept_or_acknowledged (map_of (sv_states sv) y) (map_of (sv_states (acknowledgeOneLocked env x sv)) y)"
proof (cases "y = x")
  case False
  then show ?thesis
    by (simp add: acknowledgeOneLocked_def states_storeAndPublish_other split: option.split sum.split)
next
  case True
  then show ?thesis
    by (auto simp: acknowledgeOneLocked_def states_storeAndPublish kept_or_acknowledged_def
        split: option.split sum.split)
qed

lemma kept_acknowledge:
  "kept_or_acknowledged (map_of (sv_states sv) y)
     (map_of (sv_states (acknowledgeTreeLocked env x visiting sv)) y)"
  "kept_or_acknowledged (map_of (sv_states sv) y)
     (map_of (sv_states (acknowledgeMembers env ms visiting sv)) y)"
proof (induction env x visiting sv and env ms visiting sv
    rule: acknowledgeTreeLocked_acknowledgeMembers.induct)
  case (1 env subject visiting sv)
  then show ?case
    using kept_acknowledgeOne kept_trans by auto
next
  case (2 env visiting sv)
  then show ?case by simp
next
  case (3 env member rest visiting sv)
  then show ?case
    by (auto intro: kept_trans split: option.splits if_splits)
qed

lemma reconcileState_owned_states:
  assumes sound: "sound env sv" and owned: "map_of (sv_by_output sv) x \<noteq> None"
    and canonical: "map_of (sv_states sv) x \<noteq> None"
    and y: "(y, x) \<notin> (summary_graph (the_definitions sv))\<^sup>+"
  shows "kept_or_acknowledged (map_of (sv_states sv) y)
    (map_of (sv_states (reconcileStateLocked env x raw sv)) y)"
proof -
  have anc: "map_of (sv_states (evaluateAncestors env x sv')) y = map_of (sv_states sv') y"
    if "static_part sv' = static_part sv" for sv'
    using that sound y wired_static [OF that] definitions_static [OF that]
    by (intro states_evaluateAncestors_other) (simp_all add: sound_def)
  have one: "map_of (sv_states (evaluateAncestors env x (acknowledgeOneLocked env x sv))) y =
      map_of (sv_states (acknowledgeOneLocked env x sv)) y"
    by (rule anc) simp
  have tree: "map_of (sv_states (evaluateAncestors env x (acknowledgeTreeLocked env x {} sv))) y =
      map_of (sv_states (acknowledgeTreeLocked env x {} sv)) y"
    by (rule anc [OF tree_op.static])
  show ?thesis
    using owned canonical one tree kept_acknowledgeOne kept_acknowledge(1)
    by (auto simp: reconcileStateLocked_def Let_def simp del: acknowledgeTreeLocked.simps
        split: sum.split option.split)
qed

text \<open>When a write does change an owned state, it is an acknowledgement of the pending episode.\<close>

lemma reconcileState_owned_change:
  assumes "sound env sv" and "map_of (sv_by_output sv) x \<noteq> None"
    and canonical: "map_of (sv_states sv) x = Some s"
    and change: "map_of (sv_states (reconcileStateLocked env x raw sv)) x \<noteq> Some s"
  shows "\<exists>incoming. parseStateUnchecked (en_codec env) raw = Inr incoming \<and>
    st_acknowledged incoming \<and> st_pending s \<and> st_episode incoming = st_episode s"
  using assms
  by (auto simp: reconcileStateLocked_def Let_def simp del: acknowledgeTreeLocked.simps
      split: sum.splits option.splits if_splits)

lemma reconcileState_owned_answer:
  assumes "map_of (sv_by_output sv) x \<noteq> None" and "map_of (sv_states sv) x = Some s"
    and "ok (MarshalState (en_codec env) s)"
    and "case parseStateUnchecked (en_codec env) raw of Inl _ \<Rightarrow> True
      | Inr incoming \<Rightarrow> incoming \<noteq> s \<and>
          \<not> (st_acknowledged incoming \<and> st_pending s \<and> st_episode incoming = st_episode s)"
  shows "announced env (reconcileStateLocked env x raw sv) x"
proof -
  obtain enc where enc: "MarshalState (en_codec env) s = Inr enc"
    using assms(3) by (auto simp: ok_iff)
  then have "announced env (republishCanonicalLocked env x sv) x"
    using announced_publish_state [OF assms(2) enc]
    by (simp add: republishCanonicalLocked_def assms(2))
  then show ?thesis
    using assms by (auto simp: reconcileStateLocked_def Let_def split: sum.splits)
qed

section \<open>The state follows the evaluation\<close>

definition reflects :: "evaluation \<Rightarrow> state \<Rightarrow> bool" where
  "reflects ev st \<longleftrightarrow>
     st_active st = ev_active ev \<and> st_presentation st = ev_presentation ev \<and>
     st_text st = ev_text ev \<and> st_dominant st = ev_dominant ev \<and>
     slice_list (st_members st) = ev_members ev \<and> (ev_pending ev \<longrightarrow> st_pending st)"

text \<open>
  What the evaluation of a definition must leave in its state: the evaluation, or the inactive state
  when the configuration cannot be evaluated.
\<close>

definition inactive_evaluation :: evaluation where
  "inactive_evaluation = zero_evaluation\<lparr>ev_acknowledged := True\<rparr>"

definition outcome :: "go_error + evaluation \<Rightarrow> evaluation" where
  "outcome r = (case r of Inl _ \<Rightarrow> inactive_evaluation | Inr ev \<Rightarrow> ev)"

text \<open>The environment gives every episode a name and the codec encodes every valid state.\<close>

definition dependable :: "env \<Rightarrow> bool" where
  "dependable env \<longleftrightarrow>
     (\<forall>n. en_new_id env n \<noteq> []) \<and>
     (\<forall>st. ok (validate_state st) \<longrightarrow> encode_state (en_codec env) st \<noteq> None)"

lemma dependable_marshal:
  assumes "dependable env" and "ok (validate_state st)"
  shows "ok (MarshalState (en_codec env) st)"
proof -
  from assms obtain enc where "encode_state (en_codec env) st = Some enc"
    unfolding dependable_def by blast
  with assms(2) show ?thesis by (simp add: MarshalState_def)
qed

lemma wf_inactive: "wf_evaluation inactive_evaluation"
  by (simp add: wf_evaluation_def inactive_evaluation_def)

lemma reflects_next_state: "reflects ev (next_state previous ev time eid)"
  by (auto simp: reflects_def next_state_fields new_episode_pending_def)

lemma apply_reflects:
  assumes "dependable env" and "states_valid sv" and "wf_evaluation ev"
  shows "\<exists>st. map_of (sv_states (applyLocked env x ev sv)) x = Some st \<and> reflects ev st"
proof -
  let ?prev = "map_of (sv_states sv) x"
  let ?time = "en_now env (sv_calls sv)" and ?eid = "en_new_id env (sv_calls sv)"
  let ?next = "next_state ?prev ev ?time ?eid"
  have app: "ApplyEvaluation ?prev ev ?time ?eid = Inr ?next"
    using assms by (simp add: ApplyEvaluation_wf dependable_def states_valid_def)
  have "ok (MarshalState (en_codec env) ?next)"
    using ApplyEvaluation_valid [OF app] by (rule dependable_marshal [OF assms(1)])
  then have "map_of (sv_states (applyLocked env x ev sv)) x = Some ?next"
    using app by (simp add: applyLocked_def states_storeAndPublish)
  with reflects_next_state show ?thesis by blast
qed

lemma evaluateConfig_cong:
  assumes "sv_properties a = sv_properties b" and "sv_states a = sv_states b"
  shows "evaluateConfig d a = evaluateConfig d b"
  unfolding evaluateConfig_def assms ..

lemma evaluateConfig_wf:
  assumes "evaluateConfig d sv = Some (Inr ev)" and "ok (validate_config (ad_config d))"
  shows "wf_evaluation ev"
  using assms
  by (auto simp: evaluateConfig_def validate_config_ok case_Inr_iff
      split: alert_type.splits option.splits any.splits sum.splits
      intro: EvaluateBinary_wf EvaluateValue_wf EvaluateSummary_wf)

lemma evaluateDefinition_reflects:
  assumes "dependable env" and "sound env' sv" and d: "the_definitions sv c = Some d"
    and r: "evaluateConfig d sv = Some r"
  shows "\<exists>st. map_of (sv_states (evaluateDefinitionLocked env c sv)) (ad_output d) = Some st \<and>
    reflects (outcome r) st"
proof -
  have "installed c d"
    using assms(2) d by (auto simp: sound_def intro: wired_installed)
  then have "wf_evaluation (outcome r)"
    using evaluateConfig_wf [of d sv] r wf_inactive
    by (auto simp: outcome_def installed_def split: sum.split)
  moreover have "evaluateDefinitionLocked env c sv = applyLocked env (ad_output d) (outcome r) sv"
    using d r by (auto simp: evaluateDefinitionLocked_def the_definitions_def makeInactiveLocked_def
        outcome_def inactive_evaluation_def split: sum.split)
  ultimately show ?thesis
    using apply_reflects [of env sv "outcome r" "ad_output d"] assms(1,2) by (simp add: sound_def)
qed

lemma acceptInput_reflects:
  assumes "dependable env" and "sound env' sv" and d: "the_definitions sv c = Some d"
    and r: "evaluateConfig (d\<lparr>ad_input := Some v\<rparr>) sv = Some r"
    and expected: "ad_ref expected = ad_ref d"
  shows "\<exists>st. map_of (sv_states (acceptInputLocked env c expected v sv)) (ad_output d) = Some st \<and>
    reflects (outcome r) st"
proof -
  let ?d = "d\<lparr>ad_input := Some v\<rparr>"
  let ?sv = "sv\<lparr>sv_definitions := AList.update c ?d (sv_definitions sv)\<rparr>"
  let ?sv' = "evaluateDefinitionLocked env c ?sv"
  have sound: "sound env' ?sv"
    using assms(2) d by (rule sound_input)
  have "evaluateConfig ?d ?sv = Some r"
    using r evaluateConfig_cong [of ?sv sv ?d] by simp
  then obtain st where st: "map_of (sv_states ?sv') (ad_output d) = Some st" "reflects (outcome r) st"
    using evaluateDefinition_reflects [OF assms(1) sound, of c ?d r]
    by (auto simp: the_definitions_def update_conv')
  have "wired ?sv'" "acyclic (summary_graph (the_definitions ?sv'))"
    using sound wired_static [of ?sv' ?sv] definitions_static [of ?sv' ?sv] by (simp_all add: sound_def)
  then have "map_of (sv_states (evaluateAncestors env (ad_output d) ?sv')) (ad_output d) =
      map_of (sv_states ?sv') (ad_output d)"
    by (intro states_evaluateAncestors_other) (auto simp: acyclic_def)
  with st show ?thesis
    using d expected by (simp add: acceptInputLocked_def the_definitions_def)
qed

end
