(* ===== verification/Alert_Scenarios.thy ===== *)
theory Alert_Scenarios
  imports Alert_Service_Spec
begin

text \<open>
  Concrete histories of the alert service, run by evaluation: an environment whose bus holds nothing
  and never fails, two binary alerts over one property, and summaries over them. They are the
  witnesses of the service properties and show what the two sharing rules of the code, one \<open>seen\<close> map
  for a property change and one visit per ancestor, leave stale.
\<close>

definition demo_property :: string where "demo_property = ''AlertProperties.P''"

definition demo_properties :: "bool \<Rightarrow> properties" where
  "demo_properties ack =
     \<lparr>pr_version = 1, pr_color = ''red'', pr_abbreviation = ''HI'', pr_short_sign = ''h'',
      pr_priority = 1, pr_requires_ack = ack\<rparr>"

definition demo_binary_config :: binary_config where
  "demo_binary_config =
     \<lparr>bc_bad_value = True, bc_true = \<lparr>mp_property = demo_property, mp_text = ''bad''\<rparr>,
      bc_false = \<lparr>mp_property = [], mp_text = ''good''\<rparr>\<rparr>"

definition demo_binary :: config where
  "demo_binary =
     \<lparr>cf_version = 1, cf_enabled = True, cf_type = TypeBinary, cf_binary = Some demo_binary_config,
      cf_value = None, cf_summary = None\<rparr>"

definition demo_summary :: "string list \<Rightarrow> config" where
  "demo_summary ms =
     \<lparr>cf_version = 1, cf_enabled = True, cf_type = TypeSummary, cf_binary = None, cf_value = None,
      cf_summary = Some \<lparr>sc_members = ms\<rparr>\<rparr>"

text \<open>A write that acknowledges the episode without a name.\<close>

definition demo_ack :: state where
  "demo_ack = zero_state\<lparr>st_version := 1, st_acknowledged := True\<rparr>"

definition demo_codec :: codec where
  "demo_codec =
     \<lparr>decode_properties =
        map_of [(''plain'', demo_properties False), (''ack'', demo_properties True)],
      decode_config =
        map_of [(''binary'', demo_binary), (''over A'', demo_summary [''A.alert'']),
                (''over A B'', demo_summary [''A.alert'', ''B.alert'']),
                (''over A P'', demo_summary [''A.alert'', ''P.alert''])],
      decode_state = map_of [(''ack'', demo_ack)],
      encode_properties = (\<lambda>_. Some ''properties''), encode_config = (\<lambda>_. Some ''config''),
      encode_state = (\<lambda>_. Some ''state'')\<rparr>"

definition demo_env :: env where
  "demo_env =
     \<lparr>en_codec = demo_codec, en_now = (\<lambda>n. \<lparr>instant = int n, location = ZoneUTC\<rparr>),
      en_new_id = (\<lambda>_. ''id''), en_publish = (\<lambda>_ _ _. True), en_get_string = (\<lambda>_ _. None),
      en_get_any = (\<lambda>_ _. None), en_watch = (\<lambda>_ _. True), en_subscribe = (\<lambda>_ _. True),
      en_list_suffix = (\<lambda>_ _. Some []), en_list_prefix = (\<lambda>_ _. Some [])\<rparr>"

definition demo_run :: "event list \<Rightarrow> service" where
  "demo_run events =
     fold (handle demo_env) events (fst (Run demo_env (\<lambda>_. []) (\<lambda>_. []) newService))"

lemma dependable_demo: "dependable demo_env"
  by (simp add: dependable_def demo_env_def demo_codec_def)

lemma reachable_fold: "reachable env sv \<Longrightarrow> reachable env (fold (handle env) events sv)"
  by (induction events arbitrary: sv) (simp_all add: reachable.event)

lemma reachable_demo: "reachable demo_env (demo_run events)"
  unfolding demo_run_def by (intro reachable_fold reachable.run reachable.new)

section \<open>Histories\<close>

definition order_AB :: "string list" where
  "order_AB = [''A.alert_config'', ''B.alert_config'', ''S.alert_config'']"

text \<open>Two active alerts and their summary.\<close>

definition two_alerts :: "event list" where
  "two_alerts =
     [PropertyValue [] demo_property ''plain'', ConfigValue ''A.alert_config'' (VString ''binary''),
      ConfigValue ''B.alert_config'' (VString ''binary''),
      ConfigValue ''S.alert_config'' (VString ''over A B''),
      InputValue order_AB ''A'' (VBool True), InputValue order_AB ''B'' (VBool True)]"

definition order_AP :: "string list" where
  "order_AP = [''A.alert_config'', ''P.alert_config'', ''T.alert_config'']"

text \<open>A summary over an alert and over another summary of the same alert, installed first.\<close>

definition diamond :: "event list" where
  "diamond =
     [PropertyValue [] demo_property ''plain'', ConfigValue ''A.alert_config'' (VString ''binary''),
      ConfigValue ''T.alert_config'' (VString ''over A P''),
      ConfigValue ''P.alert_config'' (VString ''over A''),
      InputValue order_AP ''A'' (VBool True), InputValue order_AP ''A'' (VBool False)]"

text \<open>A summary installed over an alert that is gone and not acknowledged.\<close>

definition late_summary :: "event list" where
  "late_summary =
     [PropertyValue [] demo_property ''ack'', ConfigValue ''A.alert_config'' (VString ''binary''),
      InputValue [''A.alert_config''] ''A'' (VBool True),
      InputValue [''A.alert_config''] ''A'' (VBool False),
      ConfigValue ''S.alert_config'' (VString ''over A'')]"

definition activity :: "service \<Rightarrow> (string \<times> bool \<times> bool) list" where
  "activity sv = map (\<lambda>(x, st). (x, st_active st, st_pending st)) (sv_states sv)"

lemma two_alerts_before:
  "activity (demo_run two_alerts) =
     [(''S.alert'', True, False), (''A.alert'', True, False), (''B.alert'', True, False)]"
  by code_simp

lemma two_alerts_after:
  "activity (demo_run (two_alerts @ [PropertyValue order_AB demo_property ''invalid''])) =
     [(''S.alert'', True, False), (''A.alert'', False, False), (''B.alert'', False, False)]"
  by code_simp

lemma diamond_after:
  "activity (demo_run diamond) =
     [(''T.alert'', True, False), (''P.alert'', False, False), (''A.alert'', False, False)]"
  by code_simp

lemma late_summary_after:
  "activity (demo_run (late_summary @ [StateValue ''S.alert'' (VString ''ack'')])) =
     [(''A.alert'', False, False), (''S.alert'', False, True)]"
  by code_simp

text \<open>One binary alert, installed and without an input yet.\<close>

definition one_alert :: "event list" where
  "one_alert =
     [PropertyValue [] demo_property ''ack'', ConfigValue ''A.alert_config'' (VString ''binary'')]"

definition demo_definition :: alert_definition where
  "demo_definition =
     \<lparr>ad_raw = ''binary'', ad_config = demo_binary, ad_output = ''A.alert'', ad_source = ''A'',
      ad_input = None, ad_ref = 0\<rparr>"

definition demo_evaluation :: evaluation where
  "demo_evaluation =
     zero_evaluation\<lparr>ev_active := True, ev_text := ''bad'',
       ev_presentation :=
         \<lparr>ps_property = demo_property, ps_color = ''red'', ps_abbreviation = ''HI'',
          ps_short_sign = ''h'', ps_priority = 1, ps_requires_ack = True\<rparr>\<rparr>"

lemma one_alert_tables:
  "sv_definitions (demo_run one_alert) = [(''A.alert_config'', demo_definition)] \<and>
   sv_by_output (demo_run one_alert) = [(''A.alert'', ''A.alert_config'')] \<and>
   sv_parents (demo_run one_alert) = [] \<and>
   evaluateConfig (demo_definition\<lparr>ad_input := Some (VBool True)\<rparr>) (demo_run one_alert) =
     Some (Inr demo_evaluation)"
  by code_simp

text \<open>The same alert after a bad input: active, and pending until it is acknowledged.\<close>

definition demo_pending :: state where
  "demo_pending =
     zero_state\<lparr>st_version := 1, st_active := True, st_pending := True, st_text := ''bad'',
       st_presentation := ev_presentation demo_evaluation,
       st_came := Some \<lparr>instant = 13, location = ZoneUTC\<rparr>, st_episode := ''id''\<rparr>"

lemma one_alert_pending:
  "sv_by_output (demo_run (one_alert @ [InputValue [''A.alert_config''] ''A'' (VBool True)])) =
     [(''A.alert'', ''A.alert_config'')] \<and>
   sv_states (demo_run (one_alert @ [InputValue [''A.alert_config''] ''A'' (VBool True)])) =
     [(''A.alert'', demo_pending)]"
  by code_simp

end
