(* ===== verification/Alert_Settling.thy ===== *)
theory Alert_Settling
  imports Alert_Service_Spec
begin

text \<open>
  The passes of \<open>evaluateAllSummariesLocked\<close> settle. Evaluating the nodes of an acyclic graph over and over,
  in any order in each pass, settles at least one node more in every pass (locale \<open>settling\<close>, for any
  evaluation that obeys its laws); the summaries of a sound service obey them, so the bound of the code, one
  pass more than there are definitions, is never what ends the loop too early.
\<close>

section \<open>Repeated passes over an acyclic graph\<close>

text \<open>
  Evaluating a node settles it, evaluating a settled node changes nothing, and evaluating any other node
  matters only to the nodes that depend on it.
\<close>

locale settling =
  fixes inv :: "'s \<Rightarrow> bool" and nodes :: "'c set" and below :: "'c \<Rightarrow> 'c set"
    and evaluate :: "'c \<Rightarrow> 's \<Rightarrow> 's" and settled :: "'s \<Rightarrow> 'c \<Rightarrow> bool"
  assumes graph: "inv s \<Longrightarrow> finite nodes \<and> acyclic {(c, c'). c \<in> nodes \<and> c' \<in> nodes \<and> c' \<in> below c}"
    and keeps_inv: "inv s \<Longrightarrow> c \<in> nodes \<Longrightarrow> inv (evaluate c s)"
    and settles: "inv s \<Longrightarrow> c \<in> nodes \<Longrightarrow> settled (evaluate c s) c"
    and unrelated: "inv s \<Longrightarrow> c \<in> nodes \<Longrightarrow> c' \<in> nodes \<Longrightarrow> settled s c' \<Longrightarrow> c \<noteq> c' \<Longrightarrow> c \<notin> below c' \<Longrightarrow>
      settled (evaluate c s) c'"
    and quiet: "inv s \<Longrightarrow> c \<in> nodes \<Longrightarrow> c' \<in> nodes \<Longrightarrow> settled s c \<Longrightarrow> settled s c' \<Longrightarrow> settled (evaluate c s) c'"
begin

definition firm :: "'s \<Rightarrow> 'c set \<Rightarrow> bool" where
  "firm s F \<longleftrightarrow> inv s \<and> F \<subseteq> nodes \<and> (\<forall>c\<in>F. settled s c \<and> below c \<inter> nodes \<subseteq> F)"

lemma firm_evaluate:
  assumes "firm s F" and "c \<in> nodes"
  shows "firm (evaluate c s) F"
proof -
  have inv: "inv s" using assms(1) by (simp add: firm_def)
  have "settled (evaluate c s) c'" if "c' \<in> F" for c'
  proof -
    have c': "c' \<in> nodes" "settled s c'" "below c' \<inter> nodes \<subseteq> F" using assms(1) that by (auto simp: firm_def)
    show ?thesis
    proof (cases "c \<in> F")
      case True
      then have "settled s c" using assms(1) by (simp add: firm_def)
      then show ?thesis by (rule quiet [OF inv assms(2) c'(1) _ c'(2)])
    next
      case False
      then have "c \<noteq> c'" "c \<notin> below c'" using that c'(3) assms(2) by auto
      then show ?thesis by (rule unrelated [OF inv assms(2) c'(1,2)])
    qed
  qed
  then show ?thesis using assms keeps_inv [OF inv assms(2)] by (auto simp: firm_def)
qed

definition pass :: "'c list \<Rightarrow> 's \<Rightarrow> 's" where
  "pass order s = fold (\<lambda>c s. if c \<in> nodes then evaluate c s else s) order s"

lemma firm_pass: "firm s F \<Longrightarrow> firm (pass order s) F"
  by (induction order arbitrary: s) (simp_all add: pass_def firm_evaluate)

lemma firm_evaluated:
  assumes "firm s F" and "c \<in> nodes" and "below c \<inter> nodes \<subseteq> F"
  shows "firm (evaluate c s) (insert c F)"
  using firm_evaluate [OF assms(1,2)] settles [OF _ assms(2), of s] assms by (auto simp: firm_def)

lemma firm_pass_more:
  assumes "firm s F" and "c \<in> nodes" and "below c \<inter> nodes \<subseteq> F" and "c \<in> set order"
  shows "firm (pass order s) (insert c F)"
  using assms(1,4)
proof (induction order arbitrary: s)
  case (Cons a order)
  show ?case
  proof (cases "a = c")
    case True
    then show ?thesis
      using firm_pass [OF firm_evaluated [OF Cons.prems(1) assms(2,3)], of order] assms(2) by (simp add: pass_def)
  next
    case False
    then show ?thesis
      using Cons.IH [of "if a \<in> nodes then evaluate a s else s"] Cons.prems firm_evaluate [OF Cons.prems(1), of a]
      by (simp add: pass_def)
  qed
qed simp

text \<open>As long as some node is not firm, there is one whose dependencies are.\<close>

lemma next_firm:
  assumes "firm s F" and "F \<noteq> nodes"
  obtains c where "c \<in> nodes - F" "below c \<inter> nodes \<subseteq> F"
proof -
  let ?r = "{(c, c'). c \<in> nodes \<and> c' \<in> nodes \<and> c' \<in> below c}"
  have inv: "inv s" using assms(1) by (simp add: firm_def)
  have "finite (nodes \<times> nodes)" using graph [OF inv] by simp
  moreover have "?r \<subseteq> nodes \<times> nodes" by auto
  ultimately have "finite ?r" by (rule finite_subset [rotated])
  then have wf: "wf (?r\<inverse>)" using graph [OF inv] by (simp add: finite_acyclic_wf_converse)
  obtain x where "x \<in> nodes - F" using assms by (auto simp: firm_def)
  then obtain c where c: "c \<in> nodes - F" "\<forall>y. (y, c) \<in> ?r\<inverse> \<longrightarrow> y \<notin> nodes - F"
    by (rule wfE_min [OF wf])  blast
  have "below c \<inter> nodes \<subseteq> F" using c by auto
  then show ?thesis using that c(1) by blast
qed

lemma firm_progress:
  assumes "firm s F" and "F \<noteq> nodes" and "nodes \<subseteq> set order"
  obtains c where "c \<in> nodes - F" "firm (pass order s) (insert c F)"
proof -
  obtain c where c: "c \<in> nodes - F" "below c \<inter> nodes \<subseteq> F" by (rule next_firm [OF assms(1,2)])
  then have "firm (pass order s) (insert c F)" using firm_pass_more [OF assms(1) _ c(2)] assms(3) by blast
  then show ?thesis using that c(1) by blast
qed

text \<open>So as many passes as there are nodes are enough, each in an order of its own.\<close>

lemma passes_settle:
  assumes "firm s F" and "card (nodes - F) \<le> length orders" and "\<And>order. order \<in> set orders \<Longrightarrow> nodes \<subseteq> set order"
  shows "firm (fold pass orders s) nodes"
  using assms
proof (induction orders arbitrary: s F)
  case Nil
  then have "nodes - F = {}" using graph [of s] by (simp add: firm_def)
  then have "F = nodes" using Nil.prems(1) by (auto simp: firm_def)
  then show ?case using Nil.prems(1) by simp
next
  case (Cons order orders)
  have all: "nodes \<subseteq> set order" using Cons.prems(3) by simp
  show ?case
  proof (cases "F = nodes")
    case True
    then have "firm (pass order s) nodes" using firm_pass [OF Cons.prems(1)] by simp
    then show ?thesis using Cons.IH [of "pass order s" nodes] Cons.prems(3) by simp
  next
    case False
    then obtain c where c: "c \<in> nodes - F" "firm (pass order s) (insert c F)"
      using firm_progress [OF Cons.prems(1) _ all] by blast
    have "finite (nodes - F)" using graph [of s] Cons.prems(1) by (simp add: firm_def)
    then have "card (nodes - insert c F) < card (nodes - F)" using c(1) by (intro psubset_card_mono) auto
    then show ?thesis using Cons.IH [OF c(2)] Cons.prems(2,3) by simp
  qed
qed

end

section \<open>Summaries\<close>

lemma next_state_idem: "next_state (Some (next_state p ev t e)) ev t' e' = next_state p ev t e"
  by (auto simp: next_state_def carried_def started_def was_pending_def new_episode_pending_def Let_def)

lemma gatherMembers_cong:
  "(\<And>m. m \<in> set ms \<Longrightarrow> map_of a m = map_of b m) \<Longrightarrow> gatherMembers a ms acc = gatherMembers b ms acc"
  by (induction ms arbitrary: acc) (auto split: option.split)

definition summary_evaluation :: "alert_definition \<Rightarrow> service \<Rightarrow> evaluation" where
  "summary_evaluation d sv = outcome (the (evaluateConfig d sv))"

lemma summary_evaluation_cong:
  assumes "is_summary d" and "\<And>m. m \<in> set (config_members (ad_config d)) \<Longrightarrow> map_of (sv_states a) m = map_of (sv_states b) m"
  shows "summary_evaluation d a = summary_evaluation d b"
  using assms
  by (auto simp: summary_evaluation_def evaluateConfig_def is_summary_def config_members_def
      cong: gatherMembers_cong split: option.split)

definition summary_settled :: "service \<Rightarrow> alert_definition \<Rightarrow> bool" where
  "summary_settled sv d \<longleftrightarrow>
     (\<exists>s. map_of (sv_states sv) (ad_output d) = Some s \<and> (\<forall>t e. next_state (Some s) (summary_evaluation d sv) t e = s))"

lemma summary_settled_cong:
  assumes "is_summary d" and "map_of (sv_states a) (ad_output d) = map_of (sv_states b) (ad_output d)"
    and "\<And>m. m \<in> set (config_members (ad_config d)) \<Longrightarrow> map_of (sv_states a) m = map_of (sv_states b) m"
  shows "summary_settled a d = summary_settled b d"
  using summary_evaluation_cong [OF assms(1,3)] assms(2) by (simp add: summary_settled_def)

lemma summary_states:
  assumes "dependable env" and "sound env sv" and d: "the_definitions sv c = Some d" and "is_summary d"
  obtains t e where "map_of (sv_states (evaluateDefinitionLocked env c sv)) =
    (map_of (sv_states sv))(ad_output d \<mapsto> next_state (map_of (sv_states sv) (ad_output d)) (summary_evaluation d sv) t e)"
proof -
  have inst: "installed c d" using assms(2) d by (auto simp: sound_def intro: wired_installed)
  then have "ok (validate_config (ad_config d))" by (simp add: installed_def)
  with assms(4) obtain r where r: "evaluateConfig d sv = Some r"
    by (auto simp: evaluateConfig_def is_summary_def validate_config_ok)
  then have ev: "summary_evaluation d sv = outcome r" by (simp add: summary_evaluation_def)
  have wf: "wf_evaluation (outcome r)"
    using evaluateConfig_wf [of d sv] r wf_inactive inst by (auto simp: outcome_def installed_def split: sum.split)
  let ?x = "ad_output d" and ?t = "en_now env (sv_calls sv)" and ?e = "en_new_id env (sv_calls sv)"
  let ?next = "next_state (map_of (sv_states sv) ?x) (outcome r) ?t ?e"
  have app: "ApplyEvaluation (map_of (sv_states sv) ?x) (outcome r) ?t ?e = Inr ?next"
    using assms(1,2) wf by (simp add: ApplyEvaluation_wf dependable_def states_valid_def sound_def)
  have "evaluateDefinitionLocked env c sv = applyLocked env ?x (outcome r) sv"
    using d r by (auto simp: evaluateDefinitionLocked_def the_definitions_def makeInactiveLocked_def
        outcome_def inactive_evaluation_def split: sum.split)
  moreover have "ok (MarshalState (en_codec env) ?next)"
    using ApplyEvaluation_valid [OF app] by (rule dependable_marshal [OF assms(1)])
  ultimately have "map_of (sv_states (evaluateDefinitionLocked env c sv)) y =
      ((map_of (sv_states sv))(?x \<mapsto> ?next)) y" for y
    using app by (simp add: applyLocked_def states_storeAndPublish)
  then show ?thesis using that [of ?t ?e] ev by (simp add: fun_eq_iff)
qed

lemma summary_not_member:
  assumes "sound env sv" and "the_definitions sv c = Some d" and "is_summary d"
  shows "ad_output d \<notin> set (config_members (ad_config d))"
proof
  assume "ad_output d \<in> set (config_members (ad_config d))"
  then have "(ad_output d, ad_output d) \<in> summary_graph (the_definitions sv)"
    using assms(2,3) by (auto simp: summary_graph_def)
  then show False using assms(1) by (auto simp: sound_def acyclic_def)
qed

lemma output_of_one:
  "wired sv \<Longrightarrow> the_definitions sv c = Some d \<Longrightarrow> the_definitions sv c' = Some d' \<Longrightarrow> ad_output d = ad_output d' \<Longrightarrow> c = c'"
  unfolding wired_def by (metis option.inject)

definition summary_nodes :: "(string \<rightharpoonup> alert_definition) \<Rightarrow> string set" where
  "summary_nodes D = {c. \<exists>d. D c = Some d \<and> is_summary d}"

definition summary_below :: "(string \<rightharpoonup> alert_definition) \<Rightarrow> string \<Rightarrow> string set" where
  "summary_below D c =
     {c'. \<exists>d d'. D c = Some d \<and> D c' = Some d' \<and> ad_output d' \<in> set (config_members (ad_config d))}"

definition settling_service :: "env \<Rightarrow> (string \<rightharpoonup> alert_definition) \<Rightarrow> service \<Rightarrow> bool" where
  "settling_service env D sv \<longleftrightarrow> dependable env \<and> sound env sv \<and> the_definitions sv = D"

definition settled_definition :: "(string \<rightharpoonup> alert_definition) \<Rightarrow> service \<Rightarrow> string \<Rightarrow> bool" where
  "settled_definition D sv c \<longleftrightarrow> (\<forall>d. D c = Some d \<longrightarrow> summary_settled sv d)"

lemma summary_nodes_acyclic:
  assumes "sound env sv" and D: "the_definitions sv = D"
  shows "acyclic {(c, c'). c \<in> summary_nodes D \<and> c' \<in> summary_nodes D \<and> c' \<in> summary_below D c}" (is "acyclic ?r")
proof -
  let ?out = "\<lambda>c. ad_output (the (D c))"
  have "(?out a, ?out b) \<in> (summary_graph D)\<^sup>+" if "(a, b) \<in> ?r\<^sup>+" for a b
    using that
  proof (induction rule: trancl_induct)
    case (base b)
    then show ?case by (fastforce simp: summary_nodes_def summary_below_def summary_graph_def intro!: r_into_trancl)
  next
    case (step b c)
    then have "(?out b, ?out c) \<in> summary_graph D"
      by (fastforce simp: summary_nodes_def summary_below_def summary_graph_def)
    then show ?case using step.IH by simp
  qed
  then show ?thesis using assms by (auto simp: acyclic_def sound_def)
qed

lemma settled_evaluate:
  assumes "settling_service env D sv" and "D c = Some d" and "is_summary d"
  shows "summary_settled (evaluateDefinitionLocked env c sv) d"
proof -
  note sv = assms(1) [unfolded settling_service_def]
  then have D: "the_definitions sv c = Some d" using assms(2) by simp
  obtain t e where states: "map_of (sv_states (evaluateDefinitionLocked env c sv)) =
    (map_of (sv_states sv))(ad_output d \<mapsto> next_state (map_of (sv_states sv) (ad_output d)) (summary_evaluation d sv) t e)"
    using summary_states [OF _ _ D assms(3)] sv by metis
  have "ad_output d \<notin> set (config_members (ad_config d))" using summary_not_member [of env, OF _ D assms(3)] sv by simp
  then have "summary_evaluation d (evaluateDefinitionLocked env c sv) = summary_evaluation d sv"
    by (intro summary_evaluation_cong [OF assms(3)]) (auto simp: states)
  then show ?thesis by (simp add: summary_settled_def states next_state_idem)
qed

lemma settled_quiet:
  assumes "settling_service env D sv" and "D c = Some d" and "is_summary d" and "summary_settled sv d"
  shows "map_of (sv_states (evaluateDefinitionLocked env c sv)) = map_of (sv_states sv)"
proof -
  note sv = assms(1) [unfolded settling_service_def]
  then have D: "the_definitions sv c = Some d" using assms(2) by simp
  obtain t e where states: "map_of (sv_states (evaluateDefinitionLocked env c sv)) =
    (map_of (sv_states sv))(ad_output d \<mapsto> next_state (map_of (sv_states sv) (ad_output d)) (summary_evaluation d sv) t e)"
    using summary_states [OF _ _ D assms(3)] sv by metis
  then show ?thesis using assms(4) by (auto simp: summary_settled_def fun_eq_iff)
qed

lemma settled_unrelated:
  assumes "settling_service env D sv" and "D c = Some d" "is_summary d" and "D c' = Some d'" "is_summary d'"
    and "summary_settled sv d'" and "c \<noteq> c'" and "c \<notin> summary_below D c'"
  shows "summary_settled (evaluateDefinitionLocked env c sv) d'"
proof -
  note sv = assms(1) [unfolded settling_service_def]
  then have D: "the_definitions sv c = Some d" "the_definitions sv c' = Some d'" using assms(2,4) by simp_all
  obtain t e where states: "map_of (sv_states (evaluateDefinitionLocked env c sv)) =
    (map_of (sv_states sv))(ad_output d \<mapsto> next_state (map_of (sv_states sv) (ad_output d)) (summary_evaluation d sv) t e)"
    using summary_states [OF _ _ D(1) assms(3)] sv by metis
  have "ad_output d \<noteq> ad_output d'" using output_of_one [OF _ D] sv assms(7) by (auto simp: sound_def)
  moreover have "ad_output d \<notin> set (config_members (ad_config d'))"
    using assms(2,4,8) by (auto simp: summary_below_def)
  ultimately have "summary_settled (evaluateDefinitionLocked env c sv) d' = summary_settled sv d'"
    by (intro summary_settled_cong [OF assms(5)]) (auto simp: states)
  then show ?thesis using assms(6) by simp
qed

interpretation summaries: settling "settling_service env D" "summary_nodes D" "summary_below D"
  "evaluateDefinitionLocked env" "settled_definition D" for env D
proof unfold_locales
  fix sv c c'
  assume sv: "settling_service env D sv"
  have "finite (dom D)" using sv by (auto simp: settling_service_def the_definitions_def finite_dom_map_of)
  moreover have "summary_nodes D \<subseteq> dom D" by (auto simp: summary_nodes_def)
  ultimately show "finite (summary_nodes D) \<and>
      acyclic {(c, c'). c \<in> summary_nodes D \<and> c' \<in> summary_nodes D \<and> c' \<in> summary_below D c}"
    using summary_nodes_acyclic sv finite_subset by (auto simp: settling_service_def)
  assume "c \<in> summary_nodes D"
  then obtain d where d: "D c = Some d" "is_summary d" by (auto simp: summary_nodes_def)
  show "settling_service env D (evaluateDefinitionLocked env c sv)"
    using sv sound_step [OF state_step_evaluateDefinition] definitions_static [OF definition_op.static]
    by (simp add: settling_service_def)
  show "settled_definition D (evaluateDefinitionLocked env c sv) c"
    using settled_evaluate [OF sv d] d(1) by (simp add: settled_definition_def)
  assume "c' \<in> summary_nodes D"
  then obtain d' where d': "D c' = Some d'" "is_summary d'" by (auto simp: summary_nodes_def)
  assume settled: "settled_definition D sv c'"
  then have s': "summary_settled sv d'" using d'(1) by (simp add: settled_definition_def)
  show "settled_definition D (evaluateDefinitionLocked env c sv) c'"
    if "c \<noteq> c'" "c \<notin> summary_below D c'"
    using settled_unrelated [OF sv d d' s' that] d'(1) by (simp add: settled_definition_def)
next
  fix sv c c'
  assume sv: "settling_service env D sv" and c: "c \<in> summary_nodes D" "c' \<in> summary_nodes D"
    and settled: "settled_definition D sv c" "settled_definition D sv c'"
  then obtain d d' where d: "D c = Some d" "is_summary d" "D c' = Some d'" "is_summary d'"
    by (auto simp: summary_nodes_def)
  then have "map_of (sv_states (evaluateDefinitionLocked env c sv)) = map_of (sv_states sv)"
    using settled_quiet [OF sv d(1,2)] settled(1) by (simp add: settled_definition_def)
  then show "settled_definition D (evaluateDefinitionLocked env c sv) c'"
    using settled(2) d summary_settled_cong [OF d(4), of "evaluateDefinitionLocked env c sv" sv]
    by (simp add: settled_definition_def)
qed

section \<open>The passes of the code\<close>

lemma summaryPass_pass:
  assumes "settling_service env D sv"
  shows "fst (summaryPass env order changed sv) = summaries.pass D env order sv"
  using assms
proof (induction order arbitrary: changed sv)
  case (Cons c order)
  have D: "map_of (sv_definitions sv) = D" using Cons.prems by (simp add: settling_service_def the_definitions_def)
  show ?case
  proof (cases "c \<in> summary_nodes D")
    case True
    then obtain d where d: "D c = Some d" "is_summary d" by (auto simp: summary_nodes_def)
    show ?thesis
      using Cons.IH [OF summaries.keeps_inv [OF Cons.prems True]] d True D
      by (simp add: summaries.pass_def Let_def)
  next
    case False
    then have "summaries.pass D env (c # order) sv = summaries.pass D env order sv"
      by (simp add: summaries.pass_def)
    moreover have "summaryPass env (c # order) changed sv = summaryPass env order changed sv"
      using False D by (auto simp: summary_nodes_def split: option.split)
    ultimately show ?thesis using Cons.IH [OF Cons.prems] by simp
  qed
qed (simp add: summaries.pass_def)

text \<open>A pass that reports no change has found every summary settled.\<close>

lemma zero_state_invalid: "\<not> ok (validate_state zero_state)"
  by (simp add: validate_state_ok zero_state_def CurrentVersion_def)

lemma state_at_unchanged:
  assumes "state_at sv x = state_at sv' x" and "states_valid sv" and "states_valid sv'"
    and "map_of (sv_states sv') x \<noteq> None"
  shows "map_of (sv_states sv') x = map_of (sv_states sv) x"
  using assms zero_state_invalid
  by (cases "map_of (sv_states sv) x"; cases "map_of (sv_states sv') x") (auto simp: state_at_def states_valid_def)

lemma unchanged_evaluation:
  assumes "settling_service env D sv" and "D c = Some d" and "is_summary d"
    and "state_at sv (ad_output d) = state_at (evaluateDefinitionLocked env c sv) (ad_output d)"
  shows "map_of (sv_states (evaluateDefinitionLocked env c sv)) = map_of (sv_states sv)"
proof -
  note sv = assms(1) [unfolded settling_service_def]
  then have D: "the_definitions sv c = Some d" using assms(2) by simp
  obtain t e where states: "map_of (sv_states (evaluateDefinitionLocked env c sv)) =
    (map_of (sv_states sv))(ad_output d \<mapsto> next_state (map_of (sv_states sv) (ad_output d)) (summary_evaluation d sv) t e)"
    using summary_states [OF _ _ D assms(3)] sv by metis
  have "states_valid sv" "states_valid (evaluateDefinitionLocked env c sv)"
    using sv definition_op.valid by (auto simp: sound_def)
  from state_at_unchanged [OF assms(4) this] show ?thesis by (auto simp: states fun_eq_iff)
qed

lemma unchanged_pass:
  assumes "settling_service env D sv" and "\<not> snd (summaryPass env order changed sv)"
  shows "\<not> changed \<and> map_of (sv_states (fst (summaryPass env order changed sv))) = map_of (sv_states sv) \<and>
    (\<forall>c\<in>set order. \<forall>d. D c = Some d \<longrightarrow> is_summary d \<longrightarrow> summary_settled sv d)"
  using assms
proof (induction order arbitrary: changed sv)
  case (Cons c order)
  have D: "map_of (sv_definitions sv) = D" using Cons.prems(1) by (simp add: settling_service_def the_definitions_def)
  show ?case
  proof (cases "c \<in> summary_nodes D")
    case True
    then obtain d where d: "D c = Some d" "is_summary d" by (auto simp: summary_nodes_def)
    let ?sv = "evaluateDefinitionLocked env c sv"
    define ch where "ch \<longleftrightarrow> changed \<or> state_at sv (ad_output d) \<noteq> state_at ?sv (ad_output d)"
    have step: "summaryPass env (c # order) changed sv = summaryPass env order ch ?sv"
      using d D by (simp add: Let_def ch_def)
    then have "\<not> snd (summaryPass env order ch ?sv)" using Cons.prems(2) by simp
    from Cons.IH [OF summaries.keeps_inv [OF Cons.prems(1) True] this]
    have IH: "\<not> ch" "map_of (sv_states (fst (summaryPass env order ch ?sv))) = map_of (sv_states ?sv)"
      "\<forall>c\<in>set order. \<forall>d. D c = Some d \<longrightarrow> is_summary d \<longrightarrow> summary_settled ?sv d" by blast+
    have same: "map_of (sv_states ?sv) = map_of (sv_states sv)"
      using unchanged_evaluation [OF Cons.prems(1) d] IH(1) by (simp add: ch_def)
    have settled: "summary_settled ?sv e = summary_settled sv e" if "is_summary e" for e
      by (rule summary_settled_cong [OF that]) (simp_all add: same)
    then have "summary_settled sv d" using settled_evaluate [OF Cons.prems(1) d] d(2) by simp
    then show ?thesis
      using IH(1,3) IH(2) [unfolded same] settled d(1) unfolding step by (simp add: ch_def)
  next
    case False
    then have step: "summaryPass env (c # order) changed sv = summaryPass env order changed sv"
      using D by (auto simp: summary_nodes_def split: option.split)
    have "\<forall>d. D c = Some d \<longrightarrow> \<not> is_summary d" using False by (auto simp: summary_nodes_def)
    then show ?thesis
      using Cons.IH [OF Cons.prems(1) Cons.prems(2) [unfolded step]] unfolding step by auto
  qed
qed simp

lemma unchanged_pass_firm:
  assumes "settling_service env D sv" and "summaryPass env order False sv = (sv', False)" and "summary_nodes D \<subseteq> set order"
  shows "summaries.firm env D sv' (summary_nodes D)"
proof -
  have inv: "settling_service env D sv'"
    using summaries.firm_pass [of env D sv "{}" order] summaryPass_pass [OF assms(1), of order False] assms(1,2)
    by (simp add: summaries.firm_def)
  from unchanged_pass [OF assms(1), of order False] assms(2)
  have same: "map_of (sv_states sv') = map_of (sv_states sv)"
    and settled: "\<forall>c\<in>set order. \<forall>d. D c = Some d \<longrightarrow> is_summary d \<longrightarrow> summary_settled sv d" by simp_all
  have "settled_definition D sv' c" if c: "c \<in> summary_nodes D" for c
  proof -
    obtain d where d: "D c = Some d" "is_summary d" using c by (auto simp: summary_nodes_def)
    then have "summary_settled sv d" using settled c assms(3) by blast
    then show ?thesis using d summary_settled_cong [OF d(2), of sv' sv] by (simp add: settled_definition_def same)
  qed
  then show ?thesis using inv by (simp add: summaries.firm_def)
qed

lemma summaryPasses_settle:
  assumes "summaries.firm env D sv F" and "card (summary_nodes D - F) \<le> n" and "\<And>i. summary_nodes D \<subseteq> set (order i)"
  shows "summaries.firm env D (summaryPasses env order n sv) (summary_nodes D)"
  using assms(1,2)
proof (induction n arbitrary: sv F)
  case 0
  then show ?case using summaries.passes_settle [of env D sv F "[]"] by simp
next
  case (Suc n)
  have inv: "settling_service env D sv" using Suc.prems(1) by (simp add: summaries.firm_def)
  obtain sv' changed where pass: "summaryPass env (order n) False sv = (sv', changed)" by fastforce
  then have sv': "sv' = summaries.pass D env (order n) sv" using summaryPass_pass [OF inv, of "order n" False] by simp
  show ?case
  proof (cases changed)
    case False
    then show ?thesis using unchanged_pass_firm [OF inv _ assms(3)] pass by simp
  next
    case True
    have "\<exists>F'. summaries.firm env D sv' F' \<and> card (summary_nodes D - F') \<le> n"
    proof (cases "F = summary_nodes D")
      case True
      then have "summaries.firm env D sv' (summary_nodes D)" using summaries.firm_pass [OF Suc.prems(1)] sv' by simp
      then show ?thesis by (intro exI [of _ "summary_nodes D"]) simp
    next
      case False
      obtain c where c: "c \<in> summary_nodes D - F" "summaries.firm env D sv' (insert c F)"
        using summaries.firm_progress [OF Suc.prems(1) False assms(3)] sv' by metis
      have "finite (summary_nodes D - F)" using summaries.graph [OF inv] by simp
      then have "card (summary_nodes D - insert c F) < card (summary_nodes D - F)"
        using c(1) by (intro psubset_card_mono) auto
      then show ?thesis using c(2) Suc.prems(2) by (intro exI [of _ "insert c F"]) simp
    qed
    then show ?thesis using Suc.IH True pass by auto
  qed
qed

lemma all_summaries_settle:
  assumes "dependable env" and "sound env sv" and "\<And>i. set (map fst (sv_definitions sv)) \<subseteq> set (order i)"
  defines "sv' \<equiv> evaluateAllSummariesLocked env order sv"
  assumes d: "the_definitions sv c = Some d" "is_summary d"
  shows "summary_settled sv' d" and "map_of (sv_states (evaluateDefinitionLocked env c sv')) = map_of (sv_states sv')"
proof -
  let ?D = "the_definitions sv"
  have nodes: "summary_nodes ?D \<subseteq> set (map fst (sv_definitions sv))"
    by (auto simp: summary_nodes_def the_definitions_def dest: map_of_SomeD intro: rev_image_eqI)
  have "card (summary_nodes ?D) \<le> card (set (map fst (sv_definitions sv)))" by (rule card_mono [OF _ nodes]) simp
  also have "\<dots> \<le> length (sv_definitions sv)" using card_length [of "map fst (sv_definitions sv)"] by simp
  finally have card: "card (summary_nodes ?D - {}) \<le> Suc (length (sv_definitions sv))" by simp
  have "summaries.firm env ?D sv {}" using assms(1,2) by (simp add: summaries.firm_def settling_service_def)
  then have "summaries.firm env ?D sv' (summary_nodes ?D)"
    unfolding sv'_def evaluateAllSummariesLocked_def
    by (rule summaryPasses_settle [OF _ card]) (use nodes assms(3) in blast)
  moreover have "c \<in> summary_nodes ?D" using d by (auto simp: summary_nodes_def)
  ultimately have "settled_definition ?D sv' c" and inv: "settling_service env ?D sv'"
    by (auto simp: summaries.firm_def)
  then show settled: "summary_settled sv' d" using d(1) by (simp add: settled_definition_def)
  show "map_of (sv_states (evaluateDefinitionLocked env c sv')) = map_of (sv_states sv')"
    by (rule settled_quiet [OF inv d settled])
qed

lemma settled_reflects:
  "summary_settled sv d \<Longrightarrow> \<exists>s. map_of (sv_states sv) (ad_output d) = Some s \<and> reflects (summary_evaluation d sv) s"
  using reflects_next_state unfolding summary_settled_def by metis

end
