(* ===== verification/Alert_Properties.thy ===== *)
theory Alert_Properties
  imports Alert_Scenarios Alert_Settling
begin

text \<open>
  The properties of the alert package: its protocol, its evaluators and lifecycle, and its service,
  each with a witness where it has hypotheses.
\<close>

section \<open>Service\<close>

text \<open>C1. Whatever the bus, the clock and Go's map order do, after any history of runs, events and
  stops the service is sound: every definition is valid, enabled and filed under its own output,
  \<open>byOutput\<close> and \<open>parents\<close> are the inverses of the outputs and of the members, the summaries form no
  cycle, every stored state is valid, and every message published encodes a valid state.\<close>

theorem service_always_sound:
  assumes "reachable env sv"
  shows "sound env sv"
  using assms by (rule reachable_sound)

theorem service_always_sound_witness:
  "sound demo_env (demo_run two_alerts)"
  by (rule service_always_sound [OF reachable_demo])

text \<open>C5. The depth-first test for a dependency cycle answers yes exactly when a cycle of summaries
  can be reached from the output, on any tables.\<close>

theorem summary_cycle_decided:
  "summaryCycleLocked sv start \<longleftrightarrow>
     (\<exists>x. (start, x) \<in> (member_graph sv)\<^sup>* \<and> (x, x) \<in> (member_graph sv)\<^sup>+)"
  by (rule summaryCycle_iff)



text \<open>A write on an owned alert that is neither its canonical state nor an acknowledgement is
  answered: afterwards the newest message on the subject is the canonical state, or the subject is
  marked dirty because the publication failed.\<close>

theorem external_write_answered:
  assumes "map_of (sv_by_output sv) x = Some c" and "map_of (sv_states sv) x = Some s"
    and "MarshalState (en_codec env) s = Inr enc"
    and "parseStateUnchecked (en_codec env) raw = Inr incoming" and "incoming \<noteq> s"
    and "\<not> (st_acknowledged incoming \<and> st_pending s \<and> st_episode incoming = st_episode s)"
  shows "announced env (reconcileStateLocked env x raw sv) x"
  by (rule reconcileState_owned_answer) (use assms in auto)

theorem external_write_answered_witness:
  "announced demo_env (reconcileStateLocked demo_env ''A.alert'' ''ack''
     (demo_run (one_alert @ [InputValue [''A.alert_config''] ''A'' (VBool True)]))) ''A.alert''"
proof -
  have "ok (validate_state demo_pending)"
    by code_simp
  then have "MarshalState (en_codec demo_env) demo_pending = Inr ''state''"
    by (simp add: MarshalState_def demo_env_def demo_codec_def ok_unit_iff [symmetric])
  moreover have "parseStateUnchecked (en_codec demo_env) ''ack'' = Inr demo_ack"
    by (simp add: parseStateUnchecked_def demo_env_def demo_codec_def)
  moreover have "demo_ack \<noteq> demo_pending" "st_episode demo_ack \<noteq> st_episode demo_pending"
    by (simp_all add: demo_ack_def demo_pending_def zero_state_def)
  ultimately show ?thesis
    using external_write_answered [of _ "''A.alert''" "''A.alert_config''" demo_pending demo_env
        "''state''" "''ack''" demo_ack] one_alert_pending
    by simp
qed

text \<open>On a sound service, an input accepted for a definition leaves its output in the state its
  configuration asks for: the evaluation, or the inactive state when it cannot be evaluated.\<close>

theorem accepted_input_is_reflected:
  assumes "dependable env" and "sound env sv" and "the_definitions sv c = Some d"
    and "evaluateConfig (d\<lparr>ad_input := Some v\<rparr>) sv = Some r"
  shows "\<exists>st. map_of (sv_states (acceptInputLocked env c d v sv)) (ad_output d) = Some st \<and>
    reflects (outcome r) st"
  using assms by (intro acceptInput_reflects) simp_all

theorem accepted_input_is_reflected_witness:
  "\<exists>st. map_of (sv_states (acceptInputLocked demo_env ''A.alert_config'' demo_definition (VBool True)
       (demo_run one_alert))) ''A.alert'' = Some st \<and> reflects demo_evaluation st"
proof -
  have "ad_output demo_definition = ''A.alert''"
    by (simp add: demo_definition_def)
  then show ?thesis
    using accepted_input_is_reflected [OF dependable_demo reachable_sound [OF reachable_demo],
        of one_alert "''A.alert_config''" demo_definition "VBool True" "Inr demo_evaluation"]
      one_alert_tables
    by (simp add: the_definitions_def outcome_def)
qed

text \<open>C10. The breadth-first search re-evaluates the definitions whose output depends on the changed
  one, all of them and no other, and terminates.\<close>

theorem ancestors_are_evaluated:
  assumes "sound env sv"
  shows "snd (evaluateAncestorsLocked env out {} sv) =
    {c. \<exists>d. the_definitions sv c = Some d \<and>
        (ad_output d, out) \<in> (summary_graph (the_definitions sv))\<^sup>+}"
proof -
  from assms have wired: "wired sv" by (simp add: sound_def)
  show ?thesis
    by (rule set_eqI)
      (simp only: evaluateAncestors_seen ancestors_iff [OF wired] mem_Collect_eq)
qed

theorem ancestors_are_evaluated_witness:
  "snd (evaluateAncestorsLocked demo_env ''A.alert'' {} (demo_run diamond)) =
     {c. \<exists>d. the_definitions (demo_run diamond) c = Some d \<and>
         (ad_output d, ''A.alert'') \<in> (summary_graph (the_definitions (demo_run diamond)))\<^sup>+}"
  by (rule ancestors_are_evaluated [OF reachable_sound [OF reachable_demo]])

text \<open>C11. Every state that re-evaluating the ancestors changes is afterwards the newest message of
  its subject, or the subject is marked dirty so that the next evaluation publishes it.\<close>

theorem changed_states_are_announced:
  "map_of (sv_states (evaluateAncestors env out sv)) x = map_of (sv_states sv) x \<or>
   announced env (evaluateAncestors env out sv) x"
  using ancestors_op.changes_announced by blast

section \<open>Lifecycle\<close>

text \<open>C12. When all summaries are evaluated over and over after loading, in any order in each pass, the bound of
  one pass more than there are definitions is enough: afterwards every summary reflects its members, and
  evaluating any of them again changes no state.\<close>

theorem summaries_settle_within_the_bound:
  assumes "dependable env" and "sound env sv" and "\<forall>i. set (map fst (sv_definitions sv)) \<subseteq> set (order i)"
    and "the_definitions sv c = Some d" and "is_summary d"
  defines "sv' \<equiv> evaluateAllSummariesLocked env order sv"
  shows "(\<exists>st. map_of (sv_states sv') (ad_output d) = Some st \<and> reflects (outcome (the (evaluateConfig d sv'))) st) \<and>
    map_of (sv_states (evaluateDefinitionLocked env c sv')) = map_of (sv_states sv')"
  using all_summaries_settle [OF assms(1,2) _ assms(4,5), of order] settled_reflects assms(3)
  by (simp add: sv'_def summary_evaluation_def)

theorem summaries_settle_within_the_bound_witness:
  "\<exists>st. map_of (sv_states (evaluateAllSummariesLocked demo_env (\<lambda>_. order_AP) (demo_run diamond))) ''T.alert'' = Some st"
proof -
  let ?sv = "demo_run diamond"
  have "(map_option (\<lambda>d. (ad_output d, is_summary d)) (map_of (sv_definitions ?sv) ''T.alert_config''),
      list_all (\<lambda>c. c \<in> set order_AP) (map fst (sv_definitions ?sv))) = (Some (''T.alert'', True), True)"
    by code_simp
  then have top: "map_option (\<lambda>d. (ad_output d, is_summary d)) (map_of (sv_definitions ?sv) ''T.alert_config'') =
      Some (''T.alert'', True)" and all: "list_all (\<lambda>c. c \<in> set order_AP) (map fst (sv_definitions ?sv))"
    by (simp_all only: prod.inject)
  from top obtain d where d: "the_definitions ?sv ''T.alert_config'' = Some d" "ad_output d = ''T.alert''" "is_summary d"
    by (auto simp: the_definitions_def)
  from all have "set (map fst (sv_definitions ?sv)) \<subseteq> set order_AP" by (auto simp: list_all_iff)
  then show ?thesis
    using summaries_settle_within_the_bound [OF dependable_demo reachable_sound [OF reachable_demo], of diamond "\<lambda>_. order_AP"]
      d by fastforce
qed

text \<open>C6. In the life of an alert, driven by any evaluations and acknowledgements at times that do
  not go back, every state is valid, the alert came before it went and before it was acknowledged,
  no timestamp lies after the clock, an episode has a name exactly when it has a start, and an end
  exactly when it has started and is not active.\<close>

theorem lifecycle_keeps_order:
  assumes "lifecycle (Some s) now"
  shows "lifecycle_inv s now"
  using lifecycle_invariant [OF assms] by simp

theorem lifecycle_keeps_order_witness:
  "\<exists>s. lifecycle_inv s 5 \<and> st_active s \<and> st_pending s"
proof -
  let ?t = "\<lparr>instant = 5, location = ZoneUTC\<rparr>"
  let ?s = "next_state None demo_evaluation ?t ''id''"
  have "wf_evaluation demo_evaluation" by code_simp
  then have "ApplyEvaluation None demo_evaluation ?t ''id'' = Inr ?s"
    by (simp add: ApplyEvaluation_wf)
  then have "lifecycle (Some ?s) 5"
    using lifecycle.evaluate [OF lifecycle.start, of 0 ?t] by simp
  then have "lifecycle_inv ?s 5"
    by (rule lifecycle_keeps_order)
  moreover have "st_active ?s" "st_pending ?s"
    by (simp_all add: next_state_fields new_episode_pending_def started_def demo_evaluation_def)
  ultimately show ?thesis by blast
qed

text \<open>C4. \<open>ApplyEvaluation\<close> accepts every evaluation the evaluators produce, on every valid state,
  as long as a new episode is given a name; it refuses nothing else, and what it returns is valid.\<close>

theorem evaluations_are_applied:
  assumes "(\<exists>c v ps. EvaluateBinary c v ps = Inr ev) \<or> (\<exists>c v ps. EvaluateValue c v ps = Inr ev) \<or>
    (\<exists>c ss. EvaluateSummary c ss = Inr ev)"
    and "\<forall>p. previous = Some p \<longrightarrow> ok (validate_state p)"
  shows "if ev_active ev \<and> \<not> started previous \<and> episodeID = []
    then \<not> ok (ApplyEvaluation previous ev time episodeID)
    else \<exists>s. ApplyEvaluation previous ev time episodeID = Inr s \<and> ok (validate_state s)"
proof -
  have wf: "wf_evaluation ev"
    using assms(1) EvaluateBinary_wf EvaluateValue_wf EvaluateSummary_wf by blast
  show ?thesis
    using ApplyEvaluation_wf [OF wf, of previous time episodeID] next_state_valid [OF wf assms(2)] assms(2)
    by (auto simp: ok_iff)
qed

theorem evaluations_are_applied_witness:
  "\<exists>s. ApplyEvaluation None demo_evaluation \<lparr>instant = 5, location = ZoneUTC\<rparr> ''id'' = Inr s \<and>
     ok (validate_state s)"
proof -
  have "EvaluateBinary demo_binary_config True (map_of [(demo_property, demo_properties True)]) =
      Inr demo_evaluation"
    by code_simp
  then have "(\<exists>c v ps. EvaluateBinary c v ps = Inr demo_evaluation) \<or>
      (\<exists>c v ps. EvaluateValue c v ps = Inr demo_evaluation) \<or>
      (\<exists>c ss. EvaluateSummary c ss = Inr demo_evaluation)"
    by blast
  then show ?thesis
    using evaluations_are_applied [of demo_evaluation None "''id''" "\<lparr>instant = 5, location = ZoneUTC\<rparr>"]
    by simp
qed



text \<open>\<open>Acknowledge\<close> succeeds exactly on a valid pending state for its own, named episode, and
  then changes nothing but the three acknowledgement fields.\<close>

theorem acknowledge_exactly:
  "Acknowledge p episodeID time = Inr s \<longleftrightarrow>
     ok (validate_state p) \<and> episodeID \<noteq> [] \<and> episodeID = st_episode p \<and> st_pending p \<and>
     s = p\<lparr>st_pending := False, st_acknowledged := True, st_ack := Some (utc time)\<rparr>"
  by (rule Acknowledge_iff)

section \<open>Evaluators\<close>

text \<open>In a valid int64 configuration every value lies in exactly one interval, and that
  interval is the one evaluated.\<close>

theorem int64_interval_is_unique:
  assumes "ok (validate_value c)" and "vc_type c = ValueTypeInt64"
  shows "\<exists>i<length (vc_intervals c). int_in (vc_intervals c ! i) v \<and>
    (\<forall>j<length (vc_intervals c). int_in (vc_intervals c ! j) v \<longrightarrow> j = i) \<and>
    EvaluateInt64 c v properties = evaluationForInterval (vc_intervals c ! i) properties"
  using assms by (rule int64_search)

definition demo_value :: "value_type \<Rightarrow> value_config" where
  "demo_value ty =
     \<lparr>vc_type = ty, vc_intervals =
        [\<lparr>iv_min = None, iv_max = Some ''10'', iv_active = False, iv_property = [], iv_text = ''low''\<rparr>,
         \<lparr>iv_min = Some ''10'', iv_max = None, iv_active = True, iv_property = demo_property,
          iv_text = ''high''\<rparr>]\<rparr>"

lemma demo_value_type: "vc_type (demo_value ty) = ty"
  by (simp add: demo_value_def)

lemma demo_value_length: "length (vc_intervals (demo_value ty)) = 2"
  by (simp add: demo_value_def)

theorem int64_interval_is_unique_witness:
  "\<exists>i<2. EvaluateInt64 (demo_value ValueTypeInt64) 12 Map.empty =
     evaluationForInterval (vc_intervals (demo_value ValueTypeInt64) ! i) Map.empty"
proof -
  have "ok (validate_value (demo_value ValueTypeInt64))" by code_simp
  then obtain i where "i < length (vc_intervals (demo_value ValueTypeInt64))"
      "EvaluateInt64 (demo_value ValueTypeInt64) 12 Map.empty =
        evaluationForInterval (vc_intervals (demo_value ValueTypeInt64) ! i) Map.empty"
    using int64_interval_is_unique [of "demo_value ValueTypeInt64" 12 Map.empty] demo_value_type
    by blast
  then show ?thesis
    by (intro exI [of _ i]) (simp add: demo_value_length)
qed

text \<open>C7. The same for a finite float64 value: IEEE comparison with the parsed bounds leaves exactly
  one interval.\<close>

theorem float64_interval_is_unique:
  assumes "ok (validate_value c)" and "vc_type c = ValueTypeFloat64"
    and "\<not> f64_nan v" and "\<not> f64_inf v"
  shows "\<exists>i<length (vc_intervals c). float_in (vc_intervals c ! i) v \<and>
    (\<forall>j<length (vc_intervals c). float_in (vc_intervals c ! j) v \<longrightarrow> j = i) \<and>
    EvaluateFloat64 c v properties = evaluationForInterval (vc_intervals c ! i) properties"
  using assms by (rule float64_search)

theorem float64_interval_is_unique_witness:
  "\<exists>i<2. EvaluateFloat64 (demo_value ValueTypeFloat64) 0 Map.empty =
     evaluationForInterval (vc_intervals (demo_value ValueTypeFloat64) ! i) Map.empty"
proof -
  have "ok (validate_value (demo_value ValueTypeFloat64))" by code_simp
  moreover have "\<not> f64_nan 0" "\<not> f64_inf 0" by code_simp+
  ultimately obtain i where "i < length (vc_intervals (demo_value ValueTypeFloat64))"
      "EvaluateFloat64 (demo_value ValueTypeFloat64) 0 Map.empty =
        evaluationForInterval (vc_intervals (demo_value ValueTypeFloat64) ! i) Map.empty"
    using float64_interval_is_unique [of "demo_value ValueTypeFloat64" 0 Map.empty] demo_value_type
    by blast
  then show ?thesis
    by (intro exI [of _ i]) (simp add: demo_value_length)
qed

text \<open>C8. A summary is active, or pending, exactly when one of its members is, it lists the members
  that are active or pending, in their order, and it shows the first member that no other outranks
  (active before inactive, then by priority).\<close>

theorem summary_shows_the_dominant_member:
  assumes "EvaluateSummary config states = Inr ev"
  shows "ev_members ev = shown states (sc_members config) \<and>
    ev_active ev = (\<exists>m\<in>set (sc_members config). \<exists>s. states m = Some s \<and> st_active s) \<and>
    ev_pending ev = (\<exists>m\<in>set (sc_members config). \<exists>s. states m = Some s \<and> st_pending s) \<and>
    (if shown states (sc_members config) = []
     then ev_dominant ev = [] \<and> ev_presentation ev = no_presentation
     else \<exists>s. dominates states (shown states (sc_members config)) (ev_dominant ev) s \<and>
       ev_presentation ev = st_presentation s \<and> ev_text ev = st_text s)"
  using EvaluateSummary_spec [OF assms] by simp

theorem summary_shows_the_dominant_member_witness:
  "\<exists>ev. EvaluateSummary \<lparr>sc_members = [''A.alert'']\<rparr> (map_of [(''A.alert'', demo_pending)]) = Inr ev \<and>
     ev_members ev = [''A.alert'']"
proof -
  obtain ev where ev: "EvaluateSummary \<lparr>sc_members = [''A.alert'']\<rparr>
      (map_of [(''A.alert'', demo_pending)]) = Inr ev"
  proof -
    have "ok (EvaluateSummary \<lparr>sc_members = [''A.alert'']\<rparr> (map_of [(''A.alert'', demo_pending)]))"
      by code_simp
    with that show thesis by (auto simp: ok_iff)
  qed
  with summary_shows_the_dominant_member [OF ev] show ?thesis
    by (simp add: shows_up_def demo_pending_def)
qed

section \<open>Protocol\<close>

text \<open>The output subject of a configuration is a valid subject that a summary may list, and no
  two configurations share one.\<close>

theorem output_subjects_are_distinct:
  assumes "OutputSubject s = Inr out"
  shows "ok (validateSubject out) \<and> has_suffix out alertSuffix \<and> trim_suffix out alertSuffix \<noteq> [] \<and>
    (OutputSubject t = Inr out) = (t = s)"
proof -
  from assms obtain b where b: "ok (validateSubject s)" "s = b @ configSuffix" "b \<noteq> []"
      "out = b @ alertSuffix"
    by (auto simp: OutputSubject_Inr)
  moreover have "trim_suffix (b @ alertSuffix) alertSuffix = b"
    by (simp add: trim_suffix_def has_suffix_iff)
  ultimately show ?thesis
    using assms OutputSubject_inj [of s out t] validateSubject_alert [of b] by (auto simp: has_suffix_iff)
qed

theorem output_subjects_are_distinct_witness:
  "OutputSubject ''A.alert_config'' = Inr ''A.alert'' \<and>
   (OutputSubject ''B.alert_config'' = Inr ''A.alert'') = (''B.alert_config'' = ''A.alert_config'')"
proof -
  have "OutputSubject ''A.alert_config'' = Inr ''A.alert''" by code_simp
  with output_subjects_are_distinct [OF this, of "''B.alert_config''"] show ?thesis by blast
qed

text \<open>\<open>State.Validate\<close> accepts exactly the states of the protocol: the current version, not both
  pending and acknowledged, an active state with a named episode, a start and no end, an end only
  after a start, an acknowledgement time only when acknowledged, all times in UTC, a presentation
  that is empty or complete, and distinct alert members that include the dominant one.\<close>

theorem state_validation_decides:
  "ok (validate_state s) \<longleftrightarrow>
     st_version s = CurrentVersion \<and> \<not> (st_pending s \<and> st_acknowledged s) \<and>
     (st_active s \<longrightarrow> st_episode s \<noteq> [] \<and> st_came s \<noteq> None \<and> st_went s = None) \<and>
     (st_went s \<noteq> None \<longrightarrow> st_came s \<noteq> None) \<and>
     (st_ack s \<noteq> None \<longrightarrow> st_acknowledged s) \<and>
     (\<forall>t. st_came s = Some t \<or> st_went s = Some t \<or> st_ack s = Some t \<longrightarrow> zone_offset t = 0) \<and>
     (st_presentation s = no_presentation \<or> complete_presentation (st_presentation s)) \<and>
     distinct (slice_list (st_members s)) \<and>
     (\<forall>m\<in>set (slice_list (st_members s)). ok (validateSubject m) \<and> has_suffix m alertSuffix) \<and>
     (st_dominant s \<noteq> [] \<longrightarrow> st_dominant s \<in> set (slice_list (st_members s)))"
  by (rule validate_state_ok)

theorem state_validation_decides_witness:
  "ok (validate_state demo_pending) \<and> \<not> ok (validate_state (demo_pending\<lparr>st_acknowledged := True\<rparr>))"
proof -
  have "ok (validate_state demo_pending)" by code_simp
  moreover have "\<not> ok (validate_state (demo_pending\<lparr>st_acknowledged := True\<rparr>))"
    using state_validation_decides [of "demo_pending\<lparr>st_acknowledged := True\<rparr>"]
    by (simp add: demo_pending_def)
  ultimately show ?thesis by blast
qed

section \<open>What the propagation leaves stale\<close>


text \<open>An ancestor is evaluated once, when the breadth-first search first meets it: a summary over
  an alert and over a summary of that alert stays active after the alert is gone.\<close>

theorem diamond_leaves_summary_stale:
  "reachable demo_env (demo_run diamond) \<and>
   activity (demo_run diamond) =
     [(''T.alert'', True, False), (''P.alert'', False, False), (''A.alert'', False, False)]"
  using reachable_demo diamond_after by blast

text \<open>A summary installed over an alert that is gone and not acknowledged is pending with no
  episode name; acknowledging it acknowledges the member, and leaves the summary pending.\<close>

theorem late_summary_stays_pending:
  "reachable demo_env (demo_run (late_summary @ [StateValue ''S.alert'' (VString ''ack'')])) \<and>
   activity (demo_run (late_summary @ [StateValue ''S.alert'' (VString ''ack'')])) =
     [(''A.alert'', False, False), (''S.alert'', False, True)]"
  using reachable_demo late_summary_after by blast

end
