(* ===== verification/Go_Time.thy ===== *)
theory Go_Time
  imports Go_Numbers
begin

text \<open>
  \<open>time.ParseDuration\<close>: a sign, then numbers with an optional fraction and a unit, summed in
  nanoseconds. The fraction goes through \<open>float64\<close> as in the library: three roundings to 53 bits and
  a truncation. A result outside \<open>int64\<close> is an error.
\<close>

definition is_number_char :: "char \<Rightarrow> bool" where
  "is_number_char c \<longleftrightarrow> c = CHR ''.'' \<or> is_digit c"

definition duration_units :: "(string \<times> int) list" where
  "duration_units =
     [(''ns'', 1), (''us'', 1000), ([CHR 0xC2, CHR 0xB5, CHR ''s''], 1000),
      ([CHR 0xCE, CHR 0xBC, CHR ''s''], 1000), (''ms'', 1000000), (''s'', 1000000000),
      (''m'', 60 * 1000000000), (''h'', 3600 * 1000000000)]"

text \<open>The value of the leading digits, or \<open>None\<close> when it does not fit.\<close>

fun leading_int :: "int \<Rightarrow> string \<Rightarrow> (int \<times> string) option" where
  "leading_int x [] = Some (x, [])"
| "leading_int x (c # s) =
     (if \<not> is_digit c then Some (x, c # s)
      else if x > 2 ^ 63 div 10 then None
      else (let y = 10 * x + digit_val c in if y > 2 ^ 63 then None else leading_int y s))"

text \<open>The leading digits as a numerator and the number of digits in it; once it no longer fits, the
  remaining digits are skipped.\<close>

fun leading_fraction :: "int \<Rightarrow> nat \<Rightarrow> bool \<Rightarrow> string \<Rightarrow> int \<times> nat \<times> string" where
  "leading_fraction x k overflow [] = (x, k, [])"
| "leading_fraction x k overflow (c # s) =
     (if \<not> is_digit c then (x, k, c # s)
      else if overflow \<or> x > (2 ^ 63 - 1) div 10 then leading_fraction x k True s
      else (let y = 10 * x + digit_val c
            in if y > 2 ^ 63 then leading_fraction x k True s else leading_fraction y (Suc k) False s))"

text \<open>A positive rational rounded to 53 significant bits, as numerator and denominator.\<close>

definition round53 :: "int \<Rightarrow> int \<Rightarrow> int \<times> int" where
  "round53 n d =
     (let k = bit_len n - bit_len d;
          below = (if 0 \<le> k then n < d * 2 ^ nat k else n * 2 ^ nat (- k) < d);
          e = (if below then k - 1 else k) - 52
      in if 0 \<le> e then (round_div n (d * 2 ^ nat e) * 2 ^ nat e, 1)
         else (round_div (n * 2 ^ nat (- e)) d, 2 ^ nat (- e)))"

definition fraction_ns :: "int \<Rightarrow> nat \<Rightarrow> int \<Rightarrow> int" where
  "fraction_ns f k unit_ns =
     (case round53 f 1 of (a, b) \<Rightarrow>
       (case round53 unit_ns (10 ^ k) of (c, d) \<Rightarrow>
         (case round53 (a * c) (b * d) of (p, q) \<Rightarrow> p div q)))"

text \<open>One number with its unit: the nanoseconds and the rest of the string.\<close>

definition duration_item :: "string \<Rightarrow> (int \<times> string) option" where
  "duration_item s =
     (case leading_int 0 s of
        None \<Rightarrow> None
      | Some (v, r) \<Rightarrow>
          (let point = (r \<noteq> [] \<and> hd r = CHR ''.'');
               (f, k, r') = (if point then leading_fraction 0 0 False (tl r) else (0, 0, r));
               pre = (length r \<noteq> length s);
               post = (point \<and> length r' \<noteq> length (tl r));
               u = takeWhile (\<lambda>c. \<not> is_number_char c) r';
               rest = dropWhile (\<lambda>c. \<not> is_number_char c) r'
           in if \<not> pre \<and> \<not> post then None
              else (case map_of duration_units u of
                      None \<Rightarrow> None
                    | Some unit_ns \<Rightarrow>
                        if v > 2 ^ 63 div unit_ns then None
                        else (let n = v * unit_ns + (if f > 0 then fraction_ns f k unit_ns else 0)
                              in if n > 2 ^ 63 then None else Some (n, rest)))))"

lemma leading_int_rest: "leading_int x s = Some (y, r) \<Longrightarrow> length r \<le> length s"
  by (induction x s rule: leading_int.induct) (auto simp: Let_def split: if_splits)

lemma leading_fraction_rest: "leading_fraction x k b s = (y, j, r) \<Longrightarrow> length r \<le> length s"
  by (induction x k b s rule: leading_fraction.induct) (auto simp: Let_def split: if_splits)

lemma duration_item_rest:
  assumes "duration_item s = Some (n, rest)"
  shows "length rest < length s"
proof -
  obtain v r where r: "leading_int 0 s = Some (v, r)"
    using assms by (auto simp: duration_item_def split: option.splits)
  obtain f k r' where r': "(if r \<noteq> [] \<and> hd r = CHR ''.'' then leading_fraction 0 0 False (tl r)
      else (0, 0, r)) = (f, k, r')"
    by (metis prod_cases3)
  let ?u = "takeWhile (\<lambda>c. \<not> is_number_char c) r'"
  have rest: "rest = dropWhile (\<lambda>c. \<not> is_number_char c) r'" and "map_of duration_units ?u \<noteq> None"
    using assms r r' by (auto simp: duration_item_def Let_def split: if_splits option.splits)
  then have "?u \<noteq> []"
    by (auto simp: duration_units_def)
  moreover have "length ?u + length rest = length r'"
    unfolding rest by (metis length_append takeWhile_dropWhile_id)
  moreover have "length r' \<le> length r"
    using r' leading_fraction_rest [of 0 0 False "tl r" f k r'] by (auto split: if_splits)
  ultimately show ?thesis
    using leading_int_rest [OF r] by (simp flip: length_greater_0_conv)
qed

function duration_items :: "int \<Rightarrow> string \<Rightarrow> int option" where
  "duration_items d s =
     (if s = [] then Some d
      else (case duration_item s of
              None \<Rightarrow> None
            | Some (n, rest) \<Rightarrow> if d + n > 2 ^ 63 then None else duration_items (d + n) rest))"
  by pat_completeness auto
termination
  by (relation "measure (\<lambda>(d, s). length s)") (auto simp: duration_item_rest)

declare duration_items.simps [simp del]

definition parse_duration :: "string \<Rightarrow> int option" where
  "parse_duration s =
     (let (neg, r) = split_sign s
      in if r = ''0'' then Some 0
         else if r = [] then None
         else (case duration_items 0 r of
                 None \<Rightarrow> None
               | Some d \<Rightarrow> if neg then Some (- d) else if d > 2 ^ 63 - 1 then None else Some d))"

end
