(* ===== verification/Address.thy ===== *)
theory Address
  imports Go_Time
begin

text \<open>
  \<open>address/descriptor.go\<close>: the protocol-neutral envelopes of the \<open>.address\<close> and \<open>.config\<close> subjects.
  The raw driver configuration is its JSON text. \<open>encoding/json\<close> enters as the record
  \<open>address_json\<close>: strict decoding of one value (\<open>None\<close> for a decoding error or trailing data),
  validity of a text, and encoding.
\<close>

datatype hw_type = HwBool | HwInt64 | HwFloat64 | HwString | HwOther string

definition hw_type_name :: "hw_type \<Rightarrow> string" where
  "hw_type_name ty =
     (case ty of HwBool \<Rightarrow> ''bool'' | HwInt64 \<Rightarrow> ''int64'' | HwFloat64 \<Rightarrow> ''float64''
               | HwString \<Rightarrow> ''string'' | HwOther s \<Rightarrow> s)"

record descriptor =
  ds_version :: int
  ds_driver :: string
  ds_value_type :: hw_type
  ds_enabled :: bool
  ds_connection :: string
  ds_publish_on_change :: bool
  ds_config :: string

record hw_connection =
  hc_version :: int
  hc_driver :: string
  hc_enabled :: bool
  hc_config :: string

record address_json =
  json_descriptor :: "string \<Rightarrow> descriptor option"
  json_connection :: "string \<Rightarrow> hw_connection option"
  json_valid :: "string \<Rightarrow> bool"
  json_of_descriptor :: "descriptor \<Rightarrow> string option"
  json_of_connection :: "hw_connection \<Rightarrow> string option"

definition descriptor_version :: int where "descriptor_version = 1"

definition validate_descriptor :: "address_json \<Rightarrow> descriptor \<Rightarrow> go_error + unit" where
  "validate_descriptor js d =
     (if ds_version d \<noteq> descriptor_version
      then Inl (errorf ''unsupported address descriptor version %d'' [FInt (ds_version d)])
      else if trim_space (ds_driver d) = [] then Inl (errors_new ''address driver is required'')
      else if trim_space (ds_connection d) = [] then Inl (errors_new ''address connection is required'')
      else if \<not> has_suffix (ds_connection d) ''.config''
      then Inl (errors_new ''address connection must end in .config'')
      else if (case ds_value_type d of HwOther _ \<Rightarrow> True | _ \<Rightarrow> False)
      then Inl (errorf ''unsupported address value_type %q'' [FStr (hw_type_name (ds_value_type d))])
      else if trim_space (ds_config d) = [] \<or> \<not> json_valid js (ds_config d)
      then Inl (errors_new ''address config must be valid JSON'')
      else Inr ())"

definition validate_hw_connection :: "address_json \<Rightarrow> hw_connection \<Rightarrow> go_error + unit" where
  "validate_hw_connection js c =
     (if hc_version c \<noteq> descriptor_version
      then Inl (errorf ''unsupported connection descriptor version %d'' [FInt (hc_version c)])
      else if trim_space (hc_driver c) = [] then Inl (errors_new ''connection driver is required'')
      else if trim_space (hc_config c) = [] \<or> \<not> json_valid js (hc_config c)
      then Inl (errors_new ''connection config must be valid JSON'')
      else Inr ())"

definition parse_descriptor :: "address_json \<Rightarrow> string \<Rightarrow> go_error + descriptor" where
  "parse_descriptor js v =
     (case json_descriptor js v of
        None \<Rightarrow> Inl (errors_new ''decode address descriptor'')
      | Some d \<Rightarrow> (case validate_descriptor js d of Inl e \<Rightarrow> Inl e | Inr _ \<Rightarrow> Inr d))"

definition marshal_descriptor :: "address_json \<Rightarrow> descriptor \<Rightarrow> go_error + string" where
  "marshal_descriptor js d =
     (case validate_descriptor js d of
        Inl e \<Rightarrow> Inl e
      | Inr _ \<Rightarrow> (case json_of_descriptor js d of
                    None \<Rightarrow> Inl (errors_new ''encode address descriptor'') | Some s \<Rightarrow> Inr s))"

definition parse_hw_connection :: "address_json \<Rightarrow> string \<Rightarrow> go_error + hw_connection" where
  "parse_hw_connection js v =
     (case json_connection js v of
        None \<Rightarrow> Inl (errors_new ''decode connection descriptor'')
      | Some c \<Rightarrow> (case validate_hw_connection js c of Inl e \<Rightarrow> Inl e | Inr _ \<Rightarrow> Inr c))"

definition marshal_hw_connection :: "address_json \<Rightarrow> hw_connection \<Rightarrow> go_error + string" where
  "marshal_hw_connection js c =
     (case validate_hw_connection js c of
        Inl e \<Rightarrow> Inl e
      | Inr _ \<Rightarrow> (case json_of_connection js c of
                    None \<Rightarrow> Inl (errors_new ''encode connection descriptor'') | Some s \<Rightarrow> Inr s))"

text \<open>\<open>decodeConfig[T]\<close>: \<open>decode\<close> is the strict decoding into the driver's struct \<open>T\<close>.\<close>

definition decodeConfig :: "(string \<Rightarrow> 'c option) \<Rightarrow> string \<Rightarrow> string \<Rightarrow> go_error + 'c" where
  "decodeConfig decode driver raw =
     (case decode raw of
        None \<Rightarrow> Inl (errorf ''decode %s driver config'' [FStr driver]) | Some c \<Rightarrow> Inr c)"

section \<open>Facts\<close>

lemma validate_descriptor_ok:
  "ok (validate_descriptor js d) \<longleftrightarrow>
     ds_version d = descriptor_version \<and> trim_space (ds_driver d) \<noteq> [] \<and>
     trim_space (ds_connection d) \<noteq> [] \<and> has_suffix (ds_connection d) ''.config'' \<and>
     ds_value_type d \<in> {HwBool, HwInt64, HwFloat64, HwString} \<and>
     trim_space (ds_config d) \<noteq> [] \<and> json_valid js (ds_config d)"
  by (cases "ds_value_type d") (auto simp: validate_descriptor_def)

lemma parse_descriptor_Inr:
  "parse_descriptor js v = Inr d \<longleftrightarrow> json_descriptor js v = Some d \<and> ok (validate_descriptor js d)"
  by (auto simp: parse_descriptor_def unit_case_Inr_iff split: option.split)

lemma parse_hw_connection_Inr:
  "parse_hw_connection js v = Inr c \<longleftrightarrow>
     json_connection js v = Some c \<and> ok (validate_hw_connection js c)"
  by (auto simp: parse_hw_connection_def unit_case_Inr_iff split: option.split)

text \<open>With a codec that reads back what it writes, parsing undoes marshalling.\<close>

lemma parse_marshal_descriptor:
  assumes "\<And>d s. json_of_descriptor js d = Some s \<Longrightarrow> json_descriptor js s = Some d"
    and "marshal_descriptor js d = Inr s"
  shows "parse_descriptor js s = Inr d"
  using assms
  by (auto simp: marshal_descriptor_def unit_case_Inr_iff parse_descriptor_Inr split: option.splits)

end
