(* ===== verification/Modbus_Config.thy ===== *)
theory Modbus_Config
  imports Address
begin

text \<open>
  \<open>modbus/config.go\<close>: Modbus connections and points. The three string types \<open>Register\<close>, \<open>Encoding\<close>
  and \<open>ByteOrder\<close> are datatypes whose last constructor holds any other string. Registers are ordered
  by their names. A duration is an integer of nanoseconds. Decoding of the two driver
  configurations and \<open>url.Parse\<close> (scheme and host of a well-formed URL) are arguments.
\<close>

datatype register =
    RegisterCoil | RegisterDiscreteInput | RegisterInputRegister | RegisterHoldingRegister
  | RegisterOther string

datatype encoding =
    EncodingBool | EncodingInt16 | EncodingUint16 | EncodingInt32 | EncodingUint32
  | EncodingFloat32 | EncodingFloat64 | EncodingOther string

datatype byte_order = OrderBig | OrderLittle | OrderOther string

definition register_name :: "register \<Rightarrow> string" where
  "register_name r =
     (case r of RegisterCoil \<Rightarrow> ''coil'' | RegisterDiscreteInput \<Rightarrow> ''discrete_input''
        | RegisterInputRegister \<Rightarrow> ''input'' | RegisterHoldingRegister \<Rightarrow> ''holding''
        | RegisterOther s \<Rightarrow> s)"

definition encoding_name :: "encoding \<Rightarrow> string" where
  "encoding_name e =
     (case e of EncodingBool \<Rightarrow> ''bool'' | EncodingInt16 \<Rightarrow> ''int16'' | EncodingUint16 \<Rightarrow> ''uint16''
        | EncodingInt32 \<Rightarrow> ''int32'' | EncodingUint32 \<Rightarrow> ''uint32'' | EncodingFloat32 \<Rightarrow> ''float32''
        | EncodingFloat64 \<Rightarrow> ''float64'' | EncodingOther s \<Rightarrow> s)"

definition order_name :: "byte_order \<Rightarrow> string" where
  "order_name b = (case b of OrderBig \<Rightarrow> ''big'' | OrderLittle \<Rightarrow> ''little'' | OrderOther s \<Rightarrow> s)"

text \<open>Comparison of registers is comparison of their names.\<close>

definition register_key :: "register \<Rightarrow> string \<times> bool" where
  "register_key r = (register_name r, case r of RegisterOther _ \<Rightarrow> True | _ \<Rightarrow> False)"

lemma register_key_inj: "register_key r = register_key s \<Longrightarrow> r = s"
  by (cases r; cases s) (simp_all add: register_key_def register_name_def)

instantiation register :: linorder
begin

definition less_eq_register :: "register \<Rightarrow> register \<Rightarrow> bool" where
  "less_eq_register r s \<longleftrightarrow>
     fst (register_key r) < fst (register_key s) \<or>
     fst (register_key r) = fst (register_key s) \<and> (snd (register_key r) \<longrightarrow> snd (register_key s))"

definition less_register :: "register \<Rightarrow> register \<Rightarrow> bool" where
  "less_register r s \<longleftrightarrow> r \<le> s \<and> \<not> s \<le> (r :: register)"

instance
proof
  fix r s t :: register
  show "r < s \<longleftrightarrow> r \<le> s \<and> \<not> s \<le> r" by (rule less_register_def)
  show "r \<le> r" by (simp add: less_eq_register_def)
  show "r \<le> s \<Longrightarrow> s \<le> t \<Longrightarrow> r \<le> t"
    by (auto simp: less_eq_register_def)
  show "r \<le> s \<Longrightarrow> s \<le> r \<Longrightarrow> r = s"
    by (rule register_key_inj) (auto simp: less_eq_register_def prod_eq_iff)
  show "r \<le> s \<or> s \<le> r"
    by (auto simp: less_eq_register_def)
qed

end

record connection_config =
  cc_url :: string
  cc_unit_id :: u8
  cc_byte_order :: byte_order
  cc_word_order :: byte_order
  cc_timeout :: string
  cc_poll_interval :: string

record connection =
  mc_url :: string
  mc_unit_id :: u8
  mc_byte_order :: byte_order
  mc_word_order :: byte_order
  mc_timeout :: int
  mc_poll_interval :: int

record address_config =
  ac_register :: register
  ac_address :: u16
  ac_encoding :: encoding

record point =
  pt_connection_subject :: string
  pt_url :: string
  pt_unit_id :: u8
  pt_register :: register
  pt_address :: u16
  pt_encoding :: encoding
  pt_byte_order :: byte_order
  pt_word_order :: byte_order
  pt_timeout :: int
  pt_poll_interval :: int
  pt_value_type :: hw_type

record modbus_codec =
  mb_connection_config :: "string \<Rightarrow> connection_config option"
  mb_address_config :: "string \<Rightarrow> address_config option"
  mb_url :: "string \<Rightarrow> (string \<times> string) option"

definition validOrder :: "byte_order \<Rightarrow> bool" where
  "validOrder b \<longleftrightarrow> b = OrderBig \<or> b = OrderLittle"

definition valueTypeForEncoding :: "encoding \<Rightarrow> hw_type" where
  "valueTypeForEncoding e =
     (case e of
        EncodingBool \<Rightarrow> HwBool
      | EncodingInt16 \<Rightarrow> HwInt64 | EncodingUint16 \<Rightarrow> HwInt64
      | EncodingInt32 \<Rightarrow> HwInt64 | EncodingUint32 \<Rightarrow> HwInt64
      | EncodingFloat32 \<Rightarrow> HwFloat64 | EncodingFloat64 \<Rightarrow> HwFloat64
      | EncodingOther _ \<Rightarrow> HwOther [])"

definition registerCount :: "encoding \<Rightarrow> u16" where
  "registerCount e =
     (case e of
        EncodingInt32 \<Rightarrow> 2 | EncodingUint32 \<Rightarrow> 2 | EncodingFloat32 \<Rightarrow> 2
      | EncodingFloat64 \<Rightarrow> 4
      | _ \<Rightarrow> 1)"

definition parsePositiveDuration :: "string \<Rightarrow> string \<Rightarrow> go_error + int" where
  "parsePositiveDuration name text =
     (let v = trim_space text
      in if v = [] then Inl (errorf ''modbus connection %s is required'' [FStr name])
         else (case parse_duration v of
                 None \<Rightarrow> Inl (errorf ''parse Modbus connection %s %q'' [FStr name, FStr v])
               | Some d \<Rightarrow>
                   if d \<le> 0 then Inl (errors_new (''modbus connection '' @ name @ '' must be positive''))
                   else Inr d))"

definition default_order :: "byte_order \<Rightarrow> byte_order" where
  "default_order b = (if b = OrderOther [] then OrderBig else b)"

definition ParseConnection :: "modbus_codec \<Rightarrow> hw_connection \<Rightarrow> go_error + connection" where
  "ParseConnection cd d =
     (if hc_driver d \<noteq> ''modbus''
      then Inl (errorf ''connection driver %q is not modbus'' [FStr (hc_driver d)])
      else (case decodeConfig (mb_connection_config cd) (hc_driver d) (hc_config d) of
              Inl e \<Rightarrow> Inl e
            | Inr c \<Rightarrow>
                (let url = trim_space (cc_url c);
                     bytes = default_order (cc_byte_order c);
                     words = default_order (cc_word_order c)
                 in if (case mb_url cd url of None \<Rightarrow> True | Some (scheme, host) \<Rightarrow> scheme \<noteq> ''tcp'' \<or> host = [])
                    then Inl (errorf ''modbus url %q must be a tcp URL with a host'' [FStr url])
                    else if \<not> validOrder bytes
                    then Inl (errorf ''unsupported byte_order %q'' [FStr (order_name bytes)])
                    else if \<not> validOrder words
                    then Inl (errorf ''unsupported word_order %q'' [FStr (order_name words)])
                    else (case parsePositiveDuration ''timeout'' (cc_timeout c) of
                            Inl e \<Rightarrow> Inl e
                          | Inr timeout \<Rightarrow>
                              (case parsePositiveDuration ''poll_interval'' (cc_poll_interval c) of
                                 Inl e \<Rightarrow> Inl e
                               | Inr poll \<Rightarrow>
                                   Inr \<lparr>mc_url = url, mc_unit_id = cc_unit_id c, mc_byte_order = bytes,
                                        mc_word_order = words, mc_timeout = timeout,
                                        mc_poll_interval = poll\<rparr>)))))"

text \<open>The switch over the register: the encodings each table supports.\<close>

definition checkRegister :: "register \<Rightarrow> encoding \<Rightarrow> go_error + unit" where
  "checkRegister r e =
     (if r = RegisterCoil \<or> r = RegisterDiscreteInput
      then (if e \<noteq> EncodingBool
            then Inl (errorf ''register %q requires bool encoding'' [FStr (register_name r)]) else Inr ())
      else if r = RegisterInputRegister \<or> r = RegisterHoldingRegister
      then (if e = EncodingInt16 \<or> e = EncodingUint16 \<or> e = EncodingInt32 \<or> e = EncodingUint32 \<or>
               e = EncodingFloat32 \<or> e = EncodingFloat64
            then Inr ()
            else Inl (errorf ''register %q does not support encoding %q''
                        [FStr (register_name r), FStr (encoding_name e)]))
      else Inl (errorf ''unsupported modbus register %q'' [FStr (register_name r)]))"

definition ParsePoint :: "modbus_codec \<Rightarrow> descriptor \<Rightarrow> connection \<Rightarrow> go_error + point" where
  "ParsePoint cd d conn =
     (if ds_driver d \<noteq> ''modbus''
      then Inl (errorf ''address driver %q is not modbus'' [FStr (ds_driver d)])
      else (case decodeConfig (mb_address_config cd) (ds_driver d) (ds_config d) of
              Inl e \<Rightarrow> Inl e
            | Inr c \<Rightarrow>
                (case checkRegister (ac_register c) (ac_encoding c) of
                   Inl e \<Rightarrow> Inl e
                 | Inr _ \<Rightarrow>
                     (let expected = valueTypeForEncoding (ac_encoding c)
                      in if ds_value_type d \<noteq> expected
                         then Inl (errorf ''encoding %q produces %q, not %q''
                                [FStr (encoding_name (ac_encoding c)), FStr (hw_type_name expected),
                                 FStr (hw_type_name (ds_value_type d))])
                         else if unat (ac_address c) + unat (registerCount (ac_encoding c)) > 2 ^ 16
                         then Inl (errorf ''address %d with encoding %q exceeds the register range''
                                [FInt (uint (ac_address c)), FStr (encoding_name (ac_encoding c))])
                         else Inr \<lparr>pt_connection_subject = ds_connection d, pt_url = mc_url conn,
                                   pt_unit_id = mc_unit_id conn, pt_register = ac_register c,
                                   pt_address = ac_address c, pt_encoding = ac_encoding c,
                                   pt_byte_order = mc_byte_order conn, pt_word_order = mc_word_order conn,
                                   pt_timeout = mc_timeout conn, pt_poll_interval = mc_poll_interval conn,
                                   pt_value_type = ds_value_type d\<rparr>))))"

section \<open>Facts\<close>

lemma registerCount_bounds: "1 \<le> unat (registerCount e)" "unat (registerCount e) \<le> 4"
  by (cases e; simp add: registerCount_def)+

lemma parsePositiveDuration_pos: "parsePositiveDuration name text = Inr d \<Longrightarrow> 0 < d"
  by (auto simp: parsePositiveDuration_def Let_def split: if_splits option.splits)

text \<open>A valid connection: what the rest of the package relies on.\<close>

definition valid_connection :: "connection \<Rightarrow> bool" where
  "valid_connection c \<longleftrightarrow>
     validOrder (mc_byte_order c) \<and> validOrder (mc_word_order c) \<and>
     0 < mc_timeout c \<and> 0 < mc_poll_interval c"

lemma ParseConnection_valid: "ParseConnection cd d = Inr c \<Longrightarrow> valid_connection c"
  by (auto simp: ParseConnection_def valid_connection_def Let_def case_Inr_iff
      dest: parsePositiveDuration_pos split: if_splits)

text \<open>A point whose registers exist and whose value has the promised type.\<close>

definition valid_point :: "point \<Rightarrow> bool" where
  "valid_point p \<longleftrightarrow>
     ok (checkRegister (pt_register p) (pt_encoding p)) \<and>
     pt_value_type p = valueTypeForEncoding (pt_encoding p) \<and>
     unat (pt_address p) + unat (registerCount (pt_encoding p)) \<le> 2 ^ 16"

lemma ParsePoint_valid: "ParsePoint cd d conn = Inr p \<Longrightarrow> valid_point p"
  by (auto simp: ParsePoint_def valid_point_def Let_def case_Inr_iff unit_case_Inr_iff
      split: if_splits)

lemma valid_point_cases:
  assumes "valid_point p"
  shows "pt_register p = RegisterCoil \<and> pt_encoding p = EncodingBool \<or>
    pt_register p = RegisterDiscreteInput \<and> pt_encoding p = EncodingBool \<or>
    pt_register p \<in> {RegisterInputRegister, RegisterHoldingRegister} \<and>
      pt_encoding p \<in> {EncodingInt16, EncodingUint16, EncodingInt32, EncodingUint32, EncodingFloat32,
        EncodingFloat64}"
  using assms by (auto simp: valid_point_def checkRegister_def split: if_splits)

end
