(* ===== verification/Modbus_Group.thy ===== *)
theory Modbus_Group
  imports Modbus_Config "HOL-Library.Product_Lexorder"
begin

text \<open>
  \<open>modbus/group.go\<close>: packing the points of one connection into requests. Ends and spans are 32-bit
  and quantities 16-bit words, as in the code; the facts are stated over the natural numbers
  \<open>first_register\<close> and \<open>end_register\<close>, with the lemmas that no operation wraps. Points with equal
  address, end and subject, which \<open>sort.Slice\<close> may leave in any order, keep their order here.
\<close>

record poll_point =
  pp_subject :: string
  pp_point :: point
  pp_publish_on_change :: bool

record poll_group =
  pg_register :: register
  pg_address :: u16
  pg_quantity :: u16
  pg_points :: "poll_point list"

definition maxRegisterQuantity :: u16 where "maxRegisterQuantity = 125"
definition maxBitQuantity :: u16 where "maxBitQuantity = 2000"

definition maxQuantity :: "register \<Rightarrow> u16" where
  "maxQuantity r =
     (case r of RegisterCoil \<Rightarrow> maxBitQuantity | RegisterDiscreteInput \<Rightarrow> maxBitQuantity
        | _ \<Rightarrow> maxRegisterQuantity)"

definition pointEnd :: "point \<Rightarrow> 32 word" where
  "pointEnd p = ucast (pt_address p) + ucast (registerCount (pt_encoding p))"

definition single_group :: "register \<Rightarrow> poll_point \<Rightarrow> poll_group" where
  "single_group r p =
     \<lparr>pg_register = r, pg_address = pt_address (pp_point p),
      pg_quantity = ucast (pointEnd (pp_point p) - ucast (pt_address (pp_point p))),
      pg_points = [p]\<rparr>"

definition no_group :: poll_group where
  "no_group = \<lparr>pg_register = RegisterOther [], pg_address = 0, pg_quantity = 0, pg_points = []\<rparr>"

text \<open>The loop over the sorted points with the current group.\<close>

fun mergeLoop :: "register \<Rightarrow> 32 word \<Rightarrow> poll_group \<Rightarrow> poll_point list \<Rightarrow> poll_group list" where
  "mergeLoop r limit current [] = (if pg_points current = [] then [] else [current])"
| "mergeLoop r limit current (p # ps) =
     (if pg_points current = [] then mergeLoop r limit (single_group r p) ps
      else (let currentEnd = ucast (pg_address current) + ucast (pg_quantity current);
                nextEnd = (if currentEnd > pointEnd (pp_point p) then currentEnd else pointEnd (pp_point p));
                span = nextEnd - ucast (pg_address current)
            in if span \<le> limit
               then mergeLoop r limit
                      (current\<lparr>pg_quantity := ucast span, pg_points := pg_points current @ [p]\<rparr>) ps
               else current # mergeLoop r limit (single_group r p) ps))"

definition poll_order :: "poll_point \<Rightarrow> u16 \<times> 32 word \<times> string" where
  "poll_order p = (pt_address (pp_point p), pointEnd (pp_point p), pp_subject p)"

definition mergeRegisterPoints :: "register \<Rightarrow> poll_point list \<Rightarrow> poll_group list" where
  "mergeRegisterPoints r points =
     mergeLoop r (ucast (maxQuantity r)) no_group (sort_key poll_order points)"

definition point_register :: "poll_point \<Rightarrow> register" where
  "point_register p = pt_register (pp_point p)"

definition groupPoints :: "poll_point list \<Rightarrow> poll_group list" where
  "groupPoints points =
     concat (map (\<lambda>r. mergeRegisterPoints r (filter (\<lambda>p. point_register p = r) points))
               (sort (remdups (map point_register points))))"

section \<open>The arithmetic does not wrap\<close>

definition first_register :: "poll_point \<Rightarrow> nat" where
  "first_register p = unat (pt_address (pp_point p))"

definition end_register :: "poll_point \<Rightarrow> nat" where
  "end_register p = first_register p + unat (registerCount (pt_encoding (pp_point p)))"

definition group_first :: "poll_group \<Rightarrow> nat" where
  "group_first g = unat (pg_address g)"

definition group_end :: "poll_group \<Rightarrow> nat" where
  "group_end g = group_first g + unat (pg_quantity g)"

definition request_limit :: "register \<Rightarrow> nat" where
  "request_limit r = unat (maxQuantity r)"

lemma unat_16: "unat (a :: u16) < 65536"
  using unsigned_less [of a, where 'a = nat] by simp

lemma unat_widen [simp]: "unat (ucast (a :: u16) :: 32 word) = unat a"
  using unat_16 [of a] by (simp add: unsigned_ucast_eq take_bit_nat_eq_self_iff)

lemma unat_add_16: "unat (ucast (a :: u16) + ucast (b :: u16) :: 32 word) = unat a + unat b"
  using unat_16 [of a] unat_16 [of b] by (simp add: unat_plus_if')

lemma unat_pointEnd: "unat (pointEnd (pp_point p)) = end_register p"
  by (simp add: pointEnd_def end_register_def first_register_def unat_add_16)

lemma unat_narrow: "unat (w :: 32 word) < 65536 \<Longrightarrow> unat (ucast w :: u16) = unat w"
  by (simp add: unsigned_ucast_eq take_bit_nat_eq_self_iff)

lemma request_limit_bounds: "4 \<le> request_limit r" "request_limit r \<le> 2000"
  by (cases r; simp add: request_limit_def maxQuantity_def maxBitQuantity_def maxRegisterQuantity_def)+

lemma end_after_first: "first_register p < end_register p" "end_register p \<le> first_register p + 4"
  using registerCount_bounds [of "pt_encoding (pp_point p)"] by (simp_all add: end_register_def)

lemma single_group_range:
  "group_first (single_group r p) = first_register p" "group_end (single_group r p) = end_register p"
proof -
  show first: "group_first (single_group r p) = first_register p"
    by (simp add: group_first_def single_group_def first_register_def)
  have "pointEnd (pp_point p) - ucast (pt_address (pp_point p)) =
      (ucast (registerCount (pt_encoding (pp_point p))) :: 32 word)"
    by (simp add: pointEnd_def)
  then have "unat (pg_quantity (single_group r p)) = unat (registerCount (pt_encoding (pp_point p)))"
    using unat_narrow [of "ucast (registerCount (pt_encoding (pp_point p)))"] unat_16
    by (simp add: single_group_def)
  with first show "group_end (single_group r p) = end_register p"
    by (simp add: group_end_def end_register_def)
qed

section \<open>The groups\<close>

text \<open>
  A group that may be sent: all points in one table, inside the requested range, which is not longer
  than the protocol allows, starts at the first point and ends at an end of a point.
\<close>

definition group_ok :: "poll_group \<Rightarrow> bool" where
  "group_ok g \<longleftrightarrow>
     pg_points g \<noteq> [] \<and> group_end g \<le> group_first g + request_limit (pg_register g) \<and>
     group_first g = first_register (hd (pg_points g)) \<and>
     (\<forall>p\<in>set (pg_points g). point_register p = pg_register g \<and> group_first g \<le> first_register p \<and>
        end_register p \<le> group_end g) \<and>
     (\<exists>p\<in>set (pg_points g). end_register p = group_end g)"

lemma group_okD:
  assumes "group_ok g"
  shows "pg_points g \<noteq> []" "group_end g \<le> group_first g + request_limit (pg_register g)"
    "group_first g = first_register (hd (pg_points g))"
    "p \<in> set (pg_points g) \<Longrightarrow> point_register p = pg_register g"
    "p \<in> set (pg_points g) \<Longrightarrow> group_first g \<le> first_register p"
    "p \<in> set (pg_points g) \<Longrightarrow> end_register p \<le> group_end g"
    "\<exists>p\<in>set (pg_points g). end_register p = group_end g"
  using assms unfolding group_ok_def by blast+

text \<open>Two points that no request can hold together, the first one first.\<close>

definition too_far :: "poll_point \<Rightarrow> poll_point \<Rightarrow> bool" where
  "too_far p q \<longleftrightarrow>
     point_register p \<noteq> point_register q \<or>
     first_register p + request_limit (point_register p) < end_register q"

definition leader :: "poll_group \<Rightarrow> poll_point" where
  "leader g = hd (pg_points g)"

lemma group_ok_single: "point_register p = r \<Longrightarrow> group_ok (single_group r p)"
  using single_group_range [of r p] end_after_first [of p] request_limit_bounds [of r]
  by (simp add: group_ok_def) (simp add: single_group_def)

text \<open>One turn of the loop, in natural numbers.\<close>

definition merged :: "poll_group \<Rightarrow> poll_point \<Rightarrow> nat" where
  "merged g p = max (group_end g) (end_register p) - group_first g"

lemma merge_span:
  fixes g p
  defines "currentEnd \<equiv> ucast (pg_address g) + ucast (pg_quantity g) :: 32 word"
  defines "span \<equiv> (if currentEnd > pointEnd (pp_point p) then currentEnd else pointEnd (pp_point p))
    - ucast (pg_address g)"
  assumes "group_first g \<le> first_register p"
  shows "unat span = merged g p"
proof -
  have "unat currentEnd = group_end g"
    by (simp add: currentEnd_def group_end_def group_first_def unat_add_16)
  moreover from this have "(currentEnd > pointEnd (pp_point p)) = (group_end g > end_register p)"
    by (simp add: word_less_nat_alt unat_pointEnd)
  moreover have "group_first g \<le> end_register p" "group_first g \<le> group_end g"
    using assms(3) end_after_first [of p] by (simp_all add: group_end_def)
  ultimately show ?thesis
    by (simp add: span_def unat_sub_if' unat_pointEnd merged_def max_def group_first_def)
qed

lemma mergeLoop_step:
  assumes "pg_points g \<noteq> []" and "group_first g \<le> first_register p"
  shows "mergeLoop r (ucast (maxQuantity r)) g (p # ps) =
    (if merged g p \<le> request_limit r
     then mergeLoop r (ucast (maxQuantity r))
       (g\<lparr>pg_quantity := word_of_nat (merged g p), pg_points := pg_points g @ [p]\<rparr>) ps
     else g # mergeLoop r (ucast (maxQuantity r)) (single_group r p) ps)"
proof -
  define span :: "32 word" where "span =
    (if ucast (pg_address g) + ucast (pg_quantity g) > pointEnd (pp_point p)
     then ucast (pg_address g) + ucast (pg_quantity g) else pointEnd (pp_point p)) - ucast (pg_address g)"
  have span: "unat span = merged g p"
    using merge_span [OF assms(2)] by (simp add: span_def)
  then have "(span \<le> ucast (maxQuantity r)) = (merged g p \<le> request_limit r)"
    by (simp add: word_le_nat_alt request_limit_def)
  moreover have "(ucast span :: u16) = word_of_nat (merged g p)"
    by (simp flip: span)
  ultimately show ?thesis
    using assms(1) by (simp add: Let_def flip: span_def)
qed

lemma merged_group:
  assumes "group_ok g" and "pg_register g = r" and "point_register p = r"
    and "group_first g \<le> first_register p" and "merged g p \<le> request_limit r"
  shows "group_ok (g\<lparr>pg_quantity := word_of_nat (merged g p), pg_points := pg_points g @ [p]\<rparr>)"
proof -
  let ?g = "g\<lparr>pg_quantity := word_of_nat (merged g p), pg_points := pg_points g @ [p]\<rparr>"
  have "merged g p < 2 ^ LENGTH(16)"
    using assms(5) request_limit_bounds [of r] by simp
  then have "unat (pg_quantity ?g) = merged g p"
    by (simp add: unsigned_of_nat take_bit_nat_eq_self_iff)
  moreover have "group_first g \<le> group_end g"
    by (simp add: group_end_def)
  ultimately have range: "group_first ?g = group_first g" "group_end ?g = max (group_end g) (end_register p)"
    by (simp_all add: group_end_def group_first_def merged_def)
  have old: "pg_points g \<noteq> []" "group_first g = first_register (hd (pg_points g))"
      "\<forall>q\<in>set (pg_points g). point_register q = r \<and> group_first g \<le> first_register q \<and>
        end_register q \<le> group_end g"
      "\<exists>q\<in>set (pg_points g). end_register q = group_end g"
    using assms(1,2) unfolding group_ok_def by blast+
  have "max (group_end g) (end_register p) \<le> group_first g + request_limit r"
    using assms(5) by (auto simp: merged_def le_diff_conv max_def split: if_splits)
  moreover have "\<exists>q\<in>insert p (set (pg_points g)). end_register q = max (group_end g) (end_register p)"
    using old(4) by (auto simp: max_def)
  ultimately show ?thesis
    unfolding group_ok_def range using old assms(2-4) by (auto simp: le_max_iff_disj)
qed

lemma mergeLoop_ok:
  assumes "group_ok g" and "pg_register g = r" and "\<forall>p\<in>set ps. point_register p = r"
    and "sorted (map first_register ps)" and "\<forall>p\<in>set ps. group_first g \<le> first_register p"
  defines "gs \<equiv> mergeLoop r (ucast (maxQuantity r)) g ps"
  shows "(\<forall>h\<in>set gs. group_ok h \<and> pg_register h = r) \<and>
    concat (map pg_points gs) = pg_points g @ ps \<and>
    (\<exists>h hs. gs = h # hs \<and> leader h = leader g \<and> sorted_wrt too_far (map leader gs) \<and>
       (\<forall>k\<in>set hs. group_first g + request_limit r < end_register (leader k)))"
  using assms(1-5) unfolding gs_def
proof (induction ps arbitrary: g)
  case Nil
  then show ?case using group_okD(1) [of g] by simp
next
  case (Cons p ps)
  have first: "group_first g \<le> first_register p"
    using Cons.prems by simp
  have nonempty: "pg_points g \<noteq> []"
    using Cons.prems(1) by (rule group_okD)
  note step = mergeLoop_step [OF nonempty first, of r ps]
  show ?case
  proof (cases "merged g p \<le> request_limit r")
    case True
    let ?g = "g\<lparr>pg_quantity := word_of_nat (merged g p), pg_points := pg_points g @ [p]\<rparr>"
    have "group_ok ?g"
      using Cons.prems first True by (intro merged_group [where r = r]) simp_all
    moreover have "leader ?g = leader g" "group_first ?g = group_first g"
      using nonempty by (simp_all add: leader_def group_first_def)
    ultimately show ?thesis
      using Cons.IH [of ?g] Cons.prems step True by simp
  next
    case False
    let ?g = "single_group r p"
    have new: "group_ok ?g" "pg_register ?g = r" "pg_points ?g = [p]" "group_first ?g = first_register p"
      using group_ok_single [of p r] Cons.prems(3) single_group_range(1) [of r p] by simp_all
        (simp_all add: single_group_def)
    have "leader ?g = p"
      by (simp add: leader_def single_group_def)
    define tail where "tail = mergeLoop r (ucast (maxQuantity r)) ?g ps"
    have IH: "\<forall>h\<in>set tail. group_ok h \<and> pg_register h = r" "concat (map pg_points tail) = p # ps"
        "\<exists>h hs. tail = h # hs \<and> leader h = p \<and> sorted_wrt too_far (map leader tail) \<and>
          (\<forall>k\<in>set hs. first_register p + request_limit r < end_register (leader k))"
      using Cons.IH [of ?g] new Cons.prems \<open>leader ?g = p\<close> by (simp_all add: tail_def)
    then obtain h hs where tail: "tail = h # hs" "leader h = p" "sorted_wrt too_far (map leader tail)"
        "\<forall>k\<in>set hs. first_register p + request_limit r < end_register (leader k)"
      by blast
    have "group_end g \<le> group_first g + request_limit r"
      using group_okD(2) [OF Cons.prems(1)] Cons.prems(2) by simp
    then have "group_first g + request_limit r < end_register p"
      using False by (auto simp: merged_def max_def split: if_splits)
    then have far: "\<forall>k\<in>set tail. group_first g + request_limit r < end_register (leader k)"
      using tail first by auto
    have "leader g \<in> set (pg_points g)" "group_first g = first_register (leader g)"
      using nonempty group_okD(3) [OF Cons.prems(1)] by (simp_all add: leader_def)
    moreover from this have "point_register (leader g) = r"
      using group_okD(4) [OF Cons.prems(1)] Cons.prems(2) by simp
    ultimately have "too_far (leader g) (leader k)" if "k \<in> set tail" for k
      using far that by (simp add: too_far_def)
    then show ?thesis
      using step False Cons.prems(1,2) IH(1,2) tail(3) far
      by (simp add: tail_def [symmetric])
  qed
qed

lemma sorted_poll_order: "sorted (map first_register (sort_key poll_order ps))"
proof -
  have "sorted (map poll_order (sort_key poll_order ps))" by simp
  moreover have "sorted (map first_register qs)" if "sorted (map poll_order qs)" for qs
    using that
    by (induction qs)
      (auto simp: poll_order_def first_register_def less_eq_prod_def word_le_nat_alt word_less_nat_alt)
  ultimately show ?thesis by blast
qed

lemma mergeRegisterPoints_ok:
  assumes "\<forall>p\<in>set ps. point_register p = r" and "ps \<noteq> []"
  defines "gs \<equiv> mergeRegisterPoints r ps"
  shows "(\<forall>h\<in>set gs. group_ok h \<and> pg_register h = r) \<and>
    concat (map pg_points gs) = sort_key poll_order ps \<and> sorted_wrt too_far (map leader gs)"
proof -
  obtain q qs where qs: "sort_key poll_order ps = q # qs"
    using assms(2) by (metis length_0_conv length_sort list.exhaust)
  have regs: "\<forall>p\<in>set (q # qs). point_register p = r"
    using assms(1) qs by (metis set_sort)
  have sorted: "sorted (map first_register (q # qs))"
    using sorted_poll_order [of ps] qs by simp
  have "group_ok (single_group r q)"
    using regs by (intro group_ok_single) simp
  moreover have "pg_register (single_group r q) = r" "pg_points (single_group r q) = [q]"
      "group_first (single_group r q) = first_register q"
    using single_group_range(1) [of r q] by (simp_all add: single_group_def)
  moreover have "gs = mergeLoop r (ucast (maxQuantity r)) (single_group r q) qs"
    by (simp add: gs_def mergeRegisterPoints_def qs no_group_def)
  ultimately show ?thesis
    using mergeLoop_ok [of "single_group r q" r qs] regs sorted qs by auto
qed

section \<open>All the points\<close>

lemma groupPoints_registers:
  assumes "distinct rs"
    and "\<And>r. r \<in> set rs \<Longrightarrow> filter (\<lambda>p. point_register p = r) points \<noteq> []"
  defines "gs \<equiv> concat (map (\<lambda>r. mergeRegisterPoints r (filter (\<lambda>p. point_register p = r) points)) rs)"
  shows "(\<forall>h\<in>set gs. group_ok h \<and> pg_register h \<in> set rs) \<and>
    mset (concat (map pg_points gs)) = mset (filter (\<lambda>p. point_register p \<in> set rs) points) \<and>
    sorted_wrt too_far (map leader gs)"
  using assms(1,2) unfolding gs_def
proof (induction rs)
  case Nil
  then show ?case by simp
next
  case (Cons r rs)
  let ?ps = "filter (\<lambda>p. point_register p = r) points"
  let ?head = "mergeRegisterPoints r ?ps"
  let ?tail = "concat (map (\<lambda>r. mergeRegisterPoints r (filter (\<lambda>p. point_register p = r) points)) rs)"
  have head: "\<forall>h\<in>set ?head. group_ok h \<and> pg_register h = r"
      "concat (map pg_points ?head) = sort_key poll_order ?ps" "sorted_wrt too_far (map leader ?head)"
    using mergeRegisterPoints_ok [of ?ps r] Cons.prems(2) [of r] by simp_all
  have tail: "\<forall>h\<in>set ?tail. group_ok h \<and> pg_register h \<in> set rs"
      "mset (concat (map pg_points ?tail)) = mset (filter (\<lambda>p. point_register p \<in> set rs) points)"
      "sorted_wrt too_far (map leader ?tail)"
    using Cons.IH Cons.prems by simp_all
  have leader: "point_register (leader h) = pg_register h" if "group_ok h" for h
    using that by (simp add: leader_def group_okD)
  have "too_far (leader h) (leader k)" if "h \<in> set ?head" "k \<in> set ?tail" for h k
    using head(1) tail(1) that leader Cons.prems(1) by (fastforce simp: too_far_def)
  then have "sorted_wrt too_far (map leader (?head @ ?tail))"
    using head(3) tail(3) unfolding map_append sorted_wrt_append set_map by blast
  moreover have "mset (filter (\<lambda>p. point_register p \<in> set (r # rs)) points) =
      mset ?ps + mset (filter (\<lambda>p. point_register p \<in> set rs) points)"
    using Cons.prems(1) by (induction points) auto
  moreover have "mset (concat (map pg_points ?head)) = mset ?ps"
    unfolding head(2) by simp
  ultimately show ?case
    using head(1) tail(1,2) by (simp add: ball_Un)
qed

lemma groupPoints_facts:
  shows "\<forall>h\<in>set (groupPoints points). group_ok h"
    and "mset (concat (map pg_points (groupPoints points))) = mset points"
    and "sorted_wrt too_far (map leader (groupPoints points))"
proof -
  let ?rs = "sort (remdups (map point_register points))"
  have "filter (\<lambda>p. point_register p = r) points \<noteq> []" if "r \<in> set ?rs" for r
    using that by (auto simp: filter_empty_conv)
  moreover have "filter (\<lambda>p. point_register p \<in> set ?rs) points = points"
    by simp
  ultimately show "\<forall>h\<in>set (groupPoints points). group_ok h"
      "mset (concat (map pg_points (groupPoints points))) = mset points"
      "sorted_wrt too_far (map leader (groupPoints points))"
    using groupPoints_registers [of ?rs points] unfolding groupPoints_def by auto
qed

section \<open>No grouping needs fewer requests\<close>

text \<open>Any list of points that one request may read.\<close>

definition request_for :: "poll_point list \<Rightarrow> bool" where
  "request_for ps \<longleftrightarrow>
     (\<exists>r first quantity. quantity \<le> request_limit r \<and>
        (\<forall>p\<in>set ps. point_register p = r \<and> first \<le> first_register p \<and>
           end_register p \<le> first + quantity))"

lemma too_far_request: "request_for ps \<Longrightarrow> p \<in> set ps \<Longrightarrow> q \<in> set ps \<Longrightarrow> \<not> too_far p q"
  by (auto simp: request_for_def too_far_def) (meson add_le_mono le_trans not_le)

lemma too_far_irrefl: "\<not> too_far p p"
  using end_after_first(2) [of p] request_limit_bounds(1) [of "point_register p"]
  by (simp add: too_far_def)

lemma requests_needed:
  assumes apart: "sorted_wrt too_far leaders" and requests: "\<forall>ps\<in>set requests. request_for ps"
    and cover: "set leaders \<subseteq> \<Union> (set ` set requests)"
  shows "length leaders \<le> length requests"
proof -
  define home where "home i = (SOME j. j < length requests \<and> leaders ! i \<in> set (requests ! j))" for i
  have home: "home i < length requests \<and> leaders ! i \<in> set (requests ! home i)"
    if "i < length leaders" for i
  proof -
    have "leaders ! i \<in> \<Union> (set ` set requests)"
      using cover nth_mem [OF that] by blast
    then obtain ps where "ps \<in> set requests" "leaders ! i \<in> set ps"
      by blast
    then have "\<exists>j. j < length requests \<and> leaders ! i \<in> set (requests ! j)"
      by (metis in_set_conv_nth)
    then show ?thesis unfolding home_def by (rule someI_ex)
  qed
  have "inj_on home {..<length leaders}"
  proof (rule linorder_inj_onI')
    fix i j
    assume ij: "i \<in> {..<length leaders}" "j \<in> {..<length leaders}" "i < j"
    then have "too_far (leaders ! i) (leaders ! j)"
      using apart by (simp add: sorted_wrt_iff_nth_less)
    moreover have "request_for (requests ! home i)"
      using requests home [of i] ij by simp
    ultimately show "home i \<noteq> home j"
      using home [of i] home [of j] ij too_far_request by (metis lessThan_iff)
  qed
  moreover have "home ` {..<length leaders} \<subseteq> {..<length requests}"
    using home by auto
  ultimately have "card {..<length leaders} \<le> card {..<length requests}"
    by (intro card_inj_on_le [of home]) simp_all
  then show ?thesis by simp
qed

lemma groupPoints_fewest:
  assumes "\<forall>ps\<in>set requests. request_for ps" and "set points \<subseteq> \<Union> (set ` set requests)"
  shows "length (groupPoints points) \<le> length requests"
proof -
  have "set (map leader (groupPoints points)) \<subseteq> set points"
  proof
    fix p
    assume "p \<in> set (map leader (groupPoints points))"
    then obtain g where g: "g \<in> set (groupPoints points)" "p = hd (pg_points g)"
      by (auto simp: leader_def)
    then have "pg_points g \<noteq> []"
      using groupPoints_facts(1) group_okD(1) by blast
    then have "p \<in> set (pg_points g)"
      using g(2) by simp
    with g(1) have "p \<in> set (concat (map pg_points (groupPoints points)))"
      by auto
    then show "p \<in> set points"
      using groupPoints_facts(2) [of points] by (metis set_mset_mset)
  qed
  with assms requests_needed [OF groupPoints_facts(3) assms(1), of points] show ?thesis
    by simp
qed

end
