(* ===== verification/Modbus_Reader.thy ===== *)
theory Modbus_Reader
  imports Modbus_Group
begin

text \<open>
  \<open>modbus/reader.go\<close>: reading a group of points from a device and decoding its registers. The
  device (the \<open>deviceReader\<close> interface, implemented by a third-party client) is the record of its
  three reads. A decoded value is a \<open>bool\<close>, an \<open>int64\<close> or a \<open>float64\<close>; the last is its bit pattern.
\<close>

datatype hw_value = HBool bool | HInt int | HFloat f64

record device_reader =
  rd_coils :: "u16 \<Rightarrow> u16 \<Rightarrow> go_error + bool list"
  rd_discrete_inputs :: "u16 \<Rightarrow> u16 \<Rightarrow> go_error + bool list"
  rd_raw_bytes :: "u16 \<Rightarrow> u16 \<Rightarrow> bool \<Rightarrow> go_error + u8 list"

text \<open>The third argument of \<open>rd_raw_bytes\<close> is true for input registers, false for holding registers.\<close>

section \<open>Byte and word order\<close>

fun swap_bytes :: "u8 list \<Rightarrow> u8 list" where
  "swap_bytes (a # b # rest) = b # a # swap_bytes rest"
| "swap_bytes rest = rest"

text \<open>The loop that exchanges the words from both ends inwards.\<close>

function swap_words :: "nat \<Rightarrow> nat \<Rightarrow> u8 list \<Rightarrow> u8 list" where
  "swap_words left right xs =
     (if left < right
      then swap_words (left + 2) (right - 2)
             (xs[left := xs ! right, right := xs ! left, left + 1 := xs ! (right + 1),
                 right + 1 := xs ! (left + 1)])
      else xs)"
  by pat_completeness auto
termination
  by (relation "measure (\<lambda>(left, right, xs). right - left)") auto

declare swap_words.simps [simp del]

definition reorder :: "u8 list \<Rightarrow> byte_order \<Rightarrow> byte_order \<Rightarrow> u8 list" where
  "reorder raw bytes words =
     (let xs = (if bytes = OrderLittle then swap_bytes raw else raw)
      in if words = OrderLittle \<and> length xs > 2 then swap_words 0 (length xs - 2) xs else xs)"

section \<open>Decoding\<close>

text \<open>\<open>binary.BigEndian\<close>: the first byte is the most significant.\<close>

definition big_endian :: "u8 list \<Rightarrow> int" where
  "big_endian bs = foldl (\<lambda>acc b. 256 * acc + uint b) 0 bs"

definition as_signed :: "nat \<Rightarrow> int \<Rightarrow> int" where
  "as_signed bits n = (if n < 2 ^ (bits - 1) then n else n - 2 ^ bits)"

definition decodeRegisters :: "u8 list \<Rightarrow> point \<Rightarrow> go_error + hw_value" where
  "decodeRegisters raw p =
     (let expected = unat (registerCount (pt_encoding p)) * 2;
          ordered = reorder raw (pt_byte_order p) (pt_word_order p)
      in if length raw \<noteq> expected
         then Inl (errorf ''read %d bytes for %s, want %d''
                [FInt (int (length raw)), FStr (encoding_name (pt_encoding p)), FInt (int expected)])
         else (case pt_encoding p of
                 EncodingInt16 \<Rightarrow> Inr (HInt (as_signed 16 (big_endian ordered)))
               | EncodingUint16 \<Rightarrow> Inr (HInt (big_endian ordered))
               | EncodingInt32 \<Rightarrow> Inr (HInt (as_signed 32 (big_endian ordered)))
               | EncodingUint32 \<Rightarrow> Inr (HInt (big_endian ordered))
               | EncodingFloat32 \<Rightarrow> Inr (HFloat (f32_to_f64 (word_of_int (big_endian ordered))))
               | EncodingFloat64 \<Rightarrow> Inr (HFloat (word_of_int (big_endian ordered)))
               | _ \<Rightarrow> Inl (errors_new ''unsupported register encoding'')))"

section \<open>Reading a group\<close>

text \<open>\<open>point.Address - group.address\<close> is 16-bit subtraction: it cannot be negative.\<close>

definition point_offset :: "poll_group \<Rightarrow> poll_point \<Rightarrow> nat" where
  "point_offset g p = unat (pt_address (pp_point p) - pg_address g)"

definition outside_error :: "poll_group \<Rightarrow> poll_point \<Rightarrow> go_error" where
  "outside_error g p =
     errorf ''point %s is outside the %s block at %d''
       [FStr (pp_subject p), FStr (register_name (pg_register g)), FInt (uint (pg_address g))]"

fun bitValues :: "poll_group \<Rightarrow> bool list \<Rightarrow> poll_point list \<Rightarrow> hw_value list \<Rightarrow>
    go_error + hw_value list" where
  "bitValues g bits [] values = Inr values"
| "bitValues g bits (p # ps) values =
     (let index = point_offset g p
      in if index \<ge> length bits then Inl (outside_error g p)
         else bitValues g bits ps (values @ [HBool (bits ! index)]))"

definition decodeBits :: "poll_group \<Rightarrow> bool list \<Rightarrow> go_error + hw_value list" where
  "decodeBits g bits =
     (if length bits \<noteq> unat (pg_quantity g)
      then Inl (errorf ''read %d bits from %s %d, want %d''
             [FInt (int (length bits)), FStr (register_name (pg_register g)),
              FInt (uint (pg_address g)), FInt (uint (pg_quantity g))])
      else bitValues g bits (pg_points g) [])"

fun registerValues :: "poll_group \<Rightarrow> u8 list \<Rightarrow> poll_point list \<Rightarrow> hw_value list \<Rightarrow>
    go_error + hw_value list" where
  "registerValues g raw [] values = Inr values"
| "registerValues g raw (p # ps) values =
     (let offset = point_offset g p * 2;
          count = unat (registerCount (pt_encoding (pp_point p))) * 2
      in if offset + count > length raw then Inl (outside_error g p)
         else (case decodeRegisters (take count (drop offset raw)) (pp_point p) of
                 Inl e \<Rightarrow> Inl e
               | Inr v \<Rightarrow> registerValues g raw ps (values @ [v])))"

definition readGroup :: "device_reader \<Rightarrow> poll_group \<Rightarrow> go_error + hw_value list" where
  "readGroup rd g =
     (if pg_register g = RegisterCoil
      then (case rd_coils rd (pg_address g) (pg_quantity g) of
              Inl e \<Rightarrow> Inl e | Inr bits \<Rightarrow> decodeBits g bits)
      else if pg_register g = RegisterDiscreteInput
      then (case rd_discrete_inputs rd (pg_address g) (pg_quantity g) of
              Inl e \<Rightarrow> Inl e | Inr bits \<Rightarrow> decodeBits g bits)
      else (case rd_raw_bytes rd (pg_address g) (pg_quantity g * 2)
                   (pg_register g = RegisterInputRegister) of
              Inl e \<Rightarrow> Inl e
            | Inr raw \<Rightarrow>
                if length raw \<noteq> unat (pg_quantity g) * 2
                then Inl (errorf ''read %d bytes from %s %d, want %d''
                       [FInt (int (length raw)), FStr (register_name (pg_register g)),
                        FInt (uint (pg_address g)), FInt (uint (pg_quantity g) * 2)])
                else registerValues g raw (pg_points g) []))"

definition readValue :: "device_reader \<Rightarrow> point \<Rightarrow> go_error + hw_value" where
  "readValue rd p =
     (case readGroup rd
             \<lparr>pg_register = pt_register p, pg_address = pt_address p,
              pg_quantity = registerCount (pt_encoding p),
              pg_points = [\<lparr>pp_subject = [], pp_point = p, pp_publish_on_change = False\<rparr>]\<rparr> of
        Inl e \<Rightarrow> Inl e
      | Inr values \<Rightarrow> Inr (hd values))"

section \<open>Reordering\<close>

lemma swap_bytes_nth:
  "even (length xs) \<Longrightarrow> i < length xs \<Longrightarrow>
     swap_bytes xs ! i = xs ! (if even i then i + 1 else i - 1)"
proof (induction xs arbitrary: i rule: swap_bytes.induct)
  case (1 a b rest)
  then show ?case
    by (cases i; cases "i - 1") (auto simp: nth_Cons' split: if_splits)
qed simp_all

lemma length_swap_bytes [simp]: "length (swap_bytes xs) = length xs"
  by (induction xs rule: swap_bytes.induct) simp_all

lemma length_swap_words [simp]: "length (swap_words l r xs) = length xs"
  by (induction l r xs rule: swap_words.induct) (subst swap_words.simps, auto)

text \<open>The position a byte comes from when the words between two positions are exchanged.\<close>

definition mirror :: "nat \<Rightarrow> nat \<Rightarrow> nat \<Rightarrow> nat" where
  "mirror l r i = (if l \<le> i \<and> i < r + 2 then l + r + 2 * (i mod 2) - i else i)"

lemma swap_words_outer:
  assumes "l + 2 \<le> r" and "even l" "even r" "r + 1 < length xs" "i < length xs"
    and "i = l \<or> i = l + 1 \<or> i = r \<or> i = r + 1 \<or> i < l \<or> r + 2 \<le> i"
  shows "xs[l := xs ! r, r := xs ! l, l + 1 := xs ! (r + 1), r + 1 := xs ! (l + 1)] ! i =
    xs ! mirror l r i"
proof -
  have parity: "l mod 2 = 0" "r mod 2 = 0" "(l + 1) mod 2 = 1" "(r + 1) mod 2 = 1"
    using assms(2,3) by (simp_all add: even_iff_mod_2_eq_zero mod_Suc)
  from assms(6) show ?thesis
  proof (elim disjE)
    assume "i = l"
    with assms parity show ?thesis by (simp add: mirror_def nth_list_update)
  next
    assume "i = l + 1"
    with assms parity show ?thesis by (simp add: mirror_def nth_list_update)
  next
    assume "i = r"
    with assms parity show ?thesis by (simp add: mirror_def nth_list_update)
  next
    assume "i = r + 1"
    with assms parity show ?thesis by (simp add: mirror_def nth_list_update)
  next
    assume "i < l"
    with assms show ?thesis by (simp add: mirror_def nth_list_update)
  next
    assume "r + 2 \<le> i"
    with assms show ?thesis by (simp add: mirror_def nth_list_update)
  qed
qed

lemma swap_words_nth:
  assumes "even l" and "even r" and "r + 1 < length xs" and "l \<le> r + 2" and "i < length xs"
  shows "swap_words l r xs ! i = xs ! mirror l r i"
  using assms
proof (induction l r xs arbitrary: i rule: swap_words.induct)
  case (1 l r xs)
  show ?case
  proof (cases "l < r")
    case False
    then have "r = l \<or> r + 2 = l"
      using 1(2,3,5) by presburger
    moreover have "i = l \<or> i = l + 1" if "l \<le> i" "i < l + 2"
      using that by linarith
    ultimately have "mirror l r i = i"
      using 1(2) by (auto simp: mirror_def mod_Suc even_iff_mod_2_eq_zero)
    with False show ?thesis by (simp add: swap_words.simps)
  next
    case True
    let ?xs = "xs[l := xs ! r, r := xs ! l, l + 1 := xs ! (r + 1), r + 1 := xs ! (l + 1)]"
    have r: "l + 2 \<le> r" using True 1(2,3) by presburger
    have "swap_words l r xs ! i = ?xs ! mirror (l + 2) (r - 2) i"
      using 1(1) [OF True, of i] 1(2-) r True by (simp add: swap_words.simps [of l r xs])
    also have "\<dots> = xs ! mirror l r i"
    proof (cases "l + 2 \<le> i \<and> i < r")
      case inner: True
      have sums: "l + 2 + (r - 2) = l + r" "r - 2 + 2 = r"
        using r by linarith+
      have m: "mirror (l + 2) (r - 2) i = l + r + 2 * (i mod 2) - i"
        unfolding mirror_def sums using inner by simp
      have "i + 2 \<le> r \<or> i mod 2 = 1" "l + 3 \<le> i \<or> i mod 2 = 0"
        using inner 1(2,3) by presburger+
      then have "l + 2 \<le> l + r + 2 * (i mod 2) - i" "l + r + 2 * (i mod 2) - i < r"
        using inner by auto
      moreover have "mirror l r i = l + r + 2 * (i mod 2) - i"
        using inner by (simp add: mirror_def)
      ultimately show ?thesis unfolding m by simp
    next
      case outer: False
      then have m: "mirror (l + 2) (r - 2) i = i"
        using r by (auto simp: mirror_def)
      have "i = l \<or> i = l + 1 \<or> i = r \<or> i = r + 1 \<or> i < l \<or> r + 2 \<le> i"
        using outer by linarith
      then show ?thesis
        unfolding m by (rule swap_words_outer [OF r 1(2-4,6)])
    qed
    finally show ?thesis .
  qed
qed

lemma reorder_words_nth:
  assumes "even (length xs)" and "2 < length xs" and "i < length xs"
  shows "swap_words 0 (length xs - 2) xs ! i = xs ! (length xs - 2 + 2 * (i mod 2) - i)"
proof -
  have "length xs - 2 + 2 = length xs" "length xs - 2 + 1 < length xs"
    using assms(2) by simp_all
  then show ?thesis
    using assms swap_words_nth [of 0 "length xs - 2" xs i] by (simp only: mirror_def) simp
qed

lemma length_reorder [simp]: "length (reorder raw b w) = length raw"
  by (simp add: reorder_def Let_def)

lemma swap_bytes_swap_bytes [simp]: "swap_bytes (swap_bytes xs) = xs"
  by (induction xs rule: swap_bytes.induct) simp_all

text \<open>Where each byte of the reordered value comes from.\<close>

definition byte_source :: "byte_order \<Rightarrow> byte_order \<Rightarrow> nat \<Rightarrow> nat \<Rightarrow> nat" where
  "byte_source b w n i =
     (let j = (if w = OrderLittle then n - 2 + 2 * (i mod 2) - i else i)
      in if b = OrderLittle then (if even j then j + 1 else j - 1) else j)"

lemma word_swap_source:
  "j < k \<Longrightarrow> c \<le> 1 \<Longrightarrow> 2 * k - 2 + 2 * ((2 * j + c) mod 2) - (2 * j + c) = 2 * (k - 1 - j) + (c :: nat)"
  by (cases "c = 0") auto

lemma byte_source_word:
  assumes "j < k" and "c \<le> 1"
  shows "byte_source b w (2 * k) (2 * j + c) =
    2 * (if w = OrderLittle then k - 1 - j else j) + (if b = OrderLittle then 1 - c else c)"
proof -
  have "c = 0 \<or> c = 1" using assms(2) by linarith
  then show ?thesis
    unfolding byte_source_def word_swap_source [OF assms] by (elim disjE) (simp_all add: Let_def)
qed

lemma word_position:
  assumes "even n" and "i < (n :: nat)"
  obtains k j c where "n = 2 * k" "i = 2 * j + c" "j < k" "c \<le> 1"
proof -
  from assms(1) obtain k where "n = 2 * k" by (elim evenE)
  moreover have "i = 2 * (i div 2) + i mod 2" "i mod 2 \<le> 1" by simp_all
  ultimately show thesis
    using that [of k "i div 2" "i mod 2"] assms(2) by linarith
qed

lemma byte_source_involution:
  assumes "even n" and "i < n"
  shows "byte_source b w n (byte_source b w n i) = i" "byte_source b w n i < n"
proof -
  obtain k j c where p: "n = 2 * k" "i = 2 * j + c" "j < k" "c \<le> 1"
    using assms by (rule word_position)
  define j' where "j' = (if w = OrderLittle then k - 1 - j else j)"
  define c' where "c' = (if b = OrderLittle then 1 - c else c)"
  have less: "j' < k" "c' \<le> 1"
    using p by (auto simp: j'_def c'_def)
  have src: "byte_source b w n i = 2 * j' + c'"
    using byte_source_word [OF p(3,4)] p by (simp add: j'_def c'_def)
  then show "byte_source b w n i < n"
    using less p(1) by linarith
  have "(if w = OrderLittle then k - 1 - j' else j') = j" "(if b = OrderLittle then 1 - c' else c') = c"
    using p by (auto simp: j'_def c'_def)
  then show "byte_source b w n (byte_source b w n i) = i"
    unfolding src using byte_source_word [OF less, of b w] p by simp
qed

lemma reorder_nth:
  assumes "even (length raw)" and "i < length raw"
  shows "reorder raw b w ! i = raw ! byte_source b w (length raw) i"
proof -
  let ?xs = "if b = OrderLittle then swap_bytes raw else raw"
  define j where "j = (if w = OrderLittle then length raw - 2 + 2 * (i mod 2) - i else i)"
  obtain k m c where p: "length raw = 2 * k" "i = 2 * m + c" "m < k" "c \<le> 1"
    using assms by (rule word_position)
  have little: "length raw - 2 + 2 * (i mod 2) - i = 2 * (k - 1 - m) + c"
    using word_swap_source [OF p(3,4)] p by simp
  have j: "j < length raw"
    using assms(2) p little unfolding j_def by auto
  have "reorder raw b w ! i = ?xs ! j"
  proof (cases "w = OrderLittle \<and> 2 < length raw")
    case True
    then show ?thesis
      using reorder_words_nth [of ?xs i] assms
      by (cases "b = OrderLittle") (simp_all add: reorder_def Let_def j_def)
  next
    case False
    have "j = i"
    proof (cases "w = OrderLittle")
      case True
      with False p have "k = 1" "m = 0" by auto
      with p little show ?thesis by (simp add: j_def)
    qed (simp add: j_def)
    with False show ?thesis by (auto simp: reorder_def Let_def)
  qed
  also have "\<dots> = raw ! byte_source b w (length raw) i"
    using swap_bytes_nth [OF assms(1) j] by (simp add: byte_source_def flip: j_def)
  finally show ?thesis .
qed

lemma reorder_involution:
  assumes "even (length raw)"
  shows "reorder (reorder raw b w) b w = raw"
  by (rule nth_equalityI)
    (simp_all add: reorder_nth assms byte_source_involution)

lemma reorder_little_little:
  assumes "even (length raw)"
  shows "reorder raw OrderLittle OrderLittle = rev raw"
proof (rule nth_equalityI)
  fix i
  assume "i < length (reorder raw OrderLittle OrderLittle)"
  then have i: "i < length raw" by simp
  moreover have "byte_source OrderLittle OrderLittle (length raw) i = length raw - Suc i"
  proof -
    obtain k m c where p: "length raw = 2 * k" "i = 2 * m + c" "m < k" "c \<le> 1"
      using assms i by (rule word_position)
    then show ?thesis
      using byte_source_word [OF p(3,4), of OrderLittle OrderLittle] by simp
  qed
  ultimately show "reorder raw OrderLittle OrderLittle ! i = rev raw ! i"
    by (simp add: reorder_nth assms rev_nth)
qed simp

end
