(* ===== verification/Modbus_Read_Spec.thy ===== *)
theory Modbus_Read_Spec
  imports Modbus_Reader
begin

text \<open>
  Against a device that answers from its memory, reading a group returns for each point what reading
  the point alone returns, and every valid point decodes to a value of its type and range.
\<close>

section \<open>A device and its memory\<close>

text \<open>The bit tables by number, the register tables (true: input registers) by byte.\<close>

record device_memory =
  mem_coil :: "nat \<Rightarrow> bool"
  mem_discrete :: "nat \<Rightarrow> bool"
  mem_register :: "bool \<Rightarrow> nat \<Rightarrow> u8"

text \<open>The documented behaviour of the reads, for requests within the tables and the protocol's limit.\<close>

definition serves :: "device_reader \<Rightarrow> device_memory \<Rightarrow> bool" where
  "serves rd m \<longleftrightarrow>
     (\<forall>a q. unat a + unat q \<le> 65536 \<and> unat q \<le> 2000 \<longrightarrow>
        rd_coils rd a q = Inr (map (mem_coil m) [unat a ..< unat a + unat q]) \<and>
        rd_discrete_inputs rd a q = Inr (map (mem_discrete m) [unat a ..< unat a + unat q])) \<and>
     (\<forall>a n t. 2 * unat a + unat n \<le> 131072 \<and> unat n \<le> 250 \<longrightarrow>
        rd_raw_bytes rd a n t = Inr (map (mem_register m t) [2 * unat a ..< 2 * unat a + unat n]))"

text \<open>A device of that kind.\<close>

definition memory_reader :: "device_memory \<Rightarrow> device_reader" where
  "memory_reader m =
     \<lparr>rd_coils = (\<lambda>a q. Inr (map (mem_coil m) [unat a ..< unat a + unat q])),
      rd_discrete_inputs = (\<lambda>a q. Inr (map (mem_discrete m) [unat a ..< unat a + unat q])),
      rd_raw_bytes =
        (\<lambda>a n t. Inr (map (mem_register m t) [2 * unat a ..< 2 * unat a + unat n]))\<rparr>"

lemma serves_memory_reader: "serves (memory_reader m) m"
  by (simp add: serves_def memory_reader_def)

section \<open>The value of a point\<close>

definition point_bytes :: "device_memory \<Rightarrow> point \<Rightarrow> u8 list" where
  "point_bytes m p =
     map (mem_register m (pt_register p = RegisterInputRegister))
       [2 * unat (pt_address p) ..< 2 * (unat (pt_address p) + unat (registerCount (pt_encoding p)))]"

definition point_value :: "device_memory \<Rightarrow> point \<Rightarrow> hw_value" where
  "point_value m p =
     (if pt_register p = RegisterCoil then HBool (mem_coil m (unat (pt_address p)))
      else if pt_register p = RegisterDiscreteInput then HBool (mem_discrete m (unat (pt_address p)))
      else projr (decodeRegisters (point_bytes m p) p))"

lemma decodeRegisters_valid:
  assumes "valid_point p" and "pt_register p \<noteq> RegisterCoil" and "pt_register p \<noteq> RegisterDiscreteInput"
    and "length raw = 2 * unat (registerCount (pt_encoding p))"
  shows "ok (decodeRegisters raw p)"
  using valid_point_cases [OF assms(1)] assms(2-4)
  by (auto simp: decodeRegisters_def Let_def mult.commute)

lemma big_endian_bounds: "0 \<le> big_endian bs \<and> big_endian bs < 256 ^ length bs"
proof (induction bs rule: rev_induct)
  case Nil
  then show ?case by (simp add: big_endian_def)
next
  case (snoc b bs)
  have b: "0 \<le> uint b" "uint b < 256"
    using unsigned_less [of b, where 'a = int] by simp_all
  have "big_endian (bs @ [b]) = 256 * big_endian bs + uint b"
    by (simp add: big_endian_def)
  with snoc b show ?case by simp
qed

text \<open>The type and the range of the decoded values.\<close>

definition in_range :: "encoding \<Rightarrow> hw_value \<Rightarrow> bool" where
  "in_range e v =
     (case e of
        EncodingBool \<Rightarrow> (\<exists>b. v = HBool b)
      | EncodingInt16 \<Rightarrow> (\<exists>n. v = HInt n \<and> - 32768 \<le> n \<and> n < 32768)
      | EncodingUint16 \<Rightarrow> (\<exists>n. v = HInt n \<and> 0 \<le> n \<and> n < 65536)
      | EncodingInt32 \<Rightarrow> (\<exists>n. v = HInt n \<and> - 2147483648 \<le> n \<and> n < 2147483648)
      | EncodingUint32 \<Rightarrow> (\<exists>n. v = HInt n \<and> 0 \<le> n \<and> n < 4294967296)
      | EncodingFloat32 \<Rightarrow> (\<exists>w. v = HFloat w)
      | EncodingFloat64 \<Rightarrow> (\<exists>w. v = HFloat w)
      | EncodingOther _ \<Rightarrow> False)"

lemma decodeRegisters_range:
  assumes "decodeRegisters raw p = Inr v"
  shows "in_range (pt_encoding p) v"
proof -
  have len: "length raw = 2 * unat (registerCount (pt_encoding p))"
    using assms by (auto simp: decodeRegisters_def Let_def split: if_splits)
  let ?n = "big_endian (reorder raw (pt_byte_order p) (pt_word_order p))"
  have "0 \<le> ?n" "?n < 256 ^ (2 * unat (registerCount (pt_encoding p)))"
    using big_endian_bounds [of "reorder raw (pt_byte_order p) (pt_word_order p)"] len by simp_all
  then show ?thesis
    using assms len
    by (cases "pt_encoding p")
      (auto simp: decodeRegisters_def Let_def in_range_def as_signed_def registerCount_def)
qed

section \<open>Reading a group\<close>

text \<open>A group that \<open>groupPoints\<close> builds from valid points.\<close>

definition readable_group :: "poll_group \<Rightarrow> bool" where
  "readable_group g \<longleftrightarrow> group_ok g \<and> (\<forall>p\<in>set (pg_points g). valid_point (pp_point p))"

lemma readable_limits:
  assumes "readable_group g"
  shows "group_end g \<le> 65536" "unat (pg_quantity g) \<le> request_limit (pg_register g)"
proof -
  obtain p where p: "p \<in> set (pg_points g)" "end_register p = group_end g"
    using assms group_okD(7) by (auto simp: readable_group_def)
  then have "valid_point (pp_point p)"
    using assms by (simp add: readable_group_def)
  then show "group_end g \<le> 65536"
    using p(2) by (simp add: valid_point_def end_register_def first_register_def)
  show "unat (pg_quantity g) \<le> request_limit (pg_register g)"
    using assms group_okD(2) [of g] by (simp add: readable_group_def group_end_def)
qed

lemma readable_offset:
  assumes "readable_group g" and "p \<in> set (pg_points g)"
  shows "point_offset g p = first_register p - group_first g" "group_first g \<le> first_register p"
    "end_register p \<le> group_end g"
proof -
  show first: "group_first g \<le> first_register p" and "end_register p \<le> group_end g"
    using assms group_okD(5,6) by (auto simp: readable_group_def)
  then show "point_offset g p = first_register p - group_first g"
    by (simp add: point_offset_def first_register_def group_first_def unat_sub_if')
qed

lemma bitValues_readable:
  assumes "readable_group g" and "set ps \<subseteq> set (pg_points g)"
    and "bits = map f [group_first g ..< group_end g]"
    and "\<forall>p\<in>set ps. pt_encoding (pp_point p) = EncodingBool"
  shows "bitValues g bits ps vs = Inr (vs @ map (\<lambda>p. HBool (f (first_register p))) ps)"
  using assms(2,4)
proof (induction ps arbitrary: vs)
  case Nil
  then show ?case by simp
next
  case (Cons p ps)
  then have p: "p \<in> set (pg_points g)" by simp
  note off = readable_offset [OF assms(1) p]
  have "end_register p = first_register p + 1"
    using Cons.prems(2) by (simp add: end_register_def registerCount_def)
  then have "point_offset g p < length bits" "bits ! point_offset g p = f (first_register p)"
    using off assms(3) by (simp_all add: Suc_le_eq)
  with Cons show ?case by (simp add: Let_def)
qed

lemma registerValues_readable:
  assumes "readable_group g" and "set ps \<subseteq> set (pg_points g)"
    and "raw = map f [2 * group_first g ..< 2 * group_end g]"
    and "\<forall>p\<in>set ps. decodeRegisters (map f [2 * first_register p ..< 2 * end_register p]) (pp_point p) = Inr (v p)"
  shows "registerValues g raw ps vs = Inr (vs @ map v ps)"
  using assms(2,4)
proof (induction ps arbitrary: vs)
  case Nil
  then show ?case by simp
next
  case (Cons p ps)
  then have p: "p \<in> set (pg_points g)" by simp
  note off = readable_offset [OF assms(1) p]
  let ?count = "unat (registerCount (pt_encoding (pp_point p))) * 2"
  have count: "2 * end_register p = 2 * first_register p + ?count"
    by (simp add: end_register_def)
  have fits: "point_offset g p * 2 + ?count \<le> length raw"
    using off count assms(3) by simp
  have shift: "2 * group_first g + (first_register p - group_first g) * 2 = 2 * first_register p"
    using off(2) by simp
  have "take ?count (drop (point_offset g p * 2) raw) = map f [2 * first_register p ..< 2 * end_register p]"
    using off count assms(3) fits shift
    by (simp add: drop_map take_map drop_upt take_upt)
  with Cons fits show ?case by (simp add: Let_def)
qed

lemma valid_point_kind:
  assumes "valid_point p"
  shows "pt_register p \<in> {RegisterCoil, RegisterDiscreteInput} \<Longrightarrow> pt_encoding p = EncodingBool"
    and "pt_register p \<in> {RegisterCoil, RegisterDiscreteInput, RegisterInputRegister, RegisterHoldingRegister}"
  using valid_point_cases [OF assms] by auto

lemma readGroup_readable:
  assumes g: "readable_group g" and m: "serves rd m"
  shows "readGroup rd g = Inr (map (\<lambda>p. point_value m (pp_point p)) (pg_points g))"
proof -
  let ?r = "pg_register g"
  have reg: "pt_register (pp_point p) = ?r" "valid_point (pp_point p)" if "p \<in> set (pg_points g)" for p
    using g that group_okD(4) by (auto simp: readable_group_def point_register_def)
  have "pg_points g \<noteq> []"
    using g group_okD(1) by (simp add: readable_group_def)
  then have kind: "?r \<in> {RegisterCoil, RegisterDiscreteInput, RegisterInputRegister, RegisterHoldingRegister}"
    using reg valid_point_kind(2) by (metis last_in_set)
  have range: "unat (pg_address g) = group_first g"
      "unat (pg_address g) + unat (pg_quantity g) = group_end g"
    by (simp_all add: group_first_def group_end_def)
  note limits = readable_limits [OF g]
  show ?thesis
  proof (cases "?r \<in> {RegisterCoil, RegisterDiscreteInput}")
    case True
    define f where "f = (if ?r = RegisterCoil then mem_coil m else mem_discrete m)"
    have "unat (pg_quantity g) \<le> 2000"
      using limits(2) request_limit_bounds(2) [of ?r] by linarith
    then have "rd_coils rd (pg_address g) (pg_quantity g) =
        Inr (map (mem_coil m) [group_first g ..< group_end g])"
      "rd_discrete_inputs rd (pg_address g) (pg_quantity g) =
        Inr (map (mem_discrete m) [group_first g ..< group_end g])"
      using m limits(1) range unfolding serves_def by metis+
    then have "readGroup rd g = decodeBits g (map f [group_first g ..< group_end g])"
      using True by (auto simp: readGroup_def f_def)
    also have "\<dots> = bitValues g (map f [group_first g ..< group_end g]) (pg_points g) []"
      by (simp add: decodeBits_def group_end_def)
    also have "\<dots> = Inr (map (\<lambda>p. HBool (f (first_register p))) (pg_points g))"
      using bitValues_readable [OF g subset_refl refl, of f "[]"] reg True valid_point_kind(1) by simp
    also have "map (\<lambda>p. HBool (f (first_register p))) (pg_points g) =
        map (\<lambda>p. point_value m (pp_point p)) (pg_points g)"
      using reg True by (auto simp: point_value_def f_def first_register_def)
    finally show ?thesis .
  next
    case False
    let ?f = "mem_register m (?r = RegisterInputRegister)"
    have "unat (pg_quantity g) \<le> 125"
      using limits(2) False kind by (auto simp: request_limit_def maxQuantity_def maxRegisterQuantity_def)
    moreover from this have double: "unat (pg_quantity g * 2) = 2 * unat (pg_quantity g)"
      by (simp add: unat_word_ariths)
    ultimately have "2 * unat (pg_address g) + unat (pg_quantity g * 2) \<le> 131072"
        "unat (pg_quantity g * 2) \<le> 250"
      using limits(1) range by linarith+
    then have "rd_raw_bytes rd (pg_address g) (pg_quantity g * 2) (?r = RegisterInputRegister) =
        Inr (map ?f [2 * unat (pg_address g) ..< 2 * unat (pg_address g) + unat (pg_quantity g * 2)])"
      using m unfolding serves_def by blast
    also have "2 * unat (pg_address g) + unat (pg_quantity g * 2) = 2 * group_end g"
      using double range by simp
    finally have raw: "rd_raw_bytes rd (pg_address g) (pg_quantity g * 2) (?r = RegisterInputRegister) =
        Inr (map ?f [2 * group_first g ..< 2 * group_end g])"
      by (simp add: range)
    have decoded: "decodeRegisters (map ?f [2 * first_register p ..< 2 * end_register p]) (pp_point p) =
        Inr (point_value m (pp_point p))" if "p \<in> set (pg_points g)" for p
    proof -
      have bytes: "map ?f [2 * first_register p ..< 2 * end_register p] = point_bytes m (pp_point p)"
        by (simp add: point_bytes_def first_register_def end_register_def reg(1) [OF that])
      have "ok (decodeRegisters (point_bytes m (pp_point p)) (pp_point p))"
        using reg [OF that] False by (intro decodeRegisters_valid) (auto simp: point_bytes_def)
      then show ?thesis
        using bytes reg(1) [OF that] False by (auto simp: point_value_def ok_iff)
    qed
    have "readGroup rd g = registerValues g (map ?f [2 * group_first g ..< 2 * group_end g]) (pg_points g) []"
      using False raw by (simp add: readGroup_def group_end_def)
    also have "\<dots> = Inr (map (\<lambda>p. point_value m (pp_point p)) (pg_points g))"
      using registerValues_readable [OF g subset_refl refl, of ?f "\<lambda>p. point_value m (pp_point p)" "[]"] decoded
      by simp
    finally show ?thesis .
  qed
qed

lemma readable_single:
  assumes "valid_point p"
  shows "readable_group \<lparr>pg_register = pt_register p, pg_address = pt_address p,
    pg_quantity = registerCount (pt_encoding p),
    pg_points = [\<lparr>pp_subject = s, pp_point = p, pp_publish_on_change = c\<rparr>]\<rparr>"
  using assms registerCount_bounds(2) [of "pt_encoding p"] request_limit_bounds(1) [of "pt_register p"]
  by (simp add: readable_group_def group_ok_def group_end_def group_first_def first_register_def
      end_register_def point_register_def)

lemma readValue_valid:
  assumes "valid_point p" and "serves rd m"
  shows "readValue rd p = Inr (point_value m p)"
  using readGroup_readable [OF readable_single [OF assms(1)] assms(2)] by (simp add: readValue_def)

end
