(* ===== verification/Modbus_Service.thy ===== *)
theory Modbus_Service
  imports Modbus_Read_Spec "HOL-Library.AList"
begin

text \<open>
  \<open>modbus/service.go\<close>: the service that follows connection and point descriptors, keeps one polling
  worker per connection with points, reads its groups and publishes the values. Go maps are
  association lists with distinct keys. The stream, the codecs and the devices are the record
  \<open>modbus_env\<close>, indexed by the number of calls made so far; so is the order of the loop over the map
  of points. Publications that succeeded are kept, newest first.

  A handler, which holds \<open>reconcileMu\<close>, and one turn of a worker are steps; the two critical sections
  of \<open>reconcileConnection\<close> are separate definitions, because a worker may run between them.
\<close>

definition AddressSuffix :: string where "AddressSuffix = ''.address''"
definition ConnectionSuffix :: string where "ConnectionSuffix = ''.config''"

record modbus_env =
  mv_json :: address_json
  mv_codec :: modbus_codec
  mv_order :: "nat \<Rightarrow> string list \<Rightarrow> string list"
  mv_list :: "nat \<Rightarrow> string \<Rightarrow> string list option"
  mv_get :: "nat \<Rightarrow> string \<Rightarrow> string option"
  mv_subscribe :: "nat \<Rightarrow> string \<Rightarrow> bool"
  mv_publish :: "nat \<Rightarrow> string \<Rightarrow> hw_value \<Rightarrow> bool"
  mv_open :: "nat \<Rightarrow> connection \<Rightarrow> bool"
  mv_device :: "nat \<Rightarrow> connection \<Rightarrow> device_reader"

record point_definition =
  pd_raw :: string
  pd_descriptor :: descriptor

record connection_definition =
  cd_raw :: string
  cd_descriptor :: hw_connection
  cd_connection :: connection

record worker =
  wk_connection :: connection
  wk_points :: "poll_point list"

record managed_client =
  cl_connection :: connection
  cl_open :: bool

record modbus_service =
  ms_points :: "(string \<times> point_definition) list"
  ms_connections :: "(string \<times> connection_definition) list"
  ms_workers :: "(string \<times> worker) list"
  ms_clients :: "(string \<times> managed_client) list"
  ms_last :: "(string \<times> hw_value) list"
  ms_started :: bool
  ms_calls :: nat
  ms_outbox :: "(string \<times> hw_value) list"

definition new_modbus_service :: modbus_service where
  "new_modbus_service =
     \<lparr>ms_points = [], ms_connections = [], ms_workers = [], ms_clients = [], ms_last = [],
      ms_started = False, ms_calls = 0, ms_outbox = []\<rparr>"

definition tick :: "modbus_service \<Rightarrow> modbus_service" where
  "tick sv = sv\<lparr>ms_calls := Suc (ms_calls sv)\<rparr>"

definition targetSubject :: "string \<Rightarrow> string option" where
  "targetSubject s =
     (let n = length s - length AddressSuffix
      in if length s \<le> length AddressSuffix \<or> drop n s \<noteq> AddressSuffix then None else Some (take n s))"

section \<open>Publishing\<close>

text \<open>Go's \<open>==\<close> on the dynamic values: floats compare as numbers.\<close>

fun same_value :: "hw_value \<Rightarrow> hw_value \<Rightarrow> bool" where
  "same_value (HBool a) (HBool b) = (a = b)"
| "same_value (HInt a) (HInt b) = (a = b)"
| "same_value (HFloat a) (HFloat b) = f64_eq a b"
| "same_value _ _ = False"

definition sameAsLast :: "string \<Rightarrow> hw_value \<Rightarrow> modbus_service \<Rightarrow> bool" where
  "sameAsLast subject v sv =
     (case map_of (ms_last sv) subject of None \<Rightarrow> False | Some last_v \<Rightarrow> same_value last_v v)"

definition rememberPublished :: "string \<Rightarrow> hw_value \<Rightarrow> modbus_service \<Rightarrow> modbus_service" where
  "rememberPublished subject v sv = sv\<lparr>ms_last := AList.update subject v (ms_last sv)\<rparr>"

definition forgetPublished :: "string \<Rightarrow> modbus_service \<Rightarrow> modbus_service" where
  "forgetPublished subject sv = sv\<lparr>ms_last := AList.delete subject (ms_last sv)\<rparr>"

definition publishValue ::
    "modbus_env \<Rightarrow> string \<Rightarrow> hw_type \<Rightarrow> hw_value \<Rightarrow> modbus_service \<Rightarrow> modbus_service \<times> bool" where
  "publishValue env subject ty v sv =
     (if (case (ty, v) of
            (HwBool, HBool _) \<Rightarrow> True | (HwInt64, HInt _) \<Rightarrow> True | (HwFloat64, HFloat _) \<Rightarrow> True
          | _ \<Rightarrow> False)
      then (if mv_publish env (ms_calls sv) subject v
            then ((tick sv)\<lparr>ms_outbox := (subject, v) # ms_outbox sv\<rparr>, True) else (tick sv, False))
      else (sv, False))"

definition publish ::
    "modbus_env \<Rightarrow> string \<Rightarrow> hw_type \<Rightarrow> hw_value \<Rightarrow> bool \<Rightarrow> modbus_service \<Rightarrow> modbus_service" where
  "publish env subject ty v on_change sv =
     (if on_change \<and> sameAsLast subject v sv then sv
      else (case publishValue env subject ty v sv of
              (sv', False) \<Rightarrow> sv'
            | (sv', True) \<Rightarrow> rememberPublished subject v sv'))"

section \<open>Workers and clients\<close>

text \<open>One point of a connection, when its descriptor is usable.\<close>

definition pollPoint ::
    "modbus_env \<Rightarrow> string \<Rightarrow> connection_definition \<Rightarrow> string \<Rightarrow> point_definition \<Rightarrow> poll_point option" where
  "pollPoint env connectionSubject c subject d =
     (if ds_connection (pd_descriptor d) \<noteq> connectionSubject then None
      else if ds_driver (pd_descriptor d) \<noteq> hc_driver (cd_descriptor c) then None
      else (case ParsePoint (mv_codec env) (pd_descriptor d) (cd_connection c) of
              Inl _ \<Rightarrow> None
            | Inr p \<Rightarrow>
                (case targetSubject subject of
                   None \<Rightarrow> None
                 | Some target \<Rightarrow>
                     Some \<lparr>pp_subject = target, pp_point = p,
                           pp_publish_on_change = ds_publish_on_change (pd_descriptor d)\<rparr>)))"

definition connectionPointsLocked ::
    "modbus_env \<Rightarrow> string \<Rightarrow> connection_definition \<Rightarrow> modbus_service \<Rightarrow> poll_point list" where
  "connectionPointsLocked env connectionSubject c sv =
     List.map_filter
       (\<lambda>subject. Option.bind (map_of (ms_points sv) subject) (pollPoint env connectionSubject c subject))
       (mv_order env (ms_calls sv) (map fst (ms_points sv)))"

definition stopWorker :: "string \<Rightarrow> modbus_service \<Rightarrow> modbus_service" where
  "stopWorker subject sv = sv\<lparr>ms_workers := AList.delete subject (ms_workers sv)\<rparr>"

definition restartConnection :: "modbus_env \<Rightarrow> string \<Rightarrow> modbus_service \<Rightarrow> modbus_service" where
  "restartConnection env subject sv =
     (let sv1 = stopWorker subject sv
      in case map_of (ms_connections sv1) subject of
           None \<Rightarrow> tick sv1
         | Some c \<Rightarrow>
             (let points = connectionPointsLocked env subject c sv1
              in if points = [] then tick sv1
                 else (tick sv1)\<lparr>ms_workers :=
                        AList.update subject \<lparr>wk_connection = cd_connection c, wk_points = points\<rparr>
                          (ms_workers sv1)\<rparr>))"

definition clientFor :: "string \<Rightarrow> connection \<Rightarrow> modbus_service \<Rightarrow> modbus_service" where
  "clientFor subject c sv =
     (case map_of (ms_clients sv) subject of
        Some _ \<Rightarrow> sv
      | None \<Rightarrow>
          sv\<lparr>ms_clients := AList.update subject \<lparr>cl_connection = c, cl_open = False\<rparr> (ms_clients sv)\<rparr>)"

text \<open>\<open>managedClient.readGroup\<close>: open when closed, read, close again after an error.\<close>

definition client_readGroup ::
    "modbus_env \<Rightarrow> nat \<Rightarrow> managed_client \<Rightarrow> poll_group \<Rightarrow> managed_client \<times> (go_error + hw_value list)" where
  "client_readGroup env now client g =
     (if \<not> cl_open client \<and> \<not> mv_open env now (cl_connection client)
      then (client, Inl (errors_new ''connect to Modbus endpoint''))
      else (case readGroup (mv_device env now (cl_connection client)) g of
              Inl e \<Rightarrow> (client\<lparr>cl_open := False\<rparr>, Inl e)
            | Inr values \<Rightarrow> (client\<lparr>cl_open := True\<rparr>, Inr values)))"

fun publishPoints ::
    "modbus_env \<Rightarrow> poll_point list \<Rightarrow> hw_value list \<Rightarrow> modbus_service \<Rightarrow> modbus_service" where
  "publishPoints env (p # ps) (v # vs) sv =
     publishPoints env ps vs
       (publish env (pp_subject p) (pt_value_type (pp_point p)) v (pp_publish_on_change p) sv)"
| "publishPoints env _ _ sv = sv"

text \<open>
  The groups of one turn. The worker holds its client from the start of the turn: when the entry of
  the map has been removed meanwhile, the client it holds is not in the map any more.
\<close>

fun pollGroups ::
    "modbus_env \<Rightarrow> string \<Rightarrow> managed_client \<Rightarrow> poll_group list \<Rightarrow> modbus_service \<Rightarrow> modbus_service" where
  "pollGroups env subject client [] sv =
     sv\<lparr>ms_clients := (case map_of (ms_clients sv) subject of
                        None \<Rightarrow> ms_clients sv
                      | Some _ \<Rightarrow> AList.update subject client (ms_clients sv))\<rparr>"
| "pollGroups env subject client (g # gs) sv =
     (case client_readGroup env (ms_calls sv) client g of
        (client', Inl _) \<Rightarrow> pollGroups env subject client' gs (tick sv)
      | (client', Inr values) \<Rightarrow>
          pollGroups env subject client' gs (publishPoints env (pg_points g) values (tick sv)))"

definition poll :: "modbus_env \<Rightarrow> string \<Rightarrow> connection \<Rightarrow> poll_point list \<Rightarrow> modbus_service \<Rightarrow> modbus_service" where
  "poll env subject c points sv =
     (let sv1 = clientFor subject c sv
      in case map_of (ms_clients sv1) subject of
           None \<Rightarrow> sv1
         | Some client \<Rightarrow> pollGroups env subject client (groupPoints points) sv1)"

section \<open>Descriptors\<close>

definition invalidateConnection :: "string \<Rightarrow> modbus_service \<Rightarrow> modbus_service" where
  "invalidateConnection subject sv =
     stopWorker subject
       (sv\<lparr>ms_connections := AList.delete subject (ms_connections sv),
           ms_clients := AList.delete subject (ms_clients sv)\<rparr>)"

text \<open>A connection that may be used: enabled, of this driver and valid.\<close>

definition usable_connection :: "modbus_env \<Rightarrow> string \<Rightarrow> connection_definition option" where
  "usable_connection env raw =
     (case parse_hw_connection (mv_json env) raw of
        Inl _ \<Rightarrow> None
      | Inr d \<Rightarrow>
          if hc_driver d \<noteq> ''modbus'' \<or> \<not> hc_enabled d then None
          else (case ParseConnection (mv_codec env) d of
                  Inl _ \<Rightarrow> None
                | Inr c \<Rightarrow> Some \<lparr>cd_raw = raw, cd_descriptor = d, cd_connection = c\<rparr>))"

text \<open>The critical section that installs the definition and takes the old client out of the map.\<close>

definition installConnection :: "string \<Rightarrow> connection_definition \<Rightarrow> modbus_service \<Rightarrow> modbus_service" where
  "installConnection subject c sv =
     sv\<lparr>ms_connections := AList.update subject c (ms_connections sv),
        ms_clients := AList.delete subject (ms_clients sv)\<rparr>"

definition reconcileConnection :: "modbus_env \<Rightarrow> string \<Rightarrow> string \<Rightarrow> modbus_service \<Rightarrow> modbus_service" where
  "reconcileConnection env subject raw sv =
     (case usable_connection env raw of
        None \<Rightarrow> invalidateConnection subject sv
      | Some c \<Rightarrow>
          if (case map_of (ms_connections sv) subject of None \<Rightarrow> False | Some old \<Rightarrow> cd_raw old = raw)
          then sv
          else (let sv1 = installConnection subject c sv
                in if ms_started sv1 then restartConnection env subject sv1 else sv1))"

definition removePoint :: "modbus_env \<Rightarrow> string \<Rightarrow> modbus_service \<Rightarrow> modbus_service" where
  "removePoint env subject sv =
     (let sv1 = sv\<lparr>ms_points := AList.delete subject (ms_points sv)\<rparr>;
          sv2 = (case targetSubject subject of None \<Rightarrow> sv1 | Some target \<Rightarrow> forgetPublished target sv1)
      in case map_of (ms_points sv) subject of
           None \<Rightarrow> sv2
         | Some d \<Rightarrow>
             if ms_started sv2 then restartConnection env (ds_connection (pd_descriptor d)) sv2 else sv2)"

definition reconcileAddress :: "modbus_env \<Rightarrow> string \<Rightarrow> string \<Rightarrow> modbus_service \<Rightarrow> modbus_service" where
  "reconcileAddress env subject raw sv =
     (case parse_descriptor (mv_json env) raw of
        Inl _ \<Rightarrow> removePoint env subject sv
      | Inr d \<Rightarrow>
          if ds_driver d \<noteq> ''modbus'' \<or> \<not> ds_enabled d then removePoint env subject sv
          else if (case map_of (ms_points sv) subject of None \<Rightarrow> False | Some old \<Rightarrow> pd_raw old = raw)
          then sv
          else
            (let previous = (case map_of (ms_points sv) subject of
                               None \<Rightarrow> [] | Some old \<Rightarrow> ds_connection (pd_descriptor old));
                 sv1 = sv\<lparr>ms_points :=
                        AList.update subject \<lparr>pd_raw = raw, pd_descriptor = d\<rparr> (ms_points sv)\<rparr>
             in if \<not> ms_started sv1 then sv1
                else restartConnection env (ds_connection d)
                       (if previous \<noteq> [] \<and> previous \<noteq> ds_connection d
                        then restartConnection env previous sv1 else sv1)))"

section \<open>Running\<close>

fun modbus_loadSubjects ::
    "modbus_env \<Rightarrow> (string \<Rightarrow> string \<Rightarrow> modbus_service \<Rightarrow> modbus_service) \<Rightarrow> string list \<Rightarrow>
     modbus_service \<Rightarrow> modbus_service" where
  "modbus_loadSubjects env reconcile [] sv = sv"
| "modbus_loadSubjects env reconcile (subject # rest) sv =
     (case mv_get env (ms_calls sv) subject of
        None \<Rightarrow> modbus_loadSubjects env reconcile rest (tick sv)
      | Some v \<Rightarrow> modbus_loadSubjects env reconcile rest (reconcile subject v (tick sv)))"

definition modbus_load ::
    "modbus_env \<Rightarrow> string \<Rightarrow> (string \<Rightarrow> string \<Rightarrow> modbus_service \<Rightarrow> modbus_service) \<Rightarrow>
     modbus_service \<Rightarrow> modbus_service \<times> bool" where
  "modbus_load env suff reconcile sv =
     (case mv_list env (ms_calls sv) suff of
        None \<Rightarrow> (tick sv, False)
      | Some subjects \<Rightarrow> (modbus_loadSubjects env reconcile subjects (tick sv), True))"

definition startWorkers :: "modbus_env \<Rightarrow> modbus_service \<Rightarrow> modbus_service" where
  "startWorkers env sv =
     (let sv1 = sv\<lparr>ms_started := True\<rparr>
      in fold (restartConnection env) (mv_order env (ms_calls sv1) (map fst (ms_connections sv1))) (tick sv1))"

definition modbus_stop :: "modbus_service \<Rightarrow> modbus_service" where
  "modbus_stop sv = sv\<lparr>ms_started := False, ms_workers := [], ms_clients := []\<rparr>"

text \<open>\<open>Run\<close> until it waits for its context; every failure runs the deferred stop, except before the
  second subscription, when there is nothing to stop.\<close>

definition modbus_Run :: "modbus_env \<Rightarrow> modbus_service \<Rightarrow> modbus_service \<times> bool" where
  "modbus_Run env sv =
     (let sv1 = tick sv; sv2 = tick sv1
      in if \<not> mv_subscribe env (ms_calls sv) ConnectionSuffix then (sv1, False)
         else if \<not> mv_subscribe env (ms_calls sv1) AddressSuffix then (sv2, False)
         else (case modbus_load env ConnectionSuffix (reconcileConnection env) sv2 of
                 (sv3, False) \<Rightarrow> (modbus_stop sv3, False)
               | (sv3, True) \<Rightarrow>
                   (case modbus_load env AddressSuffix (reconcileAddress env) sv3 of
                      (sv4, False) \<Rightarrow> (modbus_stop sv4, False)
                    | (sv4, True) \<Rightarrow> (startWorkers env sv4, True))))"

text \<open>The steps of the running service: a descriptor arrives, or a worker takes a turn.\<close>

datatype modbus_event = ConnectionArrived string string | AddressArrived string string | TimerFired string

definition modbus_handle :: "modbus_env \<Rightarrow> modbus_event \<Rightarrow> modbus_service \<Rightarrow> modbus_service" where
  "modbus_handle env ev sv =
     (case ev of
        ConnectionArrived subject raw \<Rightarrow> reconcileConnection env subject raw sv
      | AddressArrived subject raw \<Rightarrow> reconcileAddress env subject raw sv
      | TimerFired subject \<Rightarrow>
          (case map_of (ms_workers sv) subject of
             None \<Rightarrow> sv
           | Some w \<Rightarrow> poll env subject (wk_connection w) (wk_points w) sv))"

end
