(* ===== verification/Modbus_Service_Inv.thy ===== *)
theory Modbus_Service_Inv
  imports Modbus_Service Assoc_Lists
begin

text \<open>
  The Modbus service follows its descriptors: the tables hold exactly the usable descriptor that
  arrived last, every connection with points has one worker with exactly those points, and every
  client uses the current parameters of its connection. The two tables share the contract
  \<open>descriptor_table\<close>. That Go ranges over every key of a map once, in any order, is \<open>fair_order\<close>.
\<close>

definition fair_order :: "modbus_env \<Rightarrow> bool" where
  "fair_order env \<longleftrightarrow> (\<forall>n xs. mset (mv_order env n xs) = mset xs)"

section \<open>Tables that follow descriptors\<close>

text \<open>The descriptor of a subject that arrived last in a sequence of events.\<close>

fun latest :: "('e \<Rightarrow> (string \<times> string) option) \<Rightarrow> string \<Rightarrow> 'e list \<Rightarrow> string option" where
  "latest arrived s [] = None"
| "latest arrived s (e # es) =
     (case latest arrived s es of
        Some raw \<Rightarrow> Some raw
      | None \<Rightarrow>
          (case arrived e of
             None \<Rightarrow> None
           | Some (x, raw) \<Rightarrow> if x = s then Some raw else None))"

locale descriptor_table =
  fixes step :: "'e \<Rightarrow> 's \<Rightarrow> 's"
    and table :: "'s \<Rightarrow> string \<rightharpoonup> 'd"
    and accept :: "string \<Rightarrow> 'd option"
    and raw_of :: "'d \<Rightarrow> string"
    and arrived :: "'e \<Rightarrow> (string \<times> string) option"
  assumes raw_accept: "accept raw = Some d \<Longrightarrow> raw_of d = raw"
    and silent: "arrived e = None \<Longrightarrow> table (step e sv) = table sv"
    and arrives: "arrived e = Some (s, raw) \<Longrightarrow>
      (\<And>d. table sv s = Some d \<Longrightarrow> accept (raw_of d) = Some d) \<Longrightarrow>
      table (step e sv) = (table sv)(s := accept raw)"
begin

definition faithful :: "'s \<Rightarrow> bool" where
  "faithful sv \<longleftrightarrow> (\<forall>s d. table sv s = Some d \<longrightarrow> accept (raw_of d) = Some d)"

lemma table_step:
  assumes "faithful sv"
  shows "table (step e sv) =
    (case arrived e of None \<Rightarrow> table sv | Some (s, raw) \<Rightarrow> (table sv)(s := accept raw))"
  using assms silent arrives by (auto simp: faithful_def split: option.splits)

lemma faithful_step: "faithful sv \<Longrightarrow> faithful (step e sv)"
  by (auto simp: faithful_def table_step raw_accept split: option.splits if_splits)

lemma table_history:
  assumes "faithful sv"
  shows "table (fold step es sv) s =
    (case latest arrived s es of None \<Rightarrow> table sv s | Some raw \<Rightarrow> accept raw)"
  using assms
proof (induction es arbitrary: sv)
  case Nil
  then show ?case by simp
next
  case (Cons e es)
  from Cons.IH [OF faithful_step [OF Cons.prems]] show ?case
    by (auto simp: table_step [OF Cons.prems] split: option.splits)
qed

end

section \<open>Lists of entries\<close>

lemma map_filter_update:
  assumes "g (k, v) = None" and "\<And>w. (k, w) \<in> set al \<Longrightarrow> g (k, w) = None"
  shows "List.map_filter g (AList.update k v al) = List.map_filter g al"
  using assms by (induction al) (auto simp: List.map_filter_simps split: option.split)

lemma map_filter_delete:
  assumes "\<And>w. (k, w) \<in> set al \<Longrightarrow> g (k, w) = None"
  shows "List.map_filter g (AList.delete k al) = List.map_filter g al"
  using assms by (induction al) (auto simp: List.map_filter_simps split: option.split)

lemma map_filter_keys:
  assumes "distinct (map fst al)"
  shows "List.map_filter (\<lambda>k. Option.bind (map_of al k) (f k)) (map fst al) =
    List.map_filter (\<lambda>(k, v). f k v) al"
proof -
  have "List.map_filter (\<lambda>k. Option.bind (map_of al k) (f k)) (map fst bl) =
      List.map_filter (\<lambda>(k, v). f k v) bl" if "set bl \<subseteq> set al" for bl
    using that assms by (induction bl) (auto simp: List.map_filter_simps split: option.split)
  then show ?thesis by simp
qed

lemma mset_map_filter:
  "mset xs = mset ys \<Longrightarrow> mset (List.map_filter f xs) = mset (List.map_filter f ys)"
  by (simp add: List.map_filter_def)

section \<open>What the service is to hold\<close>

definition accepted_point :: "modbus_env \<Rightarrow> string \<Rightarrow> point_definition option" where
  "accepted_point env raw =
     (case parse_descriptor (mv_json env) raw of
        Inl _ \<Rightarrow> None
      | Inr d \<Rightarrow>
          if ds_driver d = ''modbus'' \<and> ds_enabled d then Some \<lparr>pd_raw = raw, pd_descriptor = d\<rparr>
          else None)"

definition wanted_points ::
    "modbus_env \<Rightarrow> string \<Rightarrow> connection_definition \<Rightarrow> modbus_service \<Rightarrow> poll_point list" where
  "wanted_points env subject c sv =
     List.map_filter (\<lambda>(k, d). pollPoint env subject c k d) (ms_points sv)"

definition worker_current :: "modbus_env \<Rightarrow> modbus_service \<Rightarrow> string \<Rightarrow> bool" where
  "worker_current env sv s \<longleftrightarrow>
     (case map_of (ms_workers sv) s of
        None \<Rightarrow> (\<forall>c. map_of (ms_connections sv) s = Some c \<longrightarrow> wanted_points env s c sv = [])
      | Some w \<Rightarrow>
          (\<exists>c. map_of (ms_connections sv) s = Some c \<and> wk_connection w = cd_connection c \<and>
             wk_points w \<noteq> [] \<and> mset (wk_points w) = mset (wanted_points env s c sv)))"

definition client_current :: "modbus_service \<Rightarrow> string \<Rightarrow> bool" where
  "client_current sv s \<longleftrightarrow>
     (\<forall>cl. map_of (ms_clients sv) s = Some cl \<longrightarrow>
        (\<exists>c. map_of (ms_connections sv) s = Some c \<and> cl_connection cl = cd_connection c))"

definition tables_faithful :: "modbus_env \<Rightarrow> modbus_service \<Rightarrow> bool" where
  "tables_faithful env sv \<longleftrightarrow>
     distinct (map fst (ms_points sv)) \<and>
     (\<forall>s c. map_of (ms_connections sv) s = Some c \<longrightarrow> usable_connection env (cd_raw c) = Some c) \<and>
     (\<forall>s d. map_of (ms_points sv) s = Some d \<longrightarrow> accepted_point env (pd_raw d) = Some d)"

definition idle :: "modbus_service \<Rightarrow> bool" where
  "idle sv \<longleftrightarrow> ms_workers sv = [] \<and> ms_clients sv = []"

definition modbus_sound :: "modbus_env \<Rightarrow> modbus_service \<Rightarrow> bool" where
  "modbus_sound env sv \<longleftrightarrow>
     tables_faithful env sv \<and>
     (if ms_started sv then \<forall>s. worker_current env sv s \<and> client_current sv s else idle sv)"

section \<open>Publishing and polling leave the tables alone\<close>

definition modbus_static ::
    "modbus_service \<Rightarrow> (string \<times> point_definition) list \<times> (string \<times> connection_definition) list \<times>
     (string \<times> worker) list \<times> bool" where
  "modbus_static sv = (ms_points sv, ms_connections sv, ms_workers sv, ms_started sv)"

lemma static_publish: "modbus_static (publish env s ty v c sv) = modbus_static sv"
  by (simp add: publish_def publishValue_def rememberPublished_def modbus_static_def tick_def Let_def
      split: prod.splits)

lemma clients_publish [simp]: "ms_clients (publish env s ty v c sv) = ms_clients sv"
  by (simp add: publish_def publishValue_def rememberPublished_def tick_def Let_def split: prod.splits)

lemma static_publishPoints:
  "modbus_static (publishPoints env ps vs sv) = modbus_static sv \<and>
   ms_clients (publishPoints env ps vs sv) = ms_clients sv"
  by (induction env ps vs sv rule: publishPoints.induct) (simp_all add: static_publish)

lemma client_readGroup_connection [simp]:
  "cl_connection (fst (client_readGroup env n cl g)) = cl_connection cl"
  by (simp add: client_readGroup_def split: sum.split)

lemma static_tick [simp]: "modbus_static (tick sv) = modbus_static sv" "ms_clients (tick sv) = ms_clients sv"
  by (simp_all add: modbus_static_def tick_def)

lemma static_clients [simp]: "modbus_static (sv\<lparr>ms_clients := cls\<rparr>) = modbus_static sv"
  by (simp add: modbus_static_def)

lemma static_pollGroups: "modbus_static (pollGroups env s cl gs sv) = modbus_static sv"
  by (induction env s cl gs sv rule: pollGroups.induct)
    (simp_all add: static_publishPoints split: prod.split sum.split)

lemma clients_pollGroups:
  "map_of (ms_clients (pollGroups env s cl gs sv)) x =
     (if x = s \<and> map_of (ms_clients sv) s \<noteq> None
      then map_of (ms_clients (pollGroups env s cl gs sv)) s else map_of (ms_clients sv) x)"
  "map_of (ms_clients sv) s \<noteq> None \<Longrightarrow>
     \<exists>cl'. map_of (ms_clients (pollGroups env s cl gs sv)) s = Some cl' \<and>
       cl_connection cl' = cl_connection cl"
proof (induction env s cl gs sv rule: pollGroups.induct)
  case (2 env subject client g gs sv)
  obtain cl' r where r: "client_readGroup env (ms_calls sv) client g = (cl', r)" by fastforce
  have c: "cl_connection cl' = cl_connection client"
    using client_readGroup_connection [of env "ms_calls sv" client g] r by simp
  { case 1 then show ?case
      using 2(1,3) r by (cases r) (auto simp: static_publishPoints simp del: not_None_eq) }
  { case 2 then show ?case
      using "2.IH"(2,4) r c by (cases r) (auto simp: static_publishPoints simp del: not_None_eq) }
qed (auto split: option.splits)

lemma static_poll: "modbus_static (poll env s c ps sv) = modbus_static sv"
  by (simp add: poll_def clientFor_def Let_def static_pollGroups split: option.splits)

lemma clients_poll:
  "x \<noteq> s \<Longrightarrow> map_of (ms_clients (poll env s c ps sv)) x = map_of (ms_clients sv) x"
  "\<exists>cl. map_of (ms_clients (poll env s c ps sv)) s = Some cl \<and>
     cl_connection cl = (case map_of (ms_clients sv) s of None \<Rightarrow> c | Some old \<Rightarrow> cl_connection old)"
proof -
  let ?sv = "clientFor s c sv"
  obtain client where cl: "map_of (ms_clients ?sv) s = Some client"
    "cl_connection client = (case map_of (ms_clients sv) s of None \<Rightarrow> c | Some old \<Rightarrow> cl_connection old)"
    by (cases "map_of (ms_clients sv) s") (auto simp: clientFor_def)
  have other: "map_of (ms_clients ?sv) x = map_of (ms_clients sv) x" if "x \<noteq> s"
    using that by (simp add: clientFor_def split: option.split)
  have poll: "poll env s c ps sv = pollGroups env s client (groupPoints ps) ?sv"
    using cl(1) by (simp add: poll_def Let_def)
  show "x \<noteq> s \<Longrightarrow> map_of (ms_clients (poll env s c ps sv)) x = map_of (ms_clients sv) x"
    using clients_pollGroups(1) [of env s client "groupPoints ps" ?sv x] other by (simp add: poll)
  show "\<exists>cl. map_of (ms_clients (poll env s c ps sv)) s = Some cl \<and>
     cl_connection cl = (case map_of (ms_clients sv) s of None \<Rightarrow> c | Some old \<Rightarrow> cl_connection old)"
    using clients_pollGroups(2) [of ?sv s env client "groupPoints ps"] cl by (simp add: poll)
qed

section \<open>Restarting a worker\<close>

lemma wanted_cong: "ms_points sv' = ms_points sv \<Longrightarrow> wanted_points env x c sv' = wanted_points env x c sv"
  by (simp add: wanted_points_def)

lemma connectionPoints_wanted:
  assumes "fair_order env" and "distinct (map fst (ms_points sv))"
  shows "mset (connectionPointsLocked env s c sv) = mset (wanted_points env s c sv)"
  unfolding connectionPointsLocked_def wanted_points_def map_filter_keys [OF assms(2), symmetric]
  by (rule mset_map_filter) (use assms(1) in \<open>simp add: fair_order_def\<close>)

text \<open>The parts a restart may not change.\<close>

definition same_tables :: "modbus_service \<Rightarrow> modbus_service \<Rightarrow> bool" where
  "same_tables sv sv' \<longleftrightarrow>
     ms_points sv' = ms_points sv \<and> ms_connections sv' = ms_connections sv \<and>
     ms_clients sv' = ms_clients sv \<and> ms_started sv' = ms_started sv \<and>
     ms_last sv' = ms_last sv \<and> ms_outbox sv' = ms_outbox sv"

lemma restart_tables: "same_tables sv (restartConnection env s sv)"
  by (simp add: same_tables_def restartConnection_def stopWorker_def tick_def Let_def split: option.split)

lemmas restart_fields [simp] = restart_tables [unfolded same_tables_def, THEN conjunct1]
  restart_tables [unfolded same_tables_def, THEN conjunct2, THEN conjunct1]
  restart_tables [unfolded same_tables_def, THEN conjunct2, THEN conjunct2, THEN conjunct1]
  restart_tables [unfolded same_tables_def, THEN conjunct2, THEN conjunct2, THEN conjunct2, THEN conjunct1]

lemma restart_other:
  "x \<noteq> s \<Longrightarrow> map_of (ms_workers (restartConnection env s sv)) x = map_of (ms_workers sv) x"
  by (simp add: restartConnection_def stopWorker_def tick_def Let_def split: option.split)

lemma restart_current:
  assumes "fair_order env" and "distinct (map fst (ms_points sv))"
  shows "worker_current env (restartConnection env s sv) s"
proof (cases "map_of (ms_connections sv) s")
  case None
  then show ?thesis
    by (simp add: worker_current_def restartConnection_def stopWorker_def tick_def Let_def)
next
  case (Some c)
  let ?sv1 = "stopWorker s sv"
  have points: "ms_points ?sv1 = ms_points sv" "map_of (ms_connections ?sv1) s = Some c"
    using Some by (simp_all add: stopWorker_def)
  have wanted: "mset (connectionPointsLocked env s c ?sv1) = mset (wanted_points env s c sv)"
    using connectionPoints_wanted [OF assms(1), of ?sv1 s c] points assms(2)
    by (simp add: wanted_cong [OF points(1)])
  show ?thesis
  proof (cases "connectionPointsLocked env s c ?sv1 = []")
    case True
    with wanted have "wanted_points env s c sv = []" by simp
    with True points(2) Some show ?thesis
      by (simp add: worker_current_def restartConnection_def Let_def wanted_points_def)
        (simp add: stopWorker_def tick_def wanted_points_def)
  next
    case False
    have "map_of (ms_workers (restartConnection env s sv)) s =
        Some \<lparr>wk_connection = cd_connection c, wk_points = connectionPointsLocked env s c ?sv1\<rparr>"
      using False points(2) by (simp add: restartConnection_def Let_def tick_def)
    with False wanted Some show ?thesis
      by (simp add: worker_current_def wanted_points_def)
  qed
qed

lemma worker_current_cong:
  assumes "map_of (ms_workers sv') x = map_of (ms_workers sv) x"
    and "map_of (ms_connections sv') x = map_of (ms_connections sv) x"
    and "\<And>c. map_of (ms_connections sv) x = Some c \<Longrightarrow> wanted_points env x c sv' = wanted_points env x c sv"
  shows "worker_current env sv' x = worker_current env sv x"
  using assms by (auto simp: worker_current_def split: option.split)

lemma restart_keeps:
  assumes "fair_order env" and "distinct (map fst (ms_points sv))"
    and "x = s \<or> worker_current env sv x"
  shows "worker_current env (restartConnection env s sv) x"
proof (cases "x = s")
  case True
  then show ?thesis using restart_current assms(1,2) by simp
next
  case False
  have "worker_current env (restartConnection env s sv) x = worker_current env sv x"
    by (rule worker_current_cong) (simp_all add: restart_other [OF False] wanted_points_def)
  with False assms(3) show ?thesis by simp
qed

lemma restart_all:
  assumes "fair_order env" and "distinct (map fst (ms_points sv))"
    and "\<And>x. x \<notin> set xs \<Longrightarrow> worker_current env sv x"
  shows "worker_current env (fold (restartConnection env) xs sv) x"
  using assms(2,3)
proof (induction xs arbitrary: sv)
  case Nil
  then show ?case by simp
next
  case (Cons y ys)
  show ?case
    unfolding fold_Cons comp_def
  proof (rule Cons.IH)
    show "distinct (map fst (ms_points (restartConnection env y sv)))"
      using Cons.prems(1) by simp
    show "worker_current env (restartConnection env y sv) z" if "z \<notin> set ys" for z
      using restart_keeps [OF assms(1) Cons.prems(1)] Cons.prems(2) that by (cases "z = y") auto
  qed
qed

lemma restart_fold_fields:
  "same_tables sv (fold (restartConnection env) xs sv)"
  by (induction xs arbitrary: sv) (auto simp: same_tables_def, insert restart_tables, auto simp: same_tables_def)

section \<open>Every step keeps the service sound\<close>

lemma soundD:
  assumes "modbus_sound env sv"
  shows "distinct (map fst (ms_points sv))"
    and "map_of (ms_connections sv) s = Some c \<Longrightarrow> usable_connection env (cd_raw c) = Some c"
    and "map_of (ms_points sv) s = Some d \<Longrightarrow> accepted_point env (pd_raw d) = Some d"
    and "ms_started sv \<Longrightarrow> worker_current env sv s"
    and "client_current sv s"
    and "\<not> ms_started sv \<Longrightarrow> ms_workers sv = []"
  using assms by (auto simp: modbus_sound_def tables_faithful_def idle_def client_current_def split: if_splits)

lemma soundI:
  assumes "distinct (map fst (ms_points sv))"
    and "\<And>s c. map_of (ms_connections sv) s = Some c \<Longrightarrow> usable_connection env (cd_raw c) = Some c"
    and "\<And>s d. map_of (ms_points sv) s = Some d \<Longrightarrow> accepted_point env (pd_raw d) = Some d"
    and "ms_started sv \<Longrightarrow> \<forall>s. worker_current env sv s \<and> client_current sv s"
    and "\<not> ms_started sv \<Longrightarrow> idle sv"
  shows "modbus_sound env sv"
  using assms by (simp add: modbus_sound_def tables_faithful_def)

lemma usable_raw: "usable_connection env raw = Some c \<Longrightarrow> cd_raw c = raw"
  by (auto simp: usable_connection_def split: sum.splits if_splits)

lemma accepted_raw: "accepted_point env raw = Some d \<Longrightarrow> pd_raw d = raw"
  by (auto simp: accepted_point_def split: sum.splits if_splits)

lemma accepted_connection:
  assumes "accepted_point env raw = Some d"
  shows "ds_connection (pd_descriptor d) \<noteq> []"
proof -
  from assms have "ok (validate_descriptor (mv_json env) (pd_descriptor d))"
    by (auto simp: accepted_point_def parse_descriptor_Inr split: sum.splits if_splits)
  then have "trim_space (ds_connection (pd_descriptor d)) \<noteq> []"
    by (simp add: validate_descriptor_ok)
  moreover have "trim_space [] = []" by code_simp
  ultimately show ?thesis by auto
qed

lemma usable_self: "usable_connection env raw = Some c \<Longrightarrow> usable_connection env (cd_raw c) = Some c"
  by (simp add: usable_raw)

lemma accepted_self: "accepted_point env raw = Some d \<Longrightarrow> accepted_point env (pd_raw d) = Some d"
  by (simp add: accepted_raw)

text \<open>Changing the connection \<open>s\<close>: only its own worker and client are affected.\<close>

lemma sound_connection_change:
  assumes sv: "modbus_sound env sv"
    and points: "ms_points sv' = ms_points sv" and started: "ms_started sv' = ms_started sv"
    and connections: "map_of (ms_connections sv') = (map_of (ms_connections sv))(s := new)"
    and new: "\<And>c. new = Some c \<Longrightarrow> usable_connection env (cd_raw c) = Some c"
    and workers: "\<And>x. x \<noteq> s \<Longrightarrow> map_of (ms_workers sv') x = map_of (ms_workers sv) x"
    and clients: "ms_clients sv' = AList.delete s (ms_clients sv)"
    and current: "ms_started sv \<Longrightarrow> worker_current env sv' s"
    and stopped: "\<not> ms_started sv \<Longrightarrow> ms_workers sv' = []"
  shows "modbus_sound env sv'"
proof (rule soundI)
  show "distinct (map fst (ms_points sv'))"
    using soundD(1) [OF sv] points by simp
  show "map_of (ms_connections sv') x = Some c \<Longrightarrow> usable_connection env (cd_raw c) = Some c" for x c
    using soundD(2) [OF sv] new by (auto simp: connections split: if_splits)
  show "map_of (ms_points sv') x = Some d \<Longrightarrow> accepted_point env (pd_raw d) = Some d" for x d
    using soundD(3) [OF sv] points by simp
  show "\<not> ms_started sv' \<Longrightarrow> idle sv'"
    using sv started stopped clients by (simp add: modbus_sound_def idle_def)
  assume run: "ms_started sv'"
  have "worker_current env sv' x" for x
  proof (cases "x = s")
    case True
    then show ?thesis using current run started by simp
  next
    case False
    have "worker_current env sv' x = worker_current env sv x"
      using False by (intro worker_current_cong) (simp_all add: workers connections wanted_cong [OF points])
    then show ?thesis using soundD(4) [OF sv] run started by simp
  qed
  moreover have "client_current sv' x" for x
    using soundD(5) [OF sv, of x] by (simp add: client_current_def clients connections)
  ultimately show "\<forall>x. worker_current env sv' x \<and> client_current sv' x" by simp
qed

lemma reconcileConnection_effect:
  assumes "fair_order env" and sv: "modbus_sound env sv"
  shows "modbus_sound env (reconcileConnection env s raw sv)"
    and "map_of (ms_connections (reconcileConnection env s raw sv)) =
      (map_of (ms_connections sv))(s := usable_connection env raw)"
    and "ms_points (reconcileConnection env s raw sv) = ms_points sv"
proof -
  let ?sv' = "reconcileConnection env s raw sv"
  have "modbus_sound env ?sv' \<and> map_of (ms_connections ?sv') =
      (map_of (ms_connections sv))(s := usable_connection env raw) \<and> ms_points ?sv' = ms_points sv"
  proof (cases "usable_connection env raw")
    case None
    then have sv': "?sv' = invalidateConnection s sv" by (simp add: reconcileConnection_def)
    have "modbus_sound env ?sv'"
      unfolding sv' by (rule sound_connection_change [OF sv, where s = s and new = None])
        (use soundD(6) [OF sv] in \<open>simp_all add: invalidateConnection_def stopWorker_def worker_current_def\<close>)
    then show ?thesis
      using None by (simp add: sv' invalidateConnection_def stopWorker_def)
  next
    case (Some c)
    show ?thesis
    proof (cases "case map_of (ms_connections sv) s of None \<Rightarrow> False | Some old \<Rightarrow> cd_raw old = raw")
      case True
      then have "map_of (ms_connections sv) s = Some c"
        using Some soundD(2) [OF sv, of s] by (auto split: option.splits)
      moreover have "?sv' = sv" using True Some by (simp add: reconcileConnection_def)
      ultimately show ?thesis using Some sv by auto
    next
      case False
      let ?sv1 = "installConnection s c sv"
      have sv': "?sv' = (if ms_started sv then restartConnection env s ?sv1 else ?sv1)"
        using False Some by (simp add: reconcileConnection_def installConnection_def Let_def)
      have fields: "ms_points ?sv1 = ms_points sv" "ms_started ?sv1 = ms_started sv"
        "ms_clients ?sv1 = AList.delete s (ms_clients sv)" "ms_workers ?sv1 = ms_workers sv"
        "map_of (ms_connections ?sv1) = (map_of (ms_connections sv))(s := Some c)"
        by (simp_all add: installConnection_def)
      have "modbus_sound env ?sv'"
        by (rule sound_connection_change [OF sv, where s = s and new = "Some c"])
          (use soundD(1,6) [OF sv] usable_self [OF Some] restart_current [OF assms(1), of ?sv1 s] in
            \<open>simp_all add: sv' fields restart_other\<close>)
      then show ?thesis using Some by (simp add: sv' fields)
    qed
  qed
  then show "modbus_sound env ?sv'"
    "map_of (ms_connections ?sv') = (map_of (ms_connections sv))(s := usable_connection env raw)"
    "ms_points ?sv' = ms_points sv"
    by simp_all
qed

text \<open>The connections whose workers a change of the point \<open>s\<close> concerns.\<close>

definition point_uses :: "modbus_service \<Rightarrow> string \<Rightarrow> string \<Rightarrow> bool" where
  "point_uses sv s x \<longleftrightarrow> (\<exists>d. map_of (ms_points sv) s = Some d \<and> ds_connection (pd_descriptor d) = x)"

lemma pollPoint_other: "ds_connection (pd_descriptor d) \<noteq> x \<Longrightarrow> pollPoint env x c k d = None"
  by (simp add: pollPoint_def)

lemma wanted_update:
  assumes "distinct (map fst (ms_points sv))" and "\<not> point_uses sv s x"
    and "ds_connection (pd_descriptor d) \<noteq> x"
  shows "wanted_points env x c (sv\<lparr>ms_points := AList.update s d (ms_points sv)\<rparr>) = wanted_points env x c sv"
proof -
  have "List.map_filter (\<lambda>(k, d). pollPoint env x c k d) (AList.update s d (ms_points sv)) =
      List.map_filter (\<lambda>(k, d). pollPoint env x c k d) (ms_points sv)"
    by (rule map_filter_update) (use assms in \<open>auto simp: pollPoint_other point_uses_def\<close>)
  then show ?thesis by (simp add: wanted_points_def)
qed

lemma wanted_delete:
  assumes "distinct (map fst (ms_points sv))" and "\<not> point_uses sv s x"
  shows "wanted_points env x c (sv\<lparr>ms_points := AList.delete s (ms_points sv)\<rparr>) = wanted_points env x c sv"
proof -
  have "List.map_filter (\<lambda>(k, d). pollPoint env x c k d) (AList.delete s (ms_points sv)) =
      List.map_filter (\<lambda>(k, d). pollPoint env x c k d) (ms_points sv)"
    by (rule map_filter_delete) (use assms in \<open>auto simp: pollPoint_other point_uses_def\<close>)
  then show ?thesis by (simp add: wanted_points_def)
qed

lemma sound_restart:
  assumes "fair_order env" and "modbus_sound env sv" and "ms_started sv"
  shows "modbus_sound env (restartConnection env s sv)"
  using assms restart_keeps [OF assms(1) soundD(1) [OF assms(2)]] soundD [OF assms(2)]
  by (intro soundI) (auto simp: client_current_def)

text \<open>While a point changes, the workers of some connections \<open>X\<close> still have to be restarted.\<close>

definition sound_but :: "modbus_env \<Rightarrow> string set \<Rightarrow> modbus_service \<Rightarrow> bool" where
  "sound_but env X sv \<longleftrightarrow>
     tables_faithful env sv \<and> (\<forall>s. client_current sv s) \<and>
     (if ms_started sv then \<forall>s. s \<in> X \<or> worker_current env sv s else idle sv)"

lemma sound_but_nothing: "sound_but env {} sv \<longleftrightarrow> modbus_sound env sv"
  by (auto simp: sound_but_def modbus_sound_def idle_def client_current_def)

lemma sound_but_stopped: "sound_but env X sv \<Longrightarrow> \<not> ms_started sv \<Longrightarrow> modbus_sound env sv"
  by (simp add: sound_but_def modbus_sound_def)

lemma sound_but_restart:
  assumes "fair_order env" and "sound_but env X sv" and "ms_started sv"
  shows "sound_but env (X - {s}) (restartConnection env s sv)"
proof -
  have d: "distinct (map fst (ms_points sv))"
    using assms(2) by (simp add: sound_but_def tables_faithful_def)
  show ?thesis
    using assms(2,3) restart_keeps [OF assms(1) d, of _ s]
    by (auto simp: sound_but_def tables_faithful_def client_current_def)
qed

lemma sound_update:
  assumes "modbus_sound env sv" and "accepted_point env raw = Some d"
  shows "sound_but env {x. point_uses sv s x \<or> ds_connection (pd_descriptor d) = x}
    (sv\<lparr>ms_points := AList.update s d (ms_points sv)\<rparr>)" (is "sound_but env ?X ?sv")
proof -
  have "worker_current env ?sv x" if "ms_started sv" "x \<notin> ?X" for x
    using soundD(4) [OF assms(1) that(1), of x] wanted_update [OF soundD(1) [OF assms(1)], of s x d env] that(2)
    by (subst worker_current_cong) auto
  then show ?thesis
    using soundD [OF assms(1)] accepted_self [OF assms(2)] assms(1)
    by (auto simp: sound_but_def tables_faithful_def client_current_def idle_def modbus_sound_def)
qed

lemma sound_delete:
  assumes "modbus_sound env sv"
  shows "sound_but env {x. point_uses sv s x} (sv\<lparr>ms_points := AList.delete s (ms_points sv)\<rparr>)"
    (is "sound_but env ?X ?sv")
proof -
  have "worker_current env ?sv x" if "ms_started sv" "x \<notin> ?X" for x
    using soundD(4) [OF assms(1) that(1), of x] wanted_delete [OF soundD(1) [OF assms(1)], of s x env] that(2)
    by (subst worker_current_cong) auto
  then show ?thesis
    using soundD [OF assms(1)] assms(1)
    by (auto simp: sound_but_def tables_faithful_def client_current_def idle_def modbus_sound_def)
qed

lemma sound_but_last [simp]: "sound_but env X (sv\<lparr>ms_last := l\<rparr>) = sound_but env X sv"
proof -
  have "worker_current env (sv\<lparr>ms_last := l\<rparr>) s = worker_current env sv s" for s
    by (rule worker_current_cong) (simp_all add: wanted_points_def)
  then show ?thesis
    by (simp add: sound_but_def tables_faithful_def client_current_def idle_def)
qed

lemma forget_fields [simp]:
  "ms_points (forgetPublished t sv) = ms_points sv" "ms_connections (forgetPublished t sv) = ms_connections sv"
  "ms_started (forgetPublished t sv) = ms_started sv" "sound_but env X (forgetPublished t sv) = sound_but env X sv"
  by (simp_all add: forgetPublished_def)

lemma removePoint_effect:
  assumes "fair_order env" and sv: "modbus_sound env sv"
  shows "modbus_sound env (removePoint env s sv)"
    and "map_of (ms_points (removePoint env s sv)) = (map_of (ms_points sv))(s := None)"
    and "ms_connections (removePoint env s sv) = ms_connections sv"
proof -
  let ?sv1 = "sv\<lparr>ms_points := AList.delete s (ms_points sv)\<rparr>"
  define sv2 where "sv2 = (case targetSubject s of None \<Rightarrow> ?sv1 | Some t \<Rightarrow> forgetPublished t ?sv1)"
  have fields: "ms_points sv2 = AList.delete s (ms_points sv)" "ms_connections sv2 = ms_connections sv"
    "ms_started sv2 = ms_started sv"
    by (simp_all add: sv2_def split: option.split)
  have but: "sound_but env {x. point_uses sv s x} sv2"
    using sound_delete [OF sv, of s] by (simp add: sv2_def split: option.split)
  have eq: "removePoint env s sv =
      (case map_of (ms_points sv) s of None \<Rightarrow> sv2
       | Some d \<Rightarrow> if ms_started sv then restartConnection env (ds_connection (pd_descriptor d)) sv2 else sv2)"
    by (simp only: removePoint_def Let_def sv2_def [symmetric] fields)
  show "modbus_sound env (removePoint env s sv)"
  proof (cases "map_of (ms_points sv) s")
    case None
    then show ?thesis using but by (simp add: eq point_uses_def sound_but_nothing)
  next
    case (Some d)
    then have "{x. point_uses sv s x} = {ds_connection (pd_descriptor d)}"
      by (auto simp: point_uses_def)
    then show ?thesis
      using but Some fields(3) sound_but_restart [OF assms(1) but, of "ds_connection (pd_descriptor d)"]
      by (auto simp: eq sound_but_nothing intro: sound_but_stopped)
  qed
  show "map_of (ms_points (removePoint env s sv)) = (map_of (ms_points sv))(s := None)"
    "ms_connections (removePoint env s sv) = ms_connections sv"
    by (simp_all add: eq fields split: option.split)
qed

lemma reconcileAddress_effect:
  assumes fair: "fair_order env" and sv: "modbus_sound env sv"
  shows "modbus_sound env (reconcileAddress env s raw sv)"
    and "map_of (ms_points (reconcileAddress env s raw sv)) =
      (map_of (ms_points sv))(s := accepted_point env raw)"
    and "ms_connections (reconcileAddress env s raw sv) = ms_connections sv"
proof -
  let ?sv' = "reconcileAddress env s raw sv"
  have "modbus_sound env ?sv' \<and> map_of (ms_points ?sv') = (map_of (ms_points sv))(s := accepted_point env raw) \<and>
      ms_connections ?sv' = ms_connections sv"
  proof (cases "accepted_point env raw")
    case None
    then have "?sv' = removePoint env s sv"
      by (auto simp: reconcileAddress_def accepted_point_def split: sum.splits if_splits)
    then show ?thesis using removePoint_effect [OF fair sv, of s] None by simp
  next
    case (Some d)
    then have d: "parse_descriptor (mv_json env) raw = Inr (pd_descriptor d)"
      "d = \<lparr>pd_raw = raw, pd_descriptor = pd_descriptor d\<rparr>"
      "ds_driver (pd_descriptor d) = ''modbus''" "ds_enabled (pd_descriptor d)"
      by (auto simp: accepted_point_def split: sum.splits if_splits)
    let ?new = "ds_connection (pd_descriptor d)"
    let ?sv1 = "sv\<lparr>ms_points := AList.update s d (ms_points sv)\<rparr>"
    let ?X = "{x. point_uses sv s x \<or> ?new = x}"
    define previous where
      "previous = (case map_of (ms_points sv) s of None \<Rightarrow> [] | Some old \<Rightarrow> ds_connection (pd_descriptor old))"
    show ?thesis
    proof (cases "case map_of (ms_points sv) s of None \<Rightarrow> False | Some old \<Rightarrow> pd_raw old = raw")
      case True
      then have "map_of (ms_points sv) s = Some d"
        using Some soundD(3) [OF sv, of s] by (auto split: option.splits)
      moreover have "?sv' = sv" using True d by (simp add: reconcileAddress_def)
      ultimately show ?thesis using Some sv by auto
    next
      case False
      have eq: "?sv' = (if \<not> ms_started sv then ?sv1 else restartConnection env ?new
          (if previous \<noteq> [] \<and> previous \<noteq> ?new then restartConnection env previous ?sv1 else ?sv1))"
        using False d by (simp add: reconcileAddress_def Let_def previous_def)
      have but: "sound_but env ?X ?sv1" by (rule sound_update [OF sv Some])
      have X: "?X \<subseteq> (if previous \<noteq> [] \<and> previous \<noteq> ?new then {previous, ?new} else {?new})"
        using soundD(3) [OF sv, of s, THEN accepted_connection]
        by (auto simp: point_uses_def previous_def)
      have "modbus_sound env ?sv'"
      proof (cases "ms_started sv")
        case True
        show ?thesis
        proof (cases "previous \<noteq> [] \<and> previous \<noteq> ?new")
          case two: True
          have "sound_but env (?X - {previous} - {?new}) ?sv'"
            using sound_but_restart [OF fair sound_but_restart [OF fair but, of previous], of ?new] True two
            by (simp add: eq)
          moreover have "?X - {previous} - {?new} = {}" using X two by auto
          ultimately show ?thesis by (simp add: sound_but_nothing)
        next
          case one: False
          have "sound_but env (?X - {?new}) ?sv'"
            using sound_but_restart [OF fair but, of ?new] True one by (auto simp: eq)
          moreover have "?X - {?new} = {}" using X one by (auto split: if_splits)
          ultimately show ?thesis by (simp add: sound_but_nothing)
        qed
      qed (use but in \<open>simp add: eq sound_but_stopped\<close>)
      then show ?thesis using Some by (simp add: eq)
    qed
  qed
  then show "modbus_sound env ?sv'"
    "map_of (ms_points ?sv') = (map_of (ms_points sv))(s := accepted_point env raw)"
    "ms_connections ?sv' = ms_connections sv"
    by simp_all
qed

lemma sound_tick: "modbus_sound env sv \<Longrightarrow> modbus_sound env (tick sv)"
proof -
  assume sv: "modbus_sound env sv"
  have "worker_current env (tick sv) s = worker_current env sv s" for s
    by (rule worker_current_cong) (simp_all add: tick_def wanted_points_def)
  moreover have "client_current (tick sv) s = client_current sv s" for s
    by (simp add: client_current_def tick_def)
  ultimately show ?thesis using sv
    by (auto simp: modbus_sound_def tables_faithful_def idle_def tick_def split: if_splits)
qed

lemma poll_effect:
  assumes sv: "modbus_sound env sv" and w: "map_of (ms_workers sv) s = Some w"
  shows "modbus_sound env (poll env s (wk_connection w) (wk_points w) sv)" (is "modbus_sound env ?sv'")
proof (rule soundI)
  have fields: "ms_points ?sv' = ms_points sv" "ms_connections ?sv' = ms_connections sv"
      "ms_workers ?sv' = ms_workers sv" "ms_started ?sv' = ms_started sv"
    using static_poll [of env s "wk_connection w" "wk_points w" sv] by (simp_all add: modbus_static_def)
  have run: "ms_started sv" using soundD(6) [OF sv] w by fastforce
  show "distinct (map fst (ms_points ?sv'))" using soundD(1) [OF sv] fields by simp
  show "map_of (ms_connections ?sv') x = Some c \<Longrightarrow> usable_connection env (cd_raw c) = Some c" for x c
    using soundD(2) [OF sv] fields by simp
  show "map_of (ms_points ?sv') x = Some d \<Longrightarrow> accepted_point env (pd_raw d) = Some d" for x d
    using soundD(3) [OF sv] fields by simp
  show "idle ?sv'" if "\<not> ms_started ?sv'" using that run fields by simp
  have worker: "worker_current env ?sv' x" for x
  proof -
    have "worker_current env ?sv' x = worker_current env sv x"
      by (rule worker_current_cong) (simp_all only: fields wanted_points_def)
    then show ?thesis using soundD(4) [OF sv run, of x] by simp
  qed
  have client: "client_current ?sv' x" for x
  proof (cases "x = s")
    case False
    then show ?thesis
      using soundD(5) [OF sv, of x] clients_poll(1) [of x s env "wk_connection w" "wk_points w" sv] fields
      by (simp add: client_current_def)
  next
    case True
    obtain c where c: "map_of (ms_connections sv) s = Some c" "wk_connection w = cd_connection c"
      using soundD(4) [OF sv run, of s] w by (auto simp: worker_current_def)
    obtain cl where cl: "map_of (ms_clients ?sv') s = Some cl"
      "cl_connection cl = (case map_of (ms_clients sv) s of None \<Rightarrow> wk_connection w | Some old \<Rightarrow> cl_connection old)"
      using clients_poll(2) by blast
    have "cl_connection cl = cd_connection c"
      using soundD(5) [OF sv, of s] c cl(2) by (cases "map_of (ms_clients sv) s") (auto simp: client_current_def)
    with True c(1) cl(1) show ?thesis by (simp add: client_current_def fields)
  qed
  show "\<forall>s. worker_current env ?sv' s \<and> client_current ?sv' s" using worker client by simp
qed

lemma handle_sound:
  assumes "fair_order env" and "modbus_sound env sv"
  shows "modbus_sound env (modbus_handle env ev sv)"
  using assms reconcileConnection_effect(1) reconcileAddress_effect(1) poll_effect
  by (auto simp: modbus_handle_def split: modbus_event.split option.split)

lemma startWorkers_sound:
  assumes fair: "fair_order env" and sv: "modbus_sound env sv"
  shows "modbus_sound env (startWorkers env sv)"
proof -
  let ?sv1 = "tick (sv\<lparr>ms_started := True\<rparr>)"
  let ?xs = "mv_order env (ms_calls sv) (map fst (ms_connections sv))"
  have eq: "startWorkers env sv = fold (restartConnection env) ?xs ?sv1"
    by (simp add: startWorkers_def Let_def)
  have fields: "ms_points ?sv1 = ms_points sv" "ms_connections ?sv1 = ms_connections sv"
      "ms_workers ?sv1 = ms_workers sv" "ms_clients ?sv1 = ms_clients sv" "ms_started ?sv1"
    by (simp_all add: tick_def)
  note tables = restart_fold_fields [of ?sv1 env ?xs, unfolded same_tables_def, simplified fields]
  have "mset ?xs = mset (map fst (ms_connections sv))" using fair by (simp only: fair_order_def)
  then have keys: "set ?xs = fst ` set (ms_connections sv)"
    by (metis mset_eq_setD set_map)
  have outside: "worker_current env ?sv1 x" if "x \<notin> set ?xs" for x
  proof -
    have "map_of (ms_connections sv) x = None" using that keys by (simp add: map_of_eq_None_iff)
    moreover have "map_of (ms_workers sv) x = None"
      using soundD(4) [OF sv, of x] soundD(6) [OF sv] calculation
      by (cases "ms_started sv") (auto simp: worker_current_def split: option.splits)
    ultimately show ?thesis by (simp add: worker_current_def fields)
  qed
  have "worker_current env (startWorkers env sv) x" for x
    unfolding eq using soundD(1) [OF sv] outside by (intro restart_all [OF fair]) (simp_all add: fields)
  moreover have "client_current (startWorkers env sv) x" for x
    using soundD(5) [OF sv, of x] tables by (simp add: client_current_def eq)
  ultimately show ?thesis
    using soundD(1-3) [OF sv] tables by (intro soundI) (auto simp: eq)
qed

lemma stop_sound: "modbus_sound env sv \<Longrightarrow> modbus_sound env (modbus_stop sv)"
  by (auto simp: modbus_sound_def modbus_stop_def tables_faithful_def idle_def)

lemma new_sound: "modbus_sound env new_modbus_service"
  by (simp add: modbus_sound_def new_modbus_service_def tables_faithful_def idle_def)

section \<open>The tables are descriptor tables\<close>

definition connection_arrived :: "modbus_event \<Rightarrow> (string \<times> string) option" where
  "connection_arrived ev = (case ev of ConnectionArrived s raw \<Rightarrow> Some (s, raw) | _ \<Rightarrow> None)"

definition address_arrived :: "modbus_event \<Rightarrow> (string \<times> string) option" where
  "address_arrived ev = (case ev of AddressArrived s raw \<Rightarrow> Some (s, raw) | _ \<Rightarrow> None)"

lemma poll_tables [simp]:
  "ms_points (poll env s c ps sv) = ms_points sv" "ms_connections (poll env s c ps sv) = ms_connections sv"
  using static_poll [of env s c ps sv] by (simp_all add: modbus_static_def)

lemma removePoint_tables [simp]:
  "map_of (ms_points (removePoint env s sv)) = (map_of (ms_points sv))(s := None)"
  "ms_connections (removePoint env s sv) = ms_connections sv"
  by (simp_all add: removePoint_def Let_def split: option.split)

lemma reconcileConnection_points [simp]:
  "ms_points (reconcileConnection env s raw sv) = ms_points sv"
  by (simp add: reconcileConnection_def invalidateConnection_def stopWorker_def installConnection_def Let_def
      split: option.split)

lemma reconcileAddress_connections [simp]:
  "ms_connections (reconcileAddress env s raw sv) = ms_connections sv"
  by (simp add: reconcileAddress_def Let_def split: sum.split)

lemma connections_arrive:
  assumes "\<And>d. map_of (ms_connections sv) s = Some d \<Longrightarrow> usable_connection env (cd_raw d) = Some d"
  shows "map_of (ms_connections (reconcileConnection env s raw sv)) =
    (map_of (ms_connections sv))(s := usable_connection env raw)"
  using assms
  by (auto simp: reconcileConnection_def invalidateConnection_def stopWorker_def installConnection_def Let_def
      split: option.splits)

lemma points_arrive:
  assumes "\<And>d. map_of (ms_points sv) s = Some d \<Longrightarrow> accepted_point env (pd_raw d) = Some d"
  shows "map_of (ms_points (reconcileAddress env s raw sv)) =
    (map_of (ms_points sv))(s := accepted_point env raw)"
proof (cases "map_of (ms_points sv) s")
  case None
  then show ?thesis by (auto simp: reconcileAddress_def accepted_point_def Let_def split: sum.split)
next
  case (Some old)
  then show ?thesis
    using assms [OF Some] by (auto simp: reconcileAddress_def accepted_point_def Let_def split: sum.splits if_splits)
qed

interpretation connection_table: descriptor_table "modbus_handle env" "\<lambda>sv. map_of (ms_connections sv)"
  "usable_connection env" cd_raw connection_arrived
  for env
proof unfold_locales
  show "usable_connection env raw = Some d \<Longrightarrow> cd_raw d = raw" for raw d
    by (rule usable_raw)
  show "map_of (ms_connections (modbus_handle env e sv)) = map_of (ms_connections sv)"
    if "connection_arrived e = None" for e sv
    using that
    by (cases e) (auto simp: connection_arrived_def modbus_handle_def split: option.split)
  show "map_of (ms_connections (modbus_handle env e sv)) =
      (map_of (ms_connections sv))(s := usable_connection env raw)"
    if "connection_arrived e = Some (s, raw)"
      "\<And>d. map_of (ms_connections sv) s = Some d \<Longrightarrow> usable_connection env (cd_raw d) = Some d" for e s raw sv
    using that connections_arrive [of sv s env raw]
    by (cases e) (auto simp: connection_arrived_def modbus_handle_def)
qed

interpretation point_table: descriptor_table "modbus_handle env" "\<lambda>sv. map_of (ms_points sv)"
  "accepted_point env" pd_raw address_arrived
  for env
proof unfold_locales
  show "accepted_point env raw = Some d \<Longrightarrow> pd_raw d = raw" for raw d
    by (rule accepted_raw)
  show "map_of (ms_points (modbus_handle env e sv)) = map_of (ms_points sv)"
    if "address_arrived e = None" for e sv
    using that by (cases e) (auto simp: address_arrived_def modbus_handle_def split: option.split)
  show "map_of (ms_points (modbus_handle env e sv)) = (map_of (ms_points sv))(s := accepted_point env raw)"
    if "address_arrived e = Some (s, raw)"
      "\<And>d. map_of (ms_points sv) s = Some d \<Longrightarrow> accepted_point env (pd_raw d) = Some d" for e s raw sv
    using that points_arrive [of sv s env raw]
    by (cases e) (auto simp: address_arrived_def modbus_handle_def)
qed

section \<open>Reachable states\<close>

text \<open>Descriptors may arrive while \<open>Run\<close> is loading, so every step of \<open>Run\<close> is a step of its own.\<close>

inductive modbus_reachable :: "modbus_env \<Rightarrow> modbus_service \<Rightarrow> bool" for env where
  modbus_new: "modbus_reachable env new_modbus_service"
| modbus_call: "modbus_reachable env sv \<Longrightarrow> modbus_reachable env (tick sv)"
| modbus_event: "modbus_reachable env sv \<Longrightarrow> modbus_reachable env (modbus_handle env ev sv)"
| modbus_start: "modbus_reachable env sv \<Longrightarrow> modbus_reachable env (startWorkers env sv)"
| modbus_stopped: "modbus_reachable env sv \<Longrightarrow> modbus_reachable env (modbus_stop sv)"

lemma modbus_reachable_sound:
  assumes "fair_order env" and "modbus_reachable env sv"
  shows "modbus_sound env sv"
  using assms(2)
  by induction (simp_all add: new_sound sound_tick handle_sound startWorkers_sound stop_sound assms(1))

lemma reachable_connection_load:
  "modbus_reachable env sv \<Longrightarrow> modbus_reachable env (modbus_loadSubjects env (reconcileConnection env) ss sv)"
proof (induction ss arbitrary: sv)
  case (Cons s ss)
  have "modbus_reachable env (reconcileConnection env s raw (tick sv))" for raw
    using modbus_event [OF modbus_call [OF Cons.prems], of "ConnectionArrived s raw"]
    by (simp add: modbus_handle_def)
  with Cons show ?case by (auto intro: modbus_call split: option.split)
qed simp

lemma reachable_address_load:
  "modbus_reachable env sv \<Longrightarrow> modbus_reachable env (modbus_loadSubjects env (reconcileAddress env) ss sv)"
proof (induction ss arbitrary: sv)
  case (Cons s ss)
  have "modbus_reachable env (reconcileAddress env s raw (tick sv))" for raw
    using modbus_event [OF modbus_call [OF Cons.prems], of "AddressArrived s raw"]
    by (simp add: modbus_handle_def)
  with Cons show ?case by (auto intro: modbus_call split: option.split)
qed simp

lemma reachable_load:
  assumes "modbus_reachable env sv"
  shows "modbus_reachable env (fst (modbus_load env suff (reconcileConnection env) sv))"
    and "modbus_reachable env (fst (modbus_load env suff (reconcileAddress env) sv))"
  using modbus_call [OF assms]
  by (auto simp: modbus_load_def reachable_connection_load reachable_address_load split: option.split)

lemma modbus_Run_reachable:
  assumes "modbus_reachable env sv"
  shows "modbus_reachable env (fst (modbus_Run env sv))"
proof -
  let ?sv2 = "tick (tick sv)"
  obtain sv3 b where load3: "modbus_load env ConnectionSuffix (reconcileConnection env) ?sv2 = (sv3, b)" by fastforce
  obtain sv4 d where load4: "modbus_load env AddressSuffix (reconcileAddress env) sv3 = (sv4, d)" by fastforce
  have r3: "modbus_reachable env sv3"
    using reachable_load(1) [of env ?sv2 ConnectionSuffix] assms load3 by (simp add: modbus_call)
  have r4: "modbus_reachable env sv4"
    using reachable_load(2) [OF r3, of AddressSuffix] load4 by simp
  show ?thesis
    using assms r3 r4 load3 load4
    by (auto simp: modbus_Run_def Let_def intro: modbus_reachable.intros split: bool.split)
qed

end
