(* ===== verification/Modbus_Publish.thy ===== *)
theory Modbus_Publish
  imports Modbus_Service_Inv
begin

text \<open>
  What the Modbus service publishes: every published value is the value a device of a usable
  connection holds for the point that an accepted address descriptor names, and one turn of a worker
  publishes each of its points once, unless its group fails or its value has not changed.
\<close>

section \<open>Devices that may fail\<close>

text \<open>Every read returns an error or what the memory holds.\<close>

definition honest :: "device_reader \<Rightarrow> device_memory \<Rightarrow> bool" where
  "honest rd m \<longleftrightarrow>
     (\<exists>rd'. serves rd' m \<and>
        (\<forall>a q. ok (rd_coils rd a q) \<longrightarrow> rd_coils rd a q = rd_coils rd' a q) \<and>
        (\<forall>a q. ok (rd_discrete_inputs rd a q) \<longrightarrow> rd_discrete_inputs rd a q = rd_discrete_inputs rd' a q) \<and>
        (\<forall>a n t. ok (rd_raw_bytes rd a n t) \<longrightarrow> rd_raw_bytes rd a n t = rd_raw_bytes rd' a n t))"

lemma honest_memory_reader: "honest (memory_reader m) m"
  unfolding honest_def by (rule exI [of _ "memory_reader m"]) (simp add: serves_memory_reader)

definition group_values :: "device_memory \<Rightarrow> poll_group \<Rightarrow> hw_value list" where
  "group_values m g = map (\<lambda>p. point_value m (pp_point p)) (pg_points g)"

lemma honest_readGroup:
  assumes "honest rd m" and "readable_group g" and "readGroup rd g = Inr vs"
  shows "vs = group_values m g"
proof -
  obtain rd' where rd': "serves rd' m"
      "\<And>a q. ok (rd_coils rd a q) \<Longrightarrow> rd_coils rd a q = rd_coils rd' a q"
      "\<And>a q. ok (rd_discrete_inputs rd a q) \<Longrightarrow> rd_discrete_inputs rd a q = rd_discrete_inputs rd' a q"
      "\<And>a n t. ok (rd_raw_bytes rd a n t) \<Longrightarrow> rd_raw_bytes rd a n t = rd_raw_bytes rd' a n t"
    using assms(1) unfolding honest_def by blast
  have "readGroup rd g = readGroup rd' g"
    using assms(3) rd'(2) [of "pg_address g" "pg_quantity g"] rd'(3) [of "pg_address g" "pg_quantity g"]
      rd'(4) [of "pg_address g" "pg_quantity g * 2" "pg_register g = RegisterInputRegister"]
    by (cases "rd_coils rd (pg_address g) (pg_quantity g)";
        cases "rd_discrete_inputs rd (pg_address g) (pg_quantity g)";
        cases "rd_raw_bytes rd (pg_address g) (pg_quantity g * 2) (pg_register g = RegisterInputRegister)")
      (simp_all add: readGroup_def split: if_splits)
  with readGroup_readable [OF assms(2) rd'(1)] assms(3) show ?thesis
    by (simp add: group_values_def)
qed

lemma groups_readable:
  assumes "\<forall>p\<in>set points. valid_point (pp_point p)" and "g \<in> set (groupPoints points)"
  shows "readable_group g"
proof -
  have "set (pg_points g) \<subseteq> set points"
    using groupPoints_facts(2) [of points, THEN mset_eq_setD] assms(2) by auto
  with assms groupPoints_facts(1) [of points] show ?thesis
    by (auto simp: readable_group_def)
qed

text \<open>The type of the decoded value is the type the point promises, so it is publishable.\<close>

definition publishable :: "hw_type \<Rightarrow> hw_value \<Rightarrow> bool" where
  "publishable ty v \<longleftrightarrow>
     (case (ty, v) of
        (HwBool, HBool _) \<Rightarrow> True | (HwInt64, HInt _) \<Rightarrow> True | (HwFloat64, HFloat _) \<Rightarrow> True
      | _ \<Rightarrow> False)"

lemma point_value_in_range:
  assumes "valid_point p"
  shows "in_range (pt_encoding p) (point_value m p)"
proof (cases "pt_register p \<in> {RegisterCoil, RegisterDiscreteInput}")
  case True
  then show ?thesis
    using valid_point_kind(1) [OF assms] by (auto simp: point_value_def in_range_def)
next
  case False
  have "ok (decodeRegisters (point_bytes m p) p)"
    using False by (intro decodeRegisters_valid [OF assms]) (auto simp: point_bytes_def)
  then obtain v where "decodeRegisters (point_bytes m p) p = Inr v" by (auto simp: ok_iff)
  with False show ?thesis
    using decodeRegisters_range by (auto simp: point_value_def)
qed

lemma point_value_publishable:
  assumes "valid_point p"
  shows "publishable (pt_value_type p) (point_value m p)"
  using point_value_in_range [OF assms, of m] assms
  by (cases "pt_encoding p") (auto simp: in_range_def publishable_def valid_point_def valueTypeForEncoding_def)

section \<open>Points of a worker\<close>

lemma targetSubject_Some: "targetSubject k = Some t \<Longrightarrow> k = t @ AddressSuffix"
  unfolding targetSubject_def Let_def by (metis append_take_drop_id option.distinct(1) option.inject)

lemma pollPoint_Some:
  assumes "pollPoint env x c k d = Some p"
  shows "valid_point (pp_point p)" and "k = pp_subject p @ AddressSuffix"
  using assms
  by (auto simp: pollPoint_def dest: ParsePoint_valid targetSubject_Some split: if_splits sum.splits option.splits)

lemma map_filter_Some: "y \<in> set (List.map_filter f xs) \<longleftrightarrow> (\<exists>x\<in>set xs. f x = Some y)"
  by (force simp: List.map_filter_def)

lemma wanted_distinct:
  assumes "distinct (map fst (ms_points sv))"
  shows "distinct (map pp_subject (wanted_points env x c sv))"
proof -
  have "distinct (map pp_subject (List.map_filter (\<lambda>(k, d). pollPoint env x c k d) al))"
    if "distinct (map fst al)" for al
    using that
  proof (induction al)
    case Nil
    then show ?case by (simp add: List.map_filter_simps)
  next
    case (Cons kd al)
    obtain k d where kd: "kd = (k, d)" by fastforce
    show ?case
    proof (cases "pollPoint env x c k d")
      case None
      with Cons kd show ?thesis by (simp add: List.map_filter_simps)
    next
      case (Some p)
      have "pp_subject q \<noteq> pp_subject p"
        if q: "q \<in> set (List.map_filter (\<lambda>(k, d). pollPoint env x c k d) al)" for q
      proof
        assume eq: "pp_subject q = pp_subject p"
        obtain k' d' where "(k', d') \<in> set al" "pollPoint env x c k' d' = Some q"
          using q by (auto simp: map_filter_Some)
        with Some eq have "k \<in> fst ` set al"
          using pollPoint_Some(2) by (metis fst_conv image_eqI)
        with Cons.prems kd show False by simp
      qed
      with Cons kd Some show ?thesis by (force simp: List.map_filter_simps)
    qed
  qed
  then show ?thesis using assms by (simp add: wanted_points_def)
qed

lemma worker_points:
  assumes "modbus_sound env sv" and "map_of (ms_workers sv) s = Some w"
  obtains c where "map_of (ms_connections sv) s = Some c" and "wk_connection w = cd_connection c"
    and "mset (wk_points w) = mset (wanted_points env s c sv)"
    and "\<forall>p\<in>set (wk_points w). valid_point (pp_point p)"
    and "distinct (map pp_subject (wk_points w))"
proof -
  have run: "ms_started sv" using soundD(6) [OF assms(1)] assms(2) by fastforce
  obtain c where c: "map_of (ms_connections sv) s = Some c" "wk_connection w = cd_connection c"
    "mset (wk_points w) = mset (wanted_points env s c sv)"
    using soundD(4) [OF assms(1) run, of s] assms(2) by (auto simp: worker_current_def)
  have "\<forall>p\<in>set (wanted_points env s c sv). valid_point (pp_point p)"
    by (auto simp: wanted_points_def map_filter_Some dest: pollPoint_Some(1))
  then have valid: "\<forall>p\<in>set (wk_points w). valid_point (pp_point p)"
    using mset_eq_setD [OF c(3)] by simp
  have "mset (map pp_subject (wk_points w)) = mset (map pp_subject (wanted_points env s c sv))"
    using c(3) by simp
  then have "distinct (map pp_subject (wk_points w))"
    using wanted_distinct [OF soundD(1) [OF assms(1)]] mset_eq_imp_distinct_iff by blast
  with c valid show ?thesis using that by blast
qed

lemma distinct_groups:
  assumes "distinct (map pp_subject points)"
  shows "distinct (map pp_subject (concat (map pg_points (groupPoints points))))"
proof -
  have "mset (map pp_subject (concat (map pg_points (groupPoints points)))) = mset (map pp_subject points)"
    using groupPoints_facts(2) [of points] by (metis mset_map)
  then show ?thesis using assms mset_eq_imp_distinct_iff by blast
qed

section \<open>Only genuine values are published\<close>

lemma publish_outbox:
  "\<exists>new. ms_outbox (publish env t ty v c sv) = new @ ms_outbox sv \<and> set new \<subseteq> {(t, v)}"
  by (auto simp: publish_def publishValue_def tick_def rememberPublished_def split: prod.splits)

lemma publishPoints_outbox:
  "\<exists>new. ms_outbox (publishPoints env ps vs sv) = new @ ms_outbox sv \<and>
     set new \<subseteq> {(pp_subject p, v) | p v. (p, v) \<in> set (zip ps vs)}"
proof (induction env ps vs sv rule: publishPoints.induct)
  case (1 env p ps v vs sv)
  obtain new where new: "ms_outbox (publishPoints env (p # ps) (v # vs) sv) =
      new @ ms_outbox (publish env (pp_subject p) (pt_value_type (pp_point p)) v (pp_publish_on_change p) sv)"
    "set new \<subseteq> {(pp_subject p, v) | p v. (p, v) \<in> set (zip ps vs)}"
    using 1 by auto
  obtain new' where new': "ms_outbox (publish env (pp_subject p) (pt_value_type (pp_point p)) v
        (pp_publish_on_change p) sv) = new' @ ms_outbox sv" "set new' \<subseteq> {(pp_subject p, v)}"
    using publish_outbox by blast
  have "ms_outbox (publishPoints env (p # ps) (v # vs) sv) = (new @ new') @ ms_outbox sv"
    using new(1) new'(1) by simp
  moreover have "set (new @ new') \<subseteq> {(pp_subject q, u) | q u. (q, u) \<in> set (zip (p # ps) (v # vs))}"
    using new(2) new'(2) by fastforce
  ultimately show ?case by blast
qed auto

lemma client_readGroup_Inr:
  "client_readGroup env n cl g = (cl', Inr vs) \<Longrightarrow> readGroup (mv_device env n (cl_connection cl)) g = Inr vs"
  by (auto simp: client_readGroup_def split: if_splits sum.splits)

definition honest_devices :: "modbus_env \<Rightarrow> (nat \<Rightarrow> connection \<Rightarrow> device_memory) \<Rightarrow> bool" where
  "honest_devices env mem \<longleftrightarrow> (\<forall>n c. honest (mv_device env n c) (mem n c))"

definition values_of ::
    "(nat \<Rightarrow> connection \<Rightarrow> device_memory) \<Rightarrow> connection \<Rightarrow> poll_point list \<Rightarrow> (string \<times> hw_value) set" where
  "values_of mem c points = {(pp_subject p, point_value (mem n c) (pp_point p)) | n p. p \<in> set points}"

lemma pollGroups_outbox:
  "honest_devices env mem \<Longrightarrow> \<forall>g\<in>set gs. readable_group g \<Longrightarrow>
    \<exists>new. ms_outbox (pollGroups env s cl gs sv) = new @ ms_outbox sv \<and>
      set new \<subseteq> values_of mem (cl_connection cl) (concat (map pg_points gs))"
proof (induction env s cl gs sv rule: pollGroups.induct)
  case (1 env s cl sv)
  then show ?case by auto
next
  case (2 env s cl g gs sv)
  obtain cl' r where r: "client_readGroup env (ms_calls sv) cl g = (cl', r)" by fastforce
  have conn: "cl_connection cl' = cl_connection cl"
    using client_readGroup_connection [of env "ms_calls sv" cl g] r by simp
  have rest: "values_of mem (cl_connection cl') (concat (map pg_points gs)) \<subseteq>
      values_of mem (cl_connection cl) (concat (map pg_points (g # gs)))"
    by (auto simp: values_of_def conn)
  show ?case
  proof (cases r)
    case (Inl e)
    then show ?thesis
      using "2.IH"(1) [OF r [symmetric] Inl] "2.prems" r rest by (fastforce simp: tick_def)
  next
    case (Inr vs)
    have vs: "vs = group_values (mem (ms_calls sv) (cl_connection cl)) g"
      using honest_readGroup client_readGroup_Inr r Inr "2.prems" by (fastforce simp: honest_devices_def)
    obtain here where here: "ms_outbox (publishPoints env (pg_points g) vs (tick sv)) = here @ ms_outbox sv"
      "set here \<subseteq> {(pp_subject p, v) | p v. (p, v) \<in> set (zip (pg_points g) vs)}"
      using publishPoints_outbox [of env "pg_points g" vs "tick sv"] by (auto simp: tick_def)
    have "set here \<subseteq> values_of mem (cl_connection cl) (concat (map pg_points (g # gs)))"
      using here(2) by (fastforce simp: vs group_values_def values_of_def zip_map2 zip_same_conv_map)
    moreover obtain new where "ms_outbox (pollGroups env s cl' gs (publishPoints env (pg_points g) vs (tick sv))) =
        new @ here @ ms_outbox sv"
      "set new \<subseteq> values_of mem (cl_connection cl') (concat (map pg_points gs))"
      using "2.IH"(2) [OF r [symmetric] Inr] "2.prems" here(1) by auto
    ultimately show ?thesis
      using rest by (intro exI [of _ "new @ here"]) (auto simp: r Inr)
  qed
qed

lemma clientFor_cases:
  obtains client where "map_of (ms_clients (clientFor s c sv)) s = Some client"
    and "cl_connection client = (case map_of (ms_clients sv) s of None \<Rightarrow> c | Some old \<Rightarrow> cl_connection old)"
    and "ms_outbox (clientFor s c sv) = ms_outbox sv" and "ms_last (clientFor s c sv) = ms_last sv"
    and "poll env s c ps sv = pollGroups env s client (groupPoints ps) (clientFor s c sv)"
  by (cases "map_of (ms_clients sv) s") (auto simp: clientFor_def poll_def)

lemma worker_client:
  assumes "modbus_sound env sv" and "map_of (ms_workers sv) s = Some w"
  shows "(case map_of (ms_clients sv) s of None \<Rightarrow> wk_connection w | Some old \<Rightarrow> cl_connection old) =
    wk_connection w"
proof -
  obtain c where "map_of (ms_connections sv) s = Some c" "wk_connection w = cd_connection c"
    using worker_points [OF assms] by blast
  then show ?thesis
    using soundD(5) [OF assms(1), of s] by (auto simp: client_current_def split: option.split)
qed

lemma turn_outbox:
  assumes "honest_devices env mem" and "modbus_sound env sv" and "map_of (ms_workers sv) s = Some w"
  shows "\<exists>new. ms_outbox (poll env s (wk_connection w) (wk_points w) sv) = new @ ms_outbox sv \<and>
    set new \<subseteq> values_of mem (wk_connection w) (wk_points w)"
proof -
  obtain client where client: "cl_connection client = wk_connection w"
    "ms_outbox (clientFor s (wk_connection w) sv) = ms_outbox sv"
    "poll env s (wk_connection w) (wk_points w) sv =
       pollGroups env s client (groupPoints (wk_points w)) (clientFor s (wk_connection w) sv)"
    using clientFor_cases [of s "wk_connection w" sv env "wk_points w"] worker_client [OF assms(2,3)] by metis
  have valid: "\<forall>p\<in>set (wk_points w). valid_point (pp_point p)"
    using worker_points [OF assms(2,3)] by blast
  have "\<forall>g\<in>set (groupPoints (wk_points w)). readable_group g"
    using groups_readable [OF valid] by blast
  moreover have "set (concat (map pg_points (groupPoints (wk_points w)))) = set (wk_points w)"
    using groupPoints_facts(2) by (rule mset_eq_setD)
  then have "values_of mem c (concat (map pg_points (groupPoints (wk_points w)))) = values_of mem c (wk_points w)"
    for c by (simp only: values_of_def)
  ultimately show ?thesis
    using pollGroups_outbox [OF assms(1), of "groupPoints (wk_points w)" s client
        "clientFor s (wk_connection w) sv"] client by simp
qed

text \<open>A value some device held for a point named by an accepted address descriptor of the subject.\<close>

definition genuine ::
    "modbus_env \<Rightarrow> (nat \<Rightarrow> connection \<Rightarrow> device_memory) \<Rightarrow> string \<Rightarrow> hw_value \<Rightarrow> bool" where
  "genuine env mem t v \<longleftrightarrow>
     (\<exists>raw d conn_raw c p n.
        accepted_point env raw = Some d \<and> usable_connection env conn_raw = Some c \<and>
        pollPoint env (ds_connection (pd_descriptor d)) c (t @ AddressSuffix) d = Some p \<and>
        pp_subject p = t \<and> v = point_value (mem n (cd_connection c)) (pp_point p))"

lemma turn_genuine:
  assumes "honest_devices env mem" and "modbus_sound env sv" and w: "map_of (ms_workers sv) s = Some w"
    and "(t, v) \<in> set (ms_outbox (poll env s (wk_connection w) (wk_points w) sv))"
    and "(t, v) \<notin> set (ms_outbox sv)"
  shows "genuine env mem t v"
proof -
  obtain c where c: "map_of (ms_connections sv) s = Some c" "wk_connection w = cd_connection c"
    "mset (wk_points w) = mset (wanted_points env s c sv)"
    using worker_points [OF assms(2) w] by blast
  obtain p n where p: "p \<in> set (wk_points w)" "t = pp_subject p"
    "v = point_value (mem n (cd_connection c)) (pp_point p)"
    using turn_outbox [OF assms(1-3)] assms(4,5) by (auto simp: values_of_def c(2))
  have "p \<in> set (wanted_points env s c sv)" using p(1) mset_eq_setD [OF c(3)] by simp
  then obtain k d where d: "(k, d) \<in> set (ms_points sv)" "pollPoint env s c k d = Some p"
    by (auto simp: wanted_points_def map_filter_Some)
  have k: "k = t @ AddressSuffix" using pollPoint_Some(2) [OF d(2)] p(2) by simp
  have "map_of (ms_points sv) k = Some d"
    using d(1) soundD(1) [OF assms(2)] by (rule map_of_is_SomeI [rotated])
  moreover have "ds_connection (pd_descriptor d) = s"
    using d(2) by (auto simp: pollPoint_def split: if_splits)
  ultimately show ?thesis
    using soundD(2) [OF assms(2) c(1)] soundD(3) [OF assms(2)] d(2) p k unfolding genuine_def by blast
qed

section \<open>What is remembered is what was published last\<close>

definition remembers :: "modbus_service \<Rightarrow> bool" where
  "remembers sv \<longleftrightarrow> (\<forall>t v. map_of (ms_last sv) t = Some v \<longrightarrow> map_of (ms_outbox sv) t = Some v)"

lemma remembers_publish: "remembers sv \<Longrightarrow> remembers (publish env t ty v c sv)"
  by (auto simp: remembers_def publish_def publishValue_def rememberPublished_def tick_def split: prod.splits)

lemma remembers_tick [simp]: "remembers (tick sv) = remembers sv"
  by (simp add: remembers_def tick_def)

lemma remembers_clients [simp]: "remembers (sv\<lparr>ms_clients := cls\<rparr>) = remembers sv"
  by (simp add: remembers_def)

lemma remembers_publishPoints: "remembers sv \<Longrightarrow> remembers (publishPoints env ps vs sv)"
  by (induction env ps vs sv rule: publishPoints.induct) (simp_all add: remembers_publish)

lemma remembers_pollGroups: "remembers sv \<Longrightarrow> remembers (pollGroups env s cl gs sv)"
  by (induction env s cl gs sv rule: pollGroups.induct)
    (simp_all add: remembers_publishPoints split: prod.split sum.split)

lemma remembers_poll: "remembers sv \<Longrightarrow> remembers (poll env s c ps sv)"
  by (simp add: poll_def clientFor_def Let_def remembers_pollGroups split: option.split)

text \<open>The other steps publish nothing and at most forget.\<close>

definition quiet :: "modbus_service \<Rightarrow> modbus_service \<Rightarrow> bool" where
  "quiet sv sv' \<longleftrightarrow>
     ms_outbox sv' = ms_outbox sv \<and>
     (\<forall>t. map_of (ms_last sv') t = map_of (ms_last sv) t \<or> map_of (ms_last sv') t = None)"

lemma quiet_remembers: "quiet sv sv' \<Longrightarrow> remembers sv \<Longrightarrow> remembers sv'"
  unfolding quiet_def remembers_def by (metis option.distinct(1))

lemma restart_log [simp]:
  "ms_outbox (restartConnection env s sv) = ms_outbox sv" "ms_last (restartConnection env s sv) = ms_last sv"
  using restart_tables [of sv env s] by (simp_all add: same_tables_def)

lemma quiet_reconcileConnection: "quiet sv (reconcileConnection env s raw sv)"
  by (simp add: quiet_def reconcileConnection_def invalidateConnection_def stopWorker_def
      installConnection_def Let_def split: option.split)

lemma quiet_removePoint: "quiet sv (removePoint env s sv)"
  by (simp add: quiet_def removePoint_def forgetPublished_def Let_def split: option.split)

lemma quiet_reconcileAddress: "quiet sv (reconcileAddress env s raw sv)"
  using quiet_removePoint [of sv env s]
  by (simp add: reconcileAddress_def Let_def split: sum.split) (simp add: quiet_def)

lemma quiet_startWorkers: "quiet sv (startWorkers env sv)"
  using restart_fold_fields [of "tick (sv\<lparr>ms_started := True\<rparr>)" env]
  by (simp add: quiet_def startWorkers_def Let_def same_tables_def tick_def)

lemma quiet_stop: "quiet sv (modbus_stop sv)" and quiet_tick: "quiet sv (tick sv)"
  by (simp_all add: quiet_def modbus_stop_def tick_def)

definition log_ok :: "modbus_env \<Rightarrow> (nat \<Rightarrow> connection \<Rightarrow> device_memory) \<Rightarrow> modbus_service \<Rightarrow> bool" where
  "log_ok env mem sv \<longleftrightarrow> (\<forall>(t, v)\<in>set (ms_outbox sv). genuine env mem t v) \<and> remembers sv"

lemma log_quiet: "quiet sv sv' \<Longrightarrow> log_ok env mem sv \<Longrightarrow> log_ok env mem sv'"
  using quiet_remembers by (auto simp: log_ok_def quiet_def)

lemma log_handle:
  assumes "honest_devices env mem" and "modbus_sound env sv" and "log_ok env mem sv"
  shows "log_ok env mem (modbus_handle env ev sv)"
proof (cases ev)
  case (TimerFired s)
  show ?thesis
  proof (cases "map_of (ms_workers sv) s")
    case (Some w)
    then show ?thesis
      using assms(3) turn_genuine [OF assms(1,2) Some] remembers_poll
      by (fastforce simp: log_ok_def modbus_handle_def TimerFired)
  qed (use assms(3) in \<open>simp add: modbus_handle_def TimerFired\<close>)
qed (simp_all add: modbus_handle_def log_quiet [OF quiet_reconcileConnection assms(3)]
    log_quiet [OF quiet_reconcileAddress assms(3)])

lemma reachable_log:
  assumes "fair_order env" and "honest_devices env mem" and "modbus_reachable env sv"
  shows "log_ok env mem sv"
  using assms(3)
proof induction
  case modbus_new
  then show ?case by (simp add: log_ok_def remembers_def new_modbus_service_def)
next
  case (modbus_event sv ev)
  then show ?case using log_handle assms(1,2) modbus_reachable_sound by blast
qed (use log_quiet quiet_tick quiet_startWorkers quiet_stop in blast)+

section \<open>One turn of a worker\<close>

text \<open>The points one publishes, and the messages, when the values are those of a memory.\<close>

definition due :: "device_memory \<Rightarrow> modbus_service \<Rightarrow> poll_point \<Rightarrow> bool" where
  "due m sv p \<longleftrightarrow> \<not> (pp_publish_on_change p \<and> sameAsLast (pp_subject p) (point_value m (pp_point p)) sv)"

definition entries :: "device_memory \<Rightarrow> modbus_service \<Rightarrow> poll_point list \<Rightarrow> (string \<times> hw_value) list" where
  "entries m sv ps = map (\<lambda>p. (pp_subject p, point_value m (pp_point p))) (filter (due m sv) ps)"

definition announces :: "device_memory \<Rightarrow> modbus_service \<Rightarrow> poll_point list \<Rightarrow> modbus_service \<Rightarrow> bool" where
  "announces m sv ps sv' \<longleftrightarrow>
     ms_outbox sv' = rev (entries m sv ps) @ ms_outbox sv \<and>
     map_of (ms_last sv') = map_of (ms_last sv) ++ map_of (entries m sv ps)"

lemma entries_dom: "map_of (entries m sv ps) t = Some v \<Longrightarrow> t \<in> set (map pp_subject ps)"
  by (auto simp: entries_def dest!: map_of_SomeD)

lemma announces_nothing: "ms_outbox sv' = ms_outbox sv \<Longrightarrow> ms_last sv' = ms_last sv \<Longrightarrow> announces m sv [] sv'"
  by (simp add: announces_def entries_def)

lemma announces_append:
  assumes ps: "announces m sv ps sv1" and qs: "announces m sv1 qs sv2"
    and "distinct (map pp_subject (ps @ qs))"
  shows "announces m sv (ps @ qs) sv2"
proof -
  have "map_of (entries m sv ps) (pp_subject q) = None" if "q \<in> set qs" for q
    using assms(3) that entries_dom [of m sv ps "pp_subject q"] by fastforce
  then have "map_of (ms_last sv1) (pp_subject q) = map_of (ms_last sv) (pp_subject q)" if "q \<in> set qs" for q
    using ps that by (simp add: announces_def map_add_def)
  then have "due m sv1 q = due m sv q" if "q \<in> set qs" for q
    using that by (simp add: due_def sameAsLast_def)
  then have same: "entries m sv1 qs = entries m sv qs"
    by (simp add: entries_def cong: filter_cong)
  have "dom (map_of (entries m sv ps)) \<inter> dom (map_of (entries m sv qs)) = {}"
  proof (rule equals0I)
    fix t assume "t \<in> dom (map_of (entries m sv ps)) \<inter> dom (map_of (entries m sv qs))"
    then have "t \<in> set (map pp_subject ps)" "t \<in> set (map pp_subject qs)"
      using entries_dom by blast+
    with assms(3) show False by auto
  qed
  then have "map_of (entries m sv ps) ++ map_of (entries m sv qs) =
      map_of (entries m sv qs) ++ map_of (entries m sv ps)"
    by (rule map_add_comm)
  also have "\<dots> = map_of (entries m sv (ps @ qs))"
    by (simp add: entries_def)
  finally have "map_of (entries m sv ps) ++ map_of (entries m sv qs) = map_of (entries m sv (ps @ qs))" .
  then have "map_of (ms_last sv2) = map_of (ms_last sv) ++ map_of (entries m sv (ps @ qs))"
    using ps qs by (simp only: announces_def same map_add_assoc [symmetric])
  moreover have "ms_outbox sv2 = rev (entries m sv (ps @ qs)) @ ms_outbox sv"
    using ps qs by (simp add: announces_def same) (simp add: entries_def)
  ultimately show ?thesis by (simp add: announces_def)
qed

definition publisher_accepts :: "modbus_env \<Rightarrow> bool" where
  "publisher_accepts env \<longleftrightarrow> (\<forall>n t v. mv_publish env n t v)"

lemma publish_announces:
  assumes "publisher_accepts env" and "valid_point (pp_point p)"
  shows "announces m sv [p]
    (publish env (pp_subject p) (pt_value_type (pp_point p)) (point_value m (pp_point p))
       (pp_publish_on_change p) sv)"
  using assms(1) point_value_publishable [OF assms(2), of m]
  by (simp add: announces_def entries_def due_def publish_def publishValue_def publishable_def
      publisher_accepts_def rememberPublished_def tick_def map_add_def fun_eq_iff split: if_splits)

lemma publishPoints_announces:
  assumes "publisher_accepts env"
  shows "\<forall>p\<in>set ps. valid_point (pp_point p) \<Longrightarrow> distinct (map pp_subject ps) \<Longrightarrow>
    announces m sv ps (publishPoints env ps (map (\<lambda>p. point_value m (pp_point p)) ps) sv)"
proof (induction ps arbitrary: sv)
  case Nil
  then show ?case by (simp add: announces_nothing)
next
  case (Cons p ps)
  let ?sv1 = "publish env (pp_subject p) (pt_value_type (pp_point p)) (point_value m (pp_point p))
    (pp_publish_on_change p) sv"
  have "announces m sv [p] ?sv1" using publish_announces [OF assms] Cons.prems by simp
  moreover have "announces m ?sv1 ps
      (publishPoints env ps (map (\<lambda>p. point_value m (pp_point p)) ps) ?sv1)"
    using Cons by simp
  ultimately show ?case using announces_append Cons.prems(2) by fastforce
qed

text \<open>The groups of a turn either fail all the time or answer from the memory all the time.\<close>

definition group_answers ::
    "modbus_env \<Rightarrow> connection \<Rightarrow> device_memory \<Rightarrow> poll_group set \<Rightarrow> poll_group \<Rightarrow> bool" where
  "group_answers env c m failing g \<longleftrightarrow>
     (\<forall>n. mv_open env n c \<and>
        (if g \<in> failing then \<not> ok (readGroup (mv_device env n c) g)
         else readGroup (mv_device env n c) g = Inr (group_values m g)))"

lemma announces_tick [simp]: "announces m (tick sv) ps sv' = announces m sv ps sv'"
  by (simp add: announces_def entries_def due_def sameAsLast_def tick_def cong: filter_cong)

lemma distinct_concat_filter:
  "distinct (map f (concat (map g xs))) \<Longrightarrow> distinct (map f (concat (map g (filter P xs))))"
  by (induction xs) auto

lemma pollGroups_announces:
  assumes "publisher_accepts env"
  shows "\<forall>g\<in>set gs. group_answers env (cl_connection cl) m failing g \<and>
      (\<forall>p\<in>set (pg_points g). valid_point (pp_point p)) \<Longrightarrow>
    distinct (map pp_subject (concat (map pg_points gs))) \<Longrightarrow>
    announces m sv (concat (map pg_points (filter (\<lambda>g. g \<notin> failing) gs))) (pollGroups env s cl gs sv)"
proof (induction gs arbitrary: cl sv)
  case Nil
  then show ?case by (simp add: announces_nothing)
next
  case (Cons g gs)
  have g: "group_answers env (cl_connection cl) m failing g" using Cons.prems(1) by simp
  have prems: "distinct (map pp_subject (concat (map pg_points gs)))"
    "\<forall>h\<in>set gs. group_answers env (cl_connection cl) m failing h \<and> (\<forall>p\<in>set (pg_points h). valid_point (pp_point p))"
    using Cons.prems by simp_all
  show ?case
  proof (cases "g \<in> failing")
    case True
    then have "\<not> ok (readGroup (mv_device env (ms_calls sv) (cl_connection cl)) g)"
      and "mv_open env (ms_calls sv) (cl_connection cl)"
      using g by (simp_all add: group_answers_def)
    then obtain cl' e where r: "client_readGroup env (ms_calls sv) cl g = (cl', Inl e)"
      "cl_connection cl' = cl_connection cl"
      by (cases "readGroup (mv_device env (ms_calls sv) (cl_connection cl)) g")
        (auto simp: client_readGroup_def)
    then show ?thesis using Cons.IH [of cl' "tick sv"] prems True by simp
  next
    case False
    then obtain cl' where r: "client_readGroup env (ms_calls sv) cl g = (cl', Inr (group_values m g))"
      "cl_connection cl' = cl_connection cl"
      using g by (auto simp: group_answers_def client_readGroup_def)
    let ?sv1 = "publishPoints env (pg_points g) (group_values m g) (tick sv)"
    have first: "announces m sv (pg_points g) ?sv1"
      using publishPoints_announces [OF assms, of "pg_points g" m "tick sv"] Cons.prems
      by (simp add: group_values_def)
    have "announces m ?sv1 (concat (map pg_points (filter (\<lambda>g. g \<notin> failing) gs)))
        (pollGroups env s cl' gs ?sv1)"
      using Cons.IH [of cl' ?sv1] prems r by simp
    moreover have "distinct (map pp_subject (pg_points g @ concat (map pg_points (filter (\<lambda>g. g \<notin> failing) gs))))"
      using distinct_concat_filter [OF Cons.prems(2), of "\<lambda>g. g \<notin> failing"] False by simp
    ultimately show ?thesis
      using announces_append [OF first] False r by simp
  qed
qed

lemma turn_announces:
  assumes sv: "modbus_sound env sv" and w: "map_of (ms_workers sv) s = Some w"
    and "publisher_accepts env"
    and "\<forall>g\<in>set (groupPoints (wk_points w)). group_answers env (wk_connection w) m failing g"
  shows "announces m sv (concat (map pg_points (filter (\<lambda>g. g \<notin> failing) (groupPoints (wk_points w)))))
    (poll env s (wk_connection w) (wk_points w) sv)"
proof -
  let ?gs = "groupPoints (wk_points w)" and ?sv = "clientFor s (wk_connection w) sv"
  obtain client where client: "cl_connection client = wk_connection w"
    "ms_outbox ?sv = ms_outbox sv" "ms_last ?sv = ms_last sv"
    "poll env s (wk_connection w) (wk_points w) sv = pollGroups env s client ?gs ?sv"
    using clientFor_cases [of s "wk_connection w" sv env "wk_points w"] worker_client [OF sv w] by metis
  have valid: "\<forall>p\<in>set (wk_points w). valid_point (pp_point p)" and d: "distinct (map pp_subject (wk_points w))"
    using worker_points [OF sv w] by blast+
  have "\<forall>g\<in>set ?gs. \<forall>p\<in>set (pg_points g). valid_point (pp_point p)"
    using groups_readable [OF valid] by (auto simp: readable_group_def)
  then have "announces m ?sv (concat (map pg_points (filter (\<lambda>g. g \<notin> failing) ?gs)))
      (pollGroups env s client ?gs ?sv)"
    using pollGroups_announces [OF assms(3), of ?gs client m failing ?sv s] distinct_groups [OF d] assms(4) client(1)
    by simp
  then show ?thesis
    using client by (simp add: announces_def entries_def due_def sameAsLast_def cong: filter_cong)
qed

text \<open>After the values were announced, only the points that publish always, and values that are not
  equal to themselves, are due again.\<close>

lemma due_again:
  assumes "announces m sv ps sv'" and "distinct (map pp_subject ps)" and "p \<in> set ps"
  shows "due m sv' p \<longleftrightarrow>
    \<not> pp_publish_on_change p \<or> \<not> same_value (point_value m (pp_point p)) (point_value m (pp_point p)) \<and> due m sv p"
proof (cases "due m sv p")
  case True
  have "map_of (entries m sv ps) (pp_subject p) = Some (point_value m (pp_point p))"
    unfolding entries_def
    by (rule map_of_is_SomeI) (use assms(2,3) True in \<open>auto simp: comp_def distinct_map_filter intro: rev_image_eqI\<close>)
  then have "map_of (ms_last sv') (pp_subject p) = Some (point_value m (pp_point p))"
    using assms(1) by (simp add: announces_def)
  with True show ?thesis by (simp add: due_def sameAsLast_def)
next
  case False
  have "map_of (entries m sv ps) (pp_subject p) = None"
  proof (rule ccontr)
    assume "map_of (entries m sv ps) (pp_subject p) \<noteq> None"
    then obtain q where "q \<in> set ps" "due m sv q" "pp_subject q = pp_subject p"
      by (auto simp: entries_def dest!: map_of_SomeD)
    with assms(2,3) False show False by (metis distinct_map inj_on_eq_iff)
  qed
  then have "map_of (ms_last sv') (pp_subject p) = map_of (ms_last sv) (pp_subject p)"
    using assms(1) by (simp add: announces_def map_add_def)
  with False show ?thesis by (simp add: due_def sameAsLast_def)
qed

end
