(* ===== verification/Modbus_Scenarios.thy ===== *)
theory Modbus_Scenarios
  imports Modbus_Publish
begin

text \<open>
  Concrete histories of the Modbus service, run by evaluation: one device with a fixed memory, two
  holding registers and a coil on one connection, whose descriptors are loaded by \<open>Run\<close>.
\<close>

definition demo_connection_config :: "string \<Rightarrow> connection_config" where
  "demo_connection_config url =
     \<lparr>cc_url = url, cc_unit_id = 1, cc_byte_order = OrderOther [], cc_word_order = OrderLittle,
      cc_timeout = ''1s'', cc_poll_interval = ''250ms''\<rparr>"

definition demo_address_config :: "register \<Rightarrow> u16 \<Rightarrow> encoding \<Rightarrow> address_config" where
  "demo_address_config r a e = \<lparr>ac_register = r, ac_address = a, ac_encoding = e\<rparr>"

definition demo_descriptor :: "hw_type \<Rightarrow> bool \<Rightarrow> string \<Rightarrow> descriptor" where
  "demo_descriptor ty on_change cfg =
     \<lparr>ds_version = 1, ds_driver = ''modbus'', ds_value_type = ty, ds_enabled = True,
      ds_connection = ''L.config'', ds_publish_on_change = on_change, ds_config = cfg\<rparr>"

definition demo_hw_connection :: "string \<Rightarrow> hw_connection" where
  "demo_hw_connection cfg =
     \<lparr>hc_version = 1, hc_driver = ''modbus'', hc_enabled = True, hc_config = cfg\<rparr>"

definition demo_json :: address_json where
  "demo_json =
     \<lparr>json_descriptor =
        map_of [(''speed'', demo_descriptor HwInt64 True ''h10''),
                (''total'', demo_descriptor HwInt64 False ''h11''),
                (''door'', demo_descriptor HwBool True ''c3'')],
      json_connection =
        map_of [(''old'', demo_hw_connection ''u1''), (''new'', demo_hw_connection ''u2'')],
      json_valid = (\<lambda>_. True),
      json_of_descriptor = (\<lambda>d. if d = demo_descriptor HwInt64 True ''h10'' then Some ''speed'' else None),
      json_of_connection = (\<lambda>_. None)\<rparr>"

definition demo_modbus_codec :: modbus_codec where
  "demo_modbus_codec =
     \<lparr>mb_connection_config =
        map_of [(''u1'', demo_connection_config ''tcp://one''), (''u2'', demo_connection_config ''tcp://two'')],
      mb_address_config =
        map_of [(''h10'', demo_address_config RegisterHoldingRegister 10 EncodingInt16),
                (''h11'', demo_address_config RegisterHoldingRegister 11 EncodingUint32),
                (''c3'', demo_address_config RegisterCoil 3 EncodingBool)],
      mb_url = (\<lambda>u. if take 6 u = ''tcp://'' then Some (''tcp'', drop 6 u) else None)\<rparr>"

definition demo_memory :: device_memory where
  "demo_memory =
     \<lparr>mem_coil = (\<lambda>i. i = 3), mem_discrete = (\<lambda>_. False),
      mem_register = (\<lambda>_ i. if i = 20 then 255 else of_nat i)\<rparr>"

definition demo_modbus :: modbus_env where
  "demo_modbus =
     \<lparr>mv_json = demo_json, mv_codec = demo_modbus_codec, mv_order = (\<lambda>_ xs. xs),
      mv_list = (\<lambda>_ suf. Some (if suf = ConnectionSuffix then [''L.config'']
                              else [''S.address'', ''T.address'', ''D.address''])),
      mv_get = (\<lambda>_. map_of [(''L.config'', ''old''), (''S.address'', ''speed''), (''T.address'', ''total''),
                          (''D.address'', ''door'')]),
      mv_subscribe = (\<lambda>_ _. True), mv_publish = (\<lambda>_ _ _. True), mv_open = (\<lambda>_ _. True),
      mv_device = (\<lambda>_ _. memory_reader demo_memory)\<rparr>"

definition demo_started :: modbus_service where
  "demo_started = fst (modbus_Run demo_modbus new_modbus_service)"

lemma demo_fair: "fair_order demo_modbus"
  by (simp add: fair_order_def demo_modbus_def)

lemma demo_honest: "honest_devices demo_modbus (\<lambda>_ _. demo_memory)"
  by (simp add: honest_devices_def demo_modbus_def honest_memory_reader)

lemma demo_accepts: "publisher_accepts demo_modbus"
  by (simp add: publisher_accepts_def demo_modbus_def)

lemma demo_reachable: "modbus_reachable demo_modbus demo_started"
  unfolding demo_started_def by (rule modbus_Run_reachable) (rule modbus_new)

lemma demo_sound: "modbus_sound demo_modbus demo_started"
  by (rule modbus_reachable_sound [OF demo_fair demo_reachable])

definition demo_link :: connection where
  "demo_link =
     \<lparr>mc_url = ''tcp://one'', mc_unit_id = 1, mc_byte_order = OrderBig, mc_word_order = OrderLittle,
      mc_timeout = 1000000000, mc_poll_interval = 250000000\<rparr>"

definition demo_point :: "string \<Rightarrow> bool \<Rightarrow> register \<Rightarrow> u16 \<Rightarrow> encoding \<Rightarrow> hw_type \<Rightarrow> poll_point" where
  "demo_point s c r a e ty =
     \<lparr>pp_subject = s,
      pp_point = \<lparr>pt_connection_subject = ''L.config'', pt_url = ''tcp://one'', pt_unit_id = 1,
        pt_register = r, pt_address = a, pt_encoding = e, pt_byte_order = OrderBig,
        pt_word_order = OrderLittle, pt_timeout = 1000000000, pt_poll_interval = 250000000,
        pt_value_type = ty\<rparr>,
      pp_publish_on_change = c\<rparr>"

definition demo_points :: "poll_point list" where
  "demo_points =
     [demo_point ''S'' True RegisterHoldingRegister 10 EncodingInt16 HwInt64,
      demo_point ''T'' False RegisterHoldingRegister 11 EncodingUint32 HwInt64,
      demo_point ''D'' True RegisterCoil 3 EncodingBool HwBool]"

text \<open>For evaluation, the bound of \<open>ParsePoint\<close> is computed over the integers.\<close>

lemma beyond_registers: "2 ^ 16 < unat a + unat b \<longleftrightarrow> 65536 < uint a + uint (b :: u16)" for a :: u16
proof -
  have "2 ^ 16 < unat a + unat b \<longleftrightarrow> int 65536 < int (unat a + unat b)"
    by (simp only: of_nat_less_iff) simp
  then show ?thesis by (simp only: uint_nat of_nat_add of_nat_numeral)
qed

lemmas ParsePoint_code [code] = ParsePoint_def [unfolded beyond_registers]

lemma demo_worker:
  "map_of (ms_workers demo_started) ''L.config'' = Some \<lparr>wk_connection = demo_link, wk_points = demo_points\<rparr>"
  by code_simp

lemma demo_turn:
  "ms_outbox (modbus_handle demo_modbus (TimerFired ''L.config'') demo_started) =
     [(''T'', HInt 404297239), (''S'', HInt (-235)), (''D'', HBool True)]"
  by code_simp

lemma demo_values:
  "map (\<lambda>p. point_value demo_memory (pp_point p)) demo_points = [HInt (-235), HInt 404297239, HBool True]"
  by code_simp

lemma demo_groups: "map (map pp_subject \<circ> pg_points) (groupPoints demo_points) = [[''D''], [''S'', ''T'']]"
  by code_simp

text \<open>Between the two critical sections of a changed connection, the old worker takes a turn.\<close>

definition demo_old_turn :: modbus_service where
  "demo_old_turn =
     (case usable_connection demo_modbus ''new'' of
        None \<Rightarrow> demo_started
      | Some c \<Rightarrow>
          restartConnection demo_modbus ''L.config''
            (poll demo_modbus ''L.config'' demo_link demo_points (installConnection ''L.config'' c demo_started)))"

end
