(* ===== verification/Modbus_Properties.thy ===== *)
theory Modbus_Properties
  imports Modbus_Scenarios
begin

text \<open>
  The properties of the Modbus packages: the descriptors, the packing of points into requests, the
  decoding of registers, and the service, each with a witness where it has hypotheses.
\<close>

section \<open>Service\<close>



text \<open>Whatever arrives in whatever order, the entry of a subject in the tables is decided by the
  descriptor of that subject that was handled last: it is the parsed descriptor, or nothing when that
  descriptor is invalid, disabled or of another driver.\<close>

theorem latest_descriptor_wins:
  assumes "fair_order env" and "modbus_reachable env sv"
  shows "map_of (ms_connections (fold (modbus_handle env) evs sv)) s =
      (case latest connection_arrived s evs of
         None \<Rightarrow> map_of (ms_connections sv) s | Some raw \<Rightarrow> usable_connection env raw) \<and>
    map_of (ms_points (fold (modbus_handle env) evs sv)) s =
      (case latest address_arrived s evs of
         None \<Rightarrow> map_of (ms_points sv) s | Some raw \<Rightarrow> accepted_point env raw)"
proof -
  note sound = modbus_reachable_sound [OF assms]
  have "connection_table.faithful env sv" "point_table.faithful env sv"
    using soundD(2,3) [OF sound] by (auto simp: connection_table.faithful_def point_table.faithful_def)
  then show ?thesis
    by (simp add: connection_table.table_history point_table.table_history)
qed

theorem latest_descriptor_wins_witness:
  "map_of (ms_connections (fold (modbus_handle demo_modbus)
       [ConnectionArrived ''L.config'' ''new'', AddressArrived ''S.address'' ''x'',
        ConnectionArrived ''L.config'' ''bad''] demo_started)) ''L.config'' = None"
proof -
  have "usable_connection demo_modbus ''bad'' = None" by code_simp
  then show ?thesis
    using latest_descriptor_wins [OF demo_fair demo_reachable, of "[ConnectionArrived ''L.config'' ''new'',
        AddressArrived ''S.address'' ''x'', ConnectionArrived ''L.config'' ''bad'']" "''L.config''"]
    by (simp add: connection_arrived_def)
qed



text \<open>C16. One turn of a worker against a device that answers from a memory for some groups and fails
  for the others publishes, in the order of the groups, every point of an answered group exactly once
  with its value, except the points that publish on change and whose value is the remembered one. A
  failing group stops none of the others.\<close>

theorem turn_publishes_what_is_due:
  assumes "modbus_sound env sv" and "map_of (ms_workers sv) s = Some w" and "publisher_accepts env"
    and "\<forall>g\<in>set (groupPoints (wk_points w)). group_answers env (wk_connection w) m failing g"
  shows "ms_outbox (modbus_handle env (TimerFired s) sv) =
    rev (map (\<lambda>p. (pp_subject p, point_value m (pp_point p)))
      (filter (\<lambda>p. \<not> (pp_publish_on_change p \<and> sameAsLast (pp_subject p) (point_value m (pp_point p)) sv))
        (concat (map pg_points (filter (\<lambda>g. g \<notin> failing) (groupPoints (wk_points w))))))) @ ms_outbox sv"
  using turn_announces [OF assms] assms(2)
  by (simp add: announces_def entries_def due_def modbus_handle_def cong: filter_cong)

lemma demo_answers:
  "\<forall>g\<in>set (groupPoints demo_points). group_answers demo_modbus c demo_memory {} g"
proof -
  have valid: "\<forall>p\<in>set demo_points. valid_point (pp_point p)"
    using worker_points [OF demo_sound demo_worker] by auto
  have "readGroup (memory_reader demo_memory) g = Inr (group_values demo_memory g)"
    if "g \<in> set (groupPoints demo_points)" for g
    using readGroup_readable [OF groups_readable [OF valid that] serves_memory_reader]
    by (simp add: group_values_def)
  then show ?thesis by (simp add: group_answers_def demo_modbus_def)
qed

theorem turn_publishes_what_is_due_witness:
  "rev (map (\<lambda>p. (pp_subject p, point_value demo_memory (pp_point p)))
     (filter (\<lambda>p. \<not> (pp_publish_on_change p \<and>
          sameAsLast (pp_subject p) (point_value demo_memory (pp_point p)) demo_started))
       (concat (map pg_points (groupPoints demo_points))))) @ ms_outbox demo_started =
   [(''T'', HInt 404297239), (''S'', HInt (-235)), (''D'', HBool True)]"
  using turn_publishes_what_is_due [OF demo_sound demo_worker demo_accepts, of demo_memory "{}"] demo_answers
    demo_turn by simp

text \<open>When the values have not changed, the next turn publishes nothing for the points that publish
  on change, except a NaN, which Go's comparison never finds equal to the remembered one.\<close>

theorem unchanged_values_are_silent:
  assumes "fair_order env" and "modbus_sound env sv" and "map_of (ms_workers sv) s = Some w"
    and "publisher_accepts env"
    and "\<forall>g\<in>set (groupPoints (wk_points w)). group_answers env (wk_connection w) m failing g"
  shows "let sv1 = modbus_handle env (TimerFired s) sv; sv2 = modbus_handle env (TimerFired s) sv1
    in \<exists>new. ms_outbox sv2 = new @ ms_outbox sv1 \<and>
      (\<forall>(t, v)\<in>set new. \<exists>p\<in>set (wk_points w). pp_subject p = t \<and>
         (\<not> pp_publish_on_change p \<or> (\<exists>x. v = HFloat x \<and> f64_nan x)))"
proof -
  let ?sv1 = "poll env s (wk_connection w) (wk_points w) sv"
  let ?gs = "groupPoints (wk_points w)"
  let ?ps = "concat (map pg_points (filter (\<lambda>g. g \<notin> failing) ?gs))"
  have w1: "map_of (ms_workers ?sv1) s = Some w"
    using static_poll [of env s "wk_connection w" "wk_points w" sv] assms(3) by (simp add: modbus_static_def)
  have "distinct (map pp_subject (wk_points w))" using worker_points [OF assms(2,3)] by blast
  then have distinct: "distinct (map pp_subject ?ps)"
    by (intro distinct_concat_filter distinct_groups)
  have subset: "set ?ps \<subseteq> set (wk_points w)"
    using groupPoints_facts(2) [of "wk_points w", THEN mset_eq_setD] by auto
  have second: "announces m ?sv1 ?ps (poll env s (wk_connection w) (wk_points w) ?sv1)"
    by (rule turn_announces [OF poll_effect [OF assms(2,3)] w1 assms(4,5)])
  have again: "\<not> pp_publish_on_change p \<or> (\<exists>x. point_value m (pp_point p) = HFloat x \<and> f64_nan x)"
    if "p \<in> set ?ps" "due m ?sv1 p" for p
    using due_again [OF turn_announces [OF assms(2-5)] distinct that(1)] that(2)
    by (cases "point_value m (pp_point p)") (auto simp: f64_eq_def)
  have "\<forall>(t, v)\<in>set (rev (entries m ?sv1 ?ps)). \<exists>p\<in>set (wk_points w). pp_subject p = t \<and>
      (\<not> pp_publish_on_change p \<or> (\<exists>x. v = HFloat x \<and> f64_nan x))"
    using again subset by (fastforce simp: entries_def)
  moreover have "modbus_handle env (TimerFired s) sv = ?sv1"
    "modbus_handle env (TimerFired s) ?sv1 = poll env s (wk_connection w) (wk_points w) ?sv1"
    using assms(3) w1 by (simp_all add: modbus_handle_def)
  moreover have "ms_outbox (poll env s (wk_connection w) (wk_points w) ?sv1) =
      rev (entries m ?sv1 ?ps) @ ms_outbox ?sv1"
    using second by (simp only: announces_def)
  ultimately show ?thesis
    unfolding Let_def by (intro exI [of _ "rev (entries m ?sv1 ?ps)"]) simp
qed

theorem unchanged_values_are_silent_witness:
  "let sv1 = modbus_handle demo_modbus (TimerFired ''L.config'') demo_started;
       sv2 = modbus_handle demo_modbus (TimerFired ''L.config'') sv1
   in \<exists>new. ms_outbox sv2 = new @ ms_outbox sv1 \<and>
      (''S'', HInt (-235)) \<notin> set new \<and> (''D'', HBool True) \<notin> set new"
proof -
  let ?sv1 = "modbus_handle demo_modbus (TimerFired ''L.config'') demo_started"
  obtain new where "ms_outbox (modbus_handle demo_modbus (TimerFired ''L.config'') ?sv1) = new @ ms_outbox ?sv1"
    and new: "\<forall>(t, v)\<in>set new. \<exists>p\<in>set demo_points. pp_subject p = t \<and>
      (\<not> pp_publish_on_change p \<or> (\<exists>x. v = HFloat x \<and> f64_nan x))"
    using unchanged_values_are_silent [OF demo_fair demo_sound demo_worker demo_accepts, of demo_memory "{}"]
      demo_answers by (auto simp: Let_def)
  moreover have "(''S'', HInt (-235)) \<notin> set new" "(''D'', HBool True) \<notin> set new"
    using new by (force simp: demo_points_def demo_point_def)+
  ultimately show ?thesis by (auto simp: Let_def)
qed


section \<open>Requests\<close>

text \<open>C18. Grouping sends every point in exactly one request; a request asks for registers of one table,
  not more than the protocol allows, that contain all registers of its points, and starts at the first
  of them; the 16 and 32 bit arithmetic does not wrap.\<close>

theorem groups_are_requests:
  "mset (concat (map pg_points (groupPoints points))) = mset points \<and>
   (\<forall>g\<in>set (groupPoints points). pg_points g \<noteq> [] \<and>
      unat (pg_quantity g) \<le> unat (maxQuantity (pg_register g)) \<and>
      unat (pg_address g) = first_register (hd (pg_points g)) \<and>
      (\<forall>p\<in>set (pg_points g). pt_register (pp_point p) = pg_register g \<and>
         unat (pg_address g) \<le> unat (pt_address (pp_point p)) \<and>
         unat (pt_address (pp_point p)) + unat (registerCount (pt_encoding (pp_point p))) \<le>
           unat (pg_address g) + unat (pg_quantity g)))"
  using groupPoints_facts(1,2) [of points]
  by (auto simp: group_ok_def group_end_def group_first_def request_limit_def point_register_def
      first_register_def end_register_def)

theorem groups_are_requests_witness:
  "mset (concat (map pg_points (groupPoints demo_points))) = mset demo_points \<and>
   unat (pg_quantity (hd (groupPoints demo_points))) \<le> unat (maxQuantity (pg_register (hd (groupPoints demo_points))))"
proof -
  have "hd (groupPoints demo_points) \<in> set (groupPoints demo_points)"
    using demo_groups by (intro hd_in_set) auto
  then show ?thesis using groups_are_requests [of demo_points] by blast
qed

text \<open>C19. No set of requests that the protocol allows covers the points with fewer requests.\<close>

theorem groups_are_fewest:
  assumes "\<forall>ps\<in>set requests. request_for ps" and "set points \<subseteq> \<Union> (set ` set requests)"
  shows "length (groupPoints points) \<le> length requests"
  using assms by (rule groupPoints_fewest)

theorem groups_are_fewest_witness: "length (groupPoints demo_points) \<le> 2"
proof -
  have "request_for (take 2 demo_points)"
    unfolding request_for_def
    by (intro exI [of _ RegisterHoldingRegister] exI [of _ 10] exI [of _ 3])
      (simp add: demo_points_def demo_point_def request_limit_def maxQuantity_def maxRegisterQuantity_def
        point_register_def first_register_def end_register_def registerCount_def)
  moreover have "request_for (drop 2 demo_points)"
    unfolding request_for_def
    by (intro exI [of _ RegisterCoil] exI [of _ 3] exI [of _ 1])
      (simp add: demo_points_def demo_point_def request_limit_def maxQuantity_def maxBitQuantity_def
        point_register_def first_register_def end_register_def registerCount_def)
  ultimately show ?thesis
    using groups_are_fewest [of "[take 2 demo_points, drop 2 demo_points]" demo_points]
    by (simp add: demo_points_def)
qed

text \<open>C20. From a device that answers from its memory, reading the groups of valid points returns for
  every point what reading that point alone returns.\<close>

theorem group_read_equals_single_reads:
  assumes "\<forall>p\<in>set points. valid_point (pp_point p)" and "g \<in> set (groupPoints points)"
    and "serves rd m"
  shows "\<exists>vs. readGroup rd g = Inr vs \<and> length vs = length (pg_points g) \<and>
    (\<forall>i<length vs. readValue rd (pp_point (pg_points g ! i)) = Inr (vs ! i))"
proof -
  have g: "readable_group g" by (rule groups_readable [OF assms(1,2)])
  then have "\<forall>p\<in>set (pg_points g). valid_point (pp_point p)" by (simp add: readable_group_def)
  then have "readValue rd (pp_point (pg_points g ! i)) = Inr (point_value m (pp_point (pg_points g ! i)))"
    if "i < length (pg_points g)" for i
    using readValue_valid [OF _ assms(3)] that by simp
  with readGroup_readable [OF g assms(3)] show ?thesis by simp
qed

theorem group_read_equals_single_reads_witness:
  "\<exists>v. readGroup (memory_reader demo_memory) (hd (groupPoints demo_points)) = Inr [v] \<and>
     readValue (memory_reader demo_memory) (pp_point (hd (pg_points (hd (groupPoints demo_points))))) = Inr v"
proof -
  let ?g = "hd (groupPoints demo_points)"
  have "\<forall>p\<in>set demo_points. valid_point (pp_point p)"
    using worker_points [OF demo_sound demo_worker] by auto
  moreover have "?g \<in> set (groupPoints demo_points)" using demo_groups by (intro hd_in_set) auto
  ultimately obtain vs where vs: "readGroup (memory_reader demo_memory) ?g = Inr vs" "length vs = length (pg_points ?g)"
    "\<forall>i<length vs. readValue (memory_reader demo_memory) (pp_point (pg_points ?g ! i)) = Inr (vs ! i)"
    using group_read_equals_single_reads [OF _ _ serves_memory_reader] by blast
  have "length (pg_points ?g) = 1"
    using demo_groups by (cases "groupPoints demo_points") (auto simp: map_eq_Cons_conv)
  then obtain v p where "vs = [v]" "pg_points ?g = [p]"
    using vs(2) by (metis One_nat_def length_0_conv length_Suc_conv)
  then show ?thesis using vs by simp
qed

section \<open>Decoding\<close>

text \<open>Decoding accepts the registers of a valid register point exactly when their number is the
  encoding's, and then returns a value of the point's type within the encoding's range.\<close>

theorem registers_decode_in_range:
  assumes "valid_point p" and "pt_register p \<notin> {RegisterCoil, RegisterDiscreteInput}"
  shows "((\<exists>v. decodeRegisters raw p = Inr v) \<longleftrightarrow>
      length raw = 2 * unat (registerCount (pt_encoding p))) \<and>
    (\<forall>v. decodeRegisters raw p = Inr v \<longrightarrow> in_range (pt_encoding p) v)"
proof -
  have "(\<exists>v. decodeRegisters raw p = Inr v) \<longleftrightarrow> length raw = 2 * unat (registerCount (pt_encoding p))"
    using decodeRegisters_valid [of p raw] assms
    by (auto simp: ok_iff) (auto simp: decodeRegisters_def Let_def split: if_splits)
  then show ?thesis using decodeRegisters_range by blast
qed

theorem registers_decode_in_range_witness:
  "in_range EncodingInt16 (HInt (-235)) \<and> (\<exists>v. decodeRegisters [255, 21] (pp_point (hd demo_points)) = Inr v)"
proof -
  let ?p = "pp_point (hd demo_points)"
  have p: "valid_point ?p"
    using worker_points [OF demo_sound demo_worker] by (auto simp: demo_points_def)
  have r: "pt_register ?p \<notin> {RegisterCoil, RegisterDiscreteInput}" "pt_encoding ?p = EncodingInt16"
    by (simp_all add: demo_points_def demo_point_def)
  have "decodeRegisters [255, 21] ?p = Inr (HInt (-235))" by code_simp
  then show ?thesis
    using registers_decode_in_range [OF p r(1), of "[255, 21]"] r(2) by auto
qed

section \<open>Descriptors\<close>

lemma checkRegister_ok:
  "ok (checkRegister r e) \<longleftrightarrow>
     r \<in> {RegisterCoil, RegisterDiscreteInput} \<and> e = EncodingBool \<or>
     r \<in> {RegisterInputRegister, RegisterHoldingRegister} \<and>
       e \<in> {EncodingInt16, EncodingUint16, EncodingInt32, EncodingUint32, EncodingFloat32, EncodingFloat64}"
  by (cases r; cases e; simp add: checkRegister_def)

text \<open>A Modbus point is accepted exactly when its driver is this one, its configuration decodes, its
  table supports its encoding, the encoding produces the promised type and its registers exist.\<close>

theorem point_accepted_exactly:
  "(\<exists>p. ParsePoint cd d conn = Inr p) \<longleftrightarrow>
     ds_driver d = ''modbus'' \<and>
     (\<exists>c. mb_address_config cd (ds_config d) = Some c \<and>
        (ac_register c \<in> {RegisterCoil, RegisterDiscreteInput} \<and> ac_encoding c = EncodingBool \<or>
         ac_register c \<in> {RegisterInputRegister, RegisterHoldingRegister} \<and>
           ac_encoding c \<in> {EncodingInt16, EncodingUint16, EncodingInt32, EncodingUint32,
             EncodingFloat32, EncodingFloat64}) \<and>
        ds_value_type d = valueTypeForEncoding (ac_encoding c) \<and>
        unat (ac_address c) + unat (registerCount (ac_encoding c)) \<le> 65536)"
  unfolding ok_iff [symmetric]
  by (cases "mb_address_config cd (ds_config d)")
    (auto simp: ParsePoint_def decodeConfig_def Let_def checkRegister_ok)

end
