(* ===== verification/Retain_Store.thy ===== *)
theory Retain_Store
  imports Assoc_Lists
begin

text \<open>
  \<open>retain/store.go\<close>: the last value of every subject, kept in memory and written to SQLite in the
  background. Go maps are association lists with distinct keys, and a \<open>[]byte\<close> is an optional list
  (\<open>None\<close> is nil). The database is a table and the record \<open>retain_db\<close>, which says, by the number of
  calls made so far, whether a call succeeds; a commit that fails may still have been applied. The
  flush loop takes the dirty values in one critical section and writes them outside of it, so a batch
  may be in flight while values are put: the two halves of \<open>flushDirty\<close> are definitions of their own.
\<close>

type_synonym payload = "8 word slice"

definition payload_bytes :: "payload \<Rightarrow> 8 word list" where
  "payload_bytes p = slice_list p"

text \<open>\<open>append([]byte(nil), payload...)\<close>\<close>

definition copied :: "payload \<Rightarrow> payload" where
  "copied p = append_nil (slice_list p)"

datatype commit_result = Committed | CommitFailed bool

text \<open>The argument of \<open>CommitFailed\<close>: whether the changes reached the file nevertheless.\<close>

record retain_db =
  db_prepare_dir :: bool
  db_connect :: bool
  db_pragma :: "string \<Rightarrow> bool"
  db_create_table :: bool
  db_query :: bool
  db_scan :: "string \<Rightarrow> bool"
  db_rows_end :: bool
  db_begin :: "nat \<Rightarrow> bool"
  db_prepare :: "nat \<Rightarrow> bool"
  db_insert :: "nat \<Rightarrow> string \<Rightarrow> payload \<Rightarrow> bool"
  db_close_statement :: "nat \<Rightarrow> bool"
  db_commit :: "nat \<Rightarrow> commit_result"
  db_now :: "nat \<Rightarrow> int"
  db_close :: bool

record store =
  rs_values :: "(string \<times> payload) list"
  rs_dirty :: "(string \<times> payload) list"
  rs_batch :: "(string \<times> payload) list"
  rs_table :: "(string \<times> payload \<times> int) list"
  rs_closed :: bool
  rs_calls :: nat

section \<open>Opening\<close>

fun load_rows :: "retain_db \<Rightarrow> (string \<times> payload \<times> int) list \<Rightarrow> (string \<times> payload) list \<Rightarrow>
    go_error + (string \<times> payload) list" where
  "load_rows db [] vs = (if db_rows_end db then Inr vs else Inl (errors_new ''load retain values''))"
| "load_rows db ((subject, p, updated) # rows) vs =
     (if db_scan db subject then load_rows db rows (AList.update subject (copied p) vs)
      else Inl (errors_new ''scan retain value''))"

definition load_store :: "retain_db \<Rightarrow> (string \<times> payload \<times> int) list \<Rightarrow> go_error + (string \<times> payload) list" where
  "load_store db rows =
     (if db_query db then load_rows db rows [] else Inl (errors_new ''load retain values''))"

definition retain_pragmas :: "string list" where
  "retain_pragmas = [''PRAGMA journal_mode=WAL'', ''PRAGMA busy_timeout=5000'', ''PRAGMA synchronous=NORMAL'']"

text \<open>\<open>rows\<close> is the table of the file.\<close>

definition open_store :: "retain_db \<Rightarrow> (string \<times> payload \<times> int) list \<Rightarrow> go_error + store" where
  "open_store db rows =
     (if \<not> db_prepare_dir db then Inl (errors_new ''create retain database directory'')
      else if \<not> db_connect db then Inl (errors_new ''open retain database'')
      else if \<not> list_all (db_pragma db) retain_pragmas then Inl (errors_new ''configure retain database'')
      else if \<not> db_create_table db then Inl (errors_new ''create retain table'')
      else (case load_store db rows of
              Inl e \<Rightarrow> Inl e
            | Inr vs \<Rightarrow>
                Inr \<lparr>rs_values = vs, rs_dirty = [], rs_batch = [], rs_table = rows, rs_closed = False,
                     rs_calls = 0\<rparr>))"

section \<open>Values\<close>

definition Put :: "string \<Rightarrow> payload \<Rightarrow> store \<Rightarrow> store" where
  "Put subject p st =
     (if subject = [] then st
      else st\<lparr>rs_values := AList.update subject (copied p) (rs_values st),
              rs_dirty := AList.update subject (copied p) (rs_dirty st)\<rparr>)"

definition Get :: "string \<Rightarrow> store \<Rightarrow> payload option" where
  "Get subject st = map_option copied (map_of (rs_values st) subject)"

definition Subjects :: "store \<Rightarrow> string list" where
  "Subjects st = map fst (rs_values st)"

section \<open>Flushing\<close>

text \<open>The values of a failed batch are dirty again, unless newer ones are.\<close>

fun requeue_rows :: "(string \<times> payload) list \<Rightarrow> (string \<times> payload) list \<Rightarrow> (string \<times> payload) list" where
  "requeue_rows [] dirty = dirty"
| "requeue_rows ((subject, p) # rows) dirty =
     requeue_rows rows (if map_of dirty subject = None then AList.update subject p dirty else dirty)"

definition requeue :: "store \<Rightarrow> store" where
  "requeue st = st\<lparr>rs_dirty := requeue_rows (rs_batch st) (rs_dirty st), rs_batch := []\<rparr>"

definition takeDirty :: "store \<Rightarrow> store" where
  "takeDirty st = st\<lparr>rs_batch := rs_dirty st, rs_dirty := []\<rparr>"

fun insert_rows :: "retain_db \<Rightarrow> nat \<Rightarrow> (string \<times> payload) list \<Rightarrow> bool" where
  "insert_rows db n [] = True"
| "insert_rows db n ((subject, p) # rows) = (db_insert db n subject p \<and> insert_rows db n rows)"

fun replace_rows :: "int \<Rightarrow> (string \<times> payload) list \<Rightarrow> (string \<times> payload \<times> int) list \<Rightarrow>
    (string \<times> payload \<times> int) list" where
  "replace_rows now [] tab = tab"
| "replace_rows now ((subject, p) # rows) tab = replace_rows now rows (AList.update subject (p, now) tab)"

text \<open>The transaction: \<open>rows\<close> is the batch in the order of Go's loop over the map.\<close>

definition writeBatch :: "retain_db \<Rightarrow> store \<Rightarrow> store" where
  "writeBatch db st =
     (let n = rs_calls st;
          st1 = st\<lparr>rs_calls := Suc n\<rparr>;
          written = st1\<lparr>rs_table := replace_rows (db_now db n) (rs_batch st) (rs_table st)\<rparr>
      in if \<not> db_begin db n then requeue st1
         else if \<not> db_prepare db n then requeue st1
         else if \<not> insert_rows db n (rs_batch st) then requeue st1
         else if \<not> db_close_statement db n then requeue st1
         else (case db_commit db n of
                 Committed \<Rightarrow> written\<lparr>rs_batch := []\<rparr>
               | CommitFailed applied \<Rightarrow> requeue (if applied then written else st1)))"

definition flushDirty :: "retain_db \<Rightarrow> store \<Rightarrow> store" where
  "flushDirty db st = (if rs_dirty st = [] then st else writeBatch db (takeDirty st))"

text \<open>The flush loop flushes twice when the store is closed; a second close does nothing.\<close>

definition close_store :: "retain_db \<Rightarrow> store \<Rightarrow> store \<times> bool" where
  "close_store db st =
     (if rs_closed st then (st, True)
      else ((flushDirty db (flushDirty db st))\<lparr>rs_closed := True\<rparr>, db_close db))"

section \<open>Steps\<close>

text \<open>Putting, the two halves of a flush, and closing when no flush is under way.\<close>

datatype store_event = PutValue string payload | FlushTakes | FlushWrites | StoreCloses

definition store_step :: "retain_db \<Rightarrow> store_event \<Rightarrow> store \<Rightarrow> store" where
  "store_step db ev st =
     (case ev of
        PutValue subject p \<Rightarrow> Put subject p st
      | FlushTakes \<Rightarrow> if rs_closed st \<or> rs_batch st \<noteq> [] then st else takeDirty st
      | FlushWrites \<Rightarrow> if rs_batch st = [] then st else writeBatch db st
      | StoreCloses \<Rightarrow> if rs_batch st \<noteq> [] then st else fst (close_store db st))"

inductive store_reachable :: "retain_db \<Rightarrow> store \<Rightarrow> bool" for db where
  store_opened: "open_store db rows = Inr st \<Longrightarrow> distinct (map fst rows) \<Longrightarrow> store_reachable db st"
| store_stepped: "store_reachable db st \<Longrightarrow> store_reachable db (store_step db ev st)"

inductive_cases store_reachableE: "store_reachable db st"

section \<open>Refinement of a map\<close>

lemma copied_idem [simp]: "copied (copied p) = copied p"
  by (simp add: copied_def)

lemma payload_bytes_copied [simp]: "payload_bytes (copied p) = payload_bytes p"
  by (simp add: copied_def payload_bytes_def)

text \<open>What the table says, and what a reopened store would hold once everything pending is written.\<close>

definition table_values :: "store \<Rightarrow> string \<Rightarrow> payload option" where
  "table_values st = (\<lambda>s. map_option (copied \<circ> fst) (map_of (rs_table st) s))"

definition durable :: "store \<Rightarrow> string \<Rightarrow> payload option" where
  "durable st = table_values st ++ map_of (rs_batch st) ++ map_of (rs_dirty st)"

definition clean_rows :: "(string \<times> payload) list \<Rightarrow> bool" where
  "clean_rows rows \<longleftrightarrow> distinct (map fst rows) \<and> (\<forall>(s, p)\<in>set rows. copied p = p)"

definition store_inv :: "store \<Rightarrow> bool" where
  "store_inv st \<longleftrightarrow>
     distinct (map fst (rs_values st)) \<and> clean_rows (rs_dirty st) \<and> clean_rows (rs_batch st) \<and>
     map_of (rs_values st) = durable st"

lemma clean_update: "clean_rows rows \<Longrightarrow> copied p = p \<Longrightarrow> clean_rows (AList.update s p rows)"
  using set_update_subset [of s p rows] by (auto simp: clean_rows_def)

lemma clean_rows_Nil [simp]: "clean_rows []"
  by (simp add: clean_rows_def)

lemma requeue_rows_lookup:
  "map_of (requeue_rows rows dirty) x =
     (case map_of dirty x of None \<Rightarrow> map_of rows x | Some p \<Rightarrow> Some p)"
  by (induction rows dirty rule: requeue_rows.induct) (simp_all split: option.split)

lemma requeue_rows_map: "map_of (requeue_rows rows dirty) = map_of rows ++ map_of dirty"
  by (rule ext) (simp add: requeue_rows_lookup map_add_def)

lemma requeue_rows_clean: "clean_rows rows \<Longrightarrow> clean_rows dirty \<Longrightarrow> clean_rows (requeue_rows rows dirty)"
proof (induction rows dirty rule: requeue_rows.induct)
  case (2 s p rows dirty)
  from "2.prems"(1) have "clean_rows rows" "copied p = p" by (simp_all add: clean_rows_def)
  with "2.IH" "2.prems"(2) show ?case by (simp add: clean_update)
qed simp

lemma replace_rows_lookup:
  "distinct (map fst rows) \<Longrightarrow>
     map_of (replace_rows now rows tab) x =
       (case map_of rows x of None \<Rightarrow> map_of tab x | Some p \<Rightarrow> Some (p, now))"
proof (induction now rows tab rule: replace_rows.induct)
  case (2 now s p rows tab)
  then have "map_of rows s = None" by (simp add: map_of_eq_None_iff)
  with 2 show ?case by (simp split: option.split)
qed simp

lemma clean_map: "clean_rows rows \<Longrightarrow> map_of rows s = Some p \<Longrightarrow> copied p = p"
  by (auto simp: clean_rows_def dest: map_of_SomeD)

lemma store_inv_requeue:
  assumes "store_inv st"
  shows "store_inv (requeue st)" and "rs_values (requeue st) = rs_values st"
    and "rs_table (requeue st) = rs_table st"
  using assms requeue_rows_clean [of "rs_batch st" "rs_dirty st"] requeue_rows_map [of "rs_batch st" "rs_dirty st"]
  by (simp_all add: store_inv_def requeue_def durable_def table_values_def clean_rows_def map_add_assoc)

lemma store_inv_written:
  assumes inv: "store_inv st"
  shows "store_inv (st\<lparr>rs_calls := n, rs_table := replace_rows now (rs_batch st) (rs_table st)\<rparr>)"
    and "store_inv (st\<lparr>rs_calls := n, rs_table := replace_rows now (rs_batch st) (rs_table st), rs_batch := []\<rparr>)"
proof -
  have batch: "clean_rows (rs_batch st)" using inv by (simp add: store_inv_def)
  have "map_option (copied \<circ> fst) (map_of (replace_rows now (rs_batch st) (rs_table st)) s) =
      (table_values st ++ map_of (rs_batch st)) s" for s
    using clean_map [OF batch, of s] batch
    by (simp add: replace_rows_lookup clean_rows_def table_values_def map_add_def split: option.split)
  then have tab: "(\<lambda>s. map_option (copied \<circ> fst) (map_of (replace_rows now (rs_batch st) (rs_table st)) s)) =
      table_values st ++ map_of (rs_batch st)"
    by (rule ext)
  have twice: "table_values st ++ map_of (rs_batch st) ++ map_of (rs_batch st) = table_values st ++ map_of (rs_batch st)"
    by (rule ext) (simp add: map_add_def split: option.split)
  show "store_inv (st\<lparr>rs_calls := n, rs_table := replace_rows now (rs_batch st) (rs_table st)\<rparr>)"
    "store_inv (st\<lparr>rs_calls := n, rs_table := replace_rows now (rs_batch st) (rs_table st), rs_batch := []\<rparr>)"
    using inv twice by (simp_all add: store_inv_def durable_def table_values_def [of "_\<lparr>rs_calls := _, rs_table := _\<rparr>"]
        table_values_def [of "_\<lparr>rs_calls := _, rs_table := _, rs_batch := _\<rparr>"] tab)
qed

lemma store_inv_calls [simp]: "store_inv (st\<lparr>rs_calls := n\<rparr>) = store_inv st"
  by (simp add: store_inv_def durable_def table_values_def)

lemma store_inv_closed [simp]: "store_inv (st\<lparr>rs_closed := b\<rparr>) = store_inv st"
  by (simp add: store_inv_def durable_def table_values_def)

text \<open>A flush leaves the values alone: to a reader it is invisible.\<close>

lemma writeBatch_inv:
  assumes "store_inv st"
  shows "store_inv (writeBatch db st)" and "rs_values (writeBatch db st) = rs_values st"
    and "rs_closed (writeBatch db st) = rs_closed st" and "rs_batch (writeBatch db st) = []"
proof -
  let ?st1 = "st\<lparr>rs_calls := Suc (rs_calls st)\<rparr>"
  let ?written = "st\<lparr>rs_calls := Suc (rs_calls st),
    rs_table := replace_rows (db_now db (rs_calls st)) (rs_batch st) (rs_table st)\<rparr>"
  have requeued: "store_inv (requeue ?st1)" "store_inv (requeue ?written)"
    using store_inv_requeue(1) store_inv_written(1) [OF assms] assms by simp_all
  note written = store_inv_written(2) [OF assms]
  show "store_inv (writeBatch db st)"
    using requeued written by (auto simp: writeBatch_def Let_def split: commit_result.split)
  show "rs_values (writeBatch db st) = rs_values st" "rs_closed (writeBatch db st) = rs_closed st"
    "rs_batch (writeBatch db st) = []"
    by (auto simp: writeBatch_def requeue_def Let_def split: commit_result.split)
qed

lemma takeDirty_inv: "store_inv st \<Longrightarrow> rs_batch st = [] \<Longrightarrow> store_inv (takeDirty st)"
  by (simp add: store_inv_def takeDirty_def durable_def table_values_def)

lemma flushDirty_inv:
  assumes "store_inv st" and "rs_batch st = []"
  shows "store_inv (flushDirty db st)" and "rs_values (flushDirty db st) = rs_values st"
    and "rs_closed (flushDirty db st) = rs_closed st" and "rs_batch (flushDirty db st) = []"
  using assms writeBatch_inv [OF takeDirty_inv [OF assms], of db]
  by (simp_all add: flushDirty_def) (simp_all add: takeDirty_def)

lemma Put_inv: "store_inv st \<Longrightarrow> store_inv (Put s p st)"
proof -
  assume inv: "store_inv st"
  have "clean_rows (AList.update s (copied p) (rs_dirty st))"
    using inv by (simp add: store_inv_def clean_update)
  moreover have "(map_of (rs_values st))(s \<mapsto> copied p) =
      table_values st ++ map_of (rs_batch st) ++ (map_of (rs_dirty st))(s \<mapsto> copied p)"
    using inv by (simp add: store_inv_def durable_def)
  ultimately show ?thesis
    using inv by (simp add: Put_def store_inv_def durable_def table_values_def)
qed

lemma close_inv:
  assumes "store_inv st" and "rs_batch st = []"
  shows "store_inv (fst (close_store db st))" and "rs_values (fst (close_store db st)) = rs_values st"
    and "rs_batch (fst (close_store db st)) = []"
  using flushDirty_inv [OF assms, of db]
    flushDirty_inv [OF flushDirty_inv(1,4) [OF assms, of db], of db] assms
  by (simp_all add: close_store_def)

lemma store_step_inv:
  assumes "store_inv st"
  shows "store_inv (store_step db ev st)"
  using assms Put_inv takeDirty_inv writeBatch_inv(1) close_inv(1)
  by (cases ev) (simp_all add: store_step_def)

lemma load_rows_inv:
  "load_rows db rows vs = Inr vs' \<Longrightarrow> distinct (map fst vs) \<Longrightarrow> distinct (map fst rows) \<Longrightarrow>
     distinct (map fst vs') \<and>
     map_of vs' x = (case map_of rows x of None \<Rightarrow> map_of vs x | Some row \<Rightarrow> Some (copied (fst row)))"
proof (induction db rows vs rule: load_rows.induct)
  case (2 db s p t rows vs)
  have "map_of rows s = None" using "2.prems"(3) by (simp add: map_of_eq_None_iff)
  moreover have "db_scan db s" using "2.prems"(1) by (simp split: if_splits)
  ultimately show ?case using 2 by (simp split: option.split)
qed (simp split: if_splits)

lemma open_store_inv:
  assumes "open_store db rows = Inr st" and "distinct (map fst rows)"
  shows "store_inv st" and "rs_table st = rows" and "rs_batch st = []" and "rs_dirty st = []"
proof -
  obtain vs where vs: "load_rows db rows [] = Inr vs"
    "st = \<lparr>rs_values = vs, rs_dirty = [], rs_batch = [], rs_table = rows, rs_closed = False, rs_calls = 0\<rparr>"
    using assms(1) by (auto simp: open_store_def load_store_def split: if_splits sum.splits)
  have "map_of vs = (\<lambda>s. map_option (copied \<circ> fst) (map_of rows s))"
    using load_rows_inv [OF vs(1)] assms(2) by (intro ext) (simp split: option.split)
  then show "store_inv st"
    using load_rows_inv [OF vs(1)] assms(2)
    by (simp add: vs(2) store_inv_def durable_def table_values_def)
  show "rs_table st = rows" "rs_batch st = []" "rs_dirty st = []" by (simp_all add: vs(2))
qed

lemma store_reachable_inv: "store_reachable db st \<Longrightarrow> store_inv st"
  by (induction rule: store_reachable.induct) (auto intro: open_store_inv(1) store_step_inv)

section \<open>Durability\<close>

text \<open>The table, reopened.\<close>

lemma reopened:
  assumes "open_store db rows = Inr st" and "distinct (map fst rows)"
  shows "map_of (rs_values st) s = map_option (copied \<circ> fst) (map_of rows s)"
  using open_store_inv [OF assms] by (simp add: store_inv_def durable_def table_values_def)

definition db_works :: "retain_db \<Rightarrow> nat \<Rightarrow> bool" where
  "db_works db n \<longleftrightarrow>
     db_begin db n \<and> db_prepare db n \<and> (\<forall>s p. db_insert db n s p) \<and> db_close_statement db n \<and>
     db_commit db n = Committed"

lemma insert_rows_works: "(\<forall>s p. db_insert db n s p) \<Longrightarrow> insert_rows db n rows"
  by (induction rows) auto

lemma writeBatch_works: "db_works db (rs_calls st) \<Longrightarrow> rs_dirty (writeBatch db st) = rs_dirty st"
  by (simp add: writeBatch_def db_works_def insert_rows_works Let_def)

lemma flush_works:
  assumes "db_works db (rs_calls st)"
  shows "rs_dirty (flushDirty db st) = []"
  using writeBatch_works [of db "takeDirty st"] assms
  by (simp add: flushDirty_def takeDirty_def)

lemma flush_calls: "rs_dirty st \<noteq> [] \<Longrightarrow> rs_calls (flushDirty db st) = Suc (rs_calls st)"
  by (auto simp: flushDirty_def writeBatch_def takeDirty_def requeue_def Let_def split: commit_result.split)

text \<open>The keys of the table stay distinct: \<open>subject\<close> is its primary key.\<close>

lemma replace_rows_keys: "distinct (map fst tab) \<Longrightarrow> distinct (map fst (replace_rows now rows tab))"
  by (induction now rows tab rule: replace_rows.induct) simp_all

definition keys_distinct :: "store \<Rightarrow> bool" where
  "keys_distinct st \<longleftrightarrow> distinct (map fst (rs_table st))"

lemma writeBatch_keys: "keys_distinct st \<Longrightarrow> keys_distinct (writeBatch db st)"
  by (auto simp: keys_distinct_def writeBatch_def requeue_def Let_def replace_rows_keys split: commit_result.split)

lemma takeDirty_keys: "keys_distinct (takeDirty st) = keys_distinct st"
  by (simp add: keys_distinct_def takeDirty_def)

lemma flushDirty_keys: "keys_distinct st \<Longrightarrow> keys_distinct (flushDirty db st)"
  by (simp add: flushDirty_def writeBatch_keys takeDirty_keys)

lemma close_keys: "keys_distinct st \<Longrightarrow> keys_distinct (fst (close_store db st))"
  using flushDirty_keys [of _ db] by (simp add: close_store_def) (simp add: keys_distinct_def)

lemma reachable_keys: "store_reachable db st \<Longrightarrow> keys_distinct st"
proof (induction rule: store_reachable.induct)
  case (store_opened rows st)
  then show ?case using open_store_inv(2) by (simp add: keys_distinct_def)
next
  case (store_stepped st ev)
  then show ?case
    by (cases ev) (auto simp: store_step_def writeBatch_keys takeDirty_keys close_keys,
      auto simp: keys_distinct_def Put_def)
qed

lemma close_flushed:
  assumes "\<not> rs_closed st" and "db_works db (rs_calls st) \<or> db_works db (Suc (rs_calls st))"
  shows "rs_dirty (fst (close_store db st)) = []"
proof (cases "rs_dirty st = []")
  case True
  then show ?thesis using assms(1) by (simp add: close_store_def flushDirty_def)
next
  case False
  let ?one = "flushDirty db st"
  have "rs_dirty (flushDirty db ?one) = []"
    using assms(2) flush_works [of db st] flush_works [of db ?one] flush_calls [OF False, of db]
    by (cases "rs_dirty ?one = []") (auto simp: flushDirty_def)
  then show ?thesis using assms(1) by (simp add: close_store_def)
qed

lemma reopen_after_close:
  assumes "store_reachable db st" and "rs_batch st = []" and "\<not> rs_closed st"
    and "db_works db (rs_calls st) \<or> db_works db (Suc (rs_calls st))"
    and "open_store db' (rs_table (fst (close_store db st))) = Inr st'"
  shows "Get s st' = Get s st"
proof -
  let ?closed = "fst (close_store db st)"
  note inv = store_reachable_inv [OF assms(1)]
  have "rs_dirty ?closed = []" by (rule close_flushed [OF assms(3,4)])
  moreover have "store_inv ?closed" "rs_values ?closed = rs_values st" "rs_batch ?closed = []"
    using close_inv [OF inv assms(2)] by simp_all
  ultimately have "map_of (rs_values st) = table_values ?closed"
    by (simp add: store_inv_def durable_def)
  moreover have "distinct (map fst (rs_table ?closed))"
    using close_keys [OF reachable_keys [OF assms(1)]] by (simp add: keys_distinct_def)
  ultimately show ?thesis
    using reopened [OF assms(5)] by (simp add: Get_def table_values_def)
qed

section \<open>A payload without bytes\<close>

text \<open>The column is \<open>NOT NULL\<close> and a nil \<open>[]byte\<close> is bound as NULL.\<close>

definition nil_rejected :: "retain_db \<Rightarrow> bool" where
  "nil_rejected db \<longleftrightarrow> (\<forall>n s. \<not> db_insert db n s None)"

definition blocked :: "string \<Rightarrow> store \<Rightarrow> bool" where
  "blocked s st \<longleftrightarrow>
     (\<forall>p. map_of (rs_dirty st) s = Some p \<longrightarrow> p = None) \<and>
     (if rs_batch st = [] then map_of (rs_dirty st) s = Some None else map_of (rs_batch st) s = Some None)"

lemma insert_rows_nil: "nil_rejected db \<Longrightarrow> map_of rows s = Some None \<Longrightarrow> \<not> insert_rows db n rows"
  by (induction rows) (auto simp: nil_rejected_def split: if_splits)

lemma writeBatch_blocked:
  assumes "nil_rejected db" and "map_of (rs_batch st) s = Some None"
  shows "writeBatch db st = requeue (st\<lparr>rs_calls := Suc (rs_calls st)\<rparr>)"
  using insert_rows_nil [OF assms] by (simp add: writeBatch_def Let_def)

lemma blocked_requeue:
  assumes "blocked s st" and "rs_batch st \<noteq> []"
  shows "blocked s (requeue (st\<lparr>rs_calls := n\<rparr>))"
  using assms by (auto simp: blocked_def requeue_def requeue_rows_lookup split: option.split)

lemma flush_blocked:
  assumes "nil_rejected db" and "blocked s st" and "rs_batch st = []"
  shows "blocked s (flushDirty db st) \<and> rs_table (flushDirty db st) = rs_table st \<and>
    rs_batch (flushDirty db st) = []"
proof (cases "rs_dirty st = []")
  case True
  then show ?thesis using assms by (simp add: flushDirty_def)
next
  case False
  have taken: "map_of (rs_batch (takeDirty st)) s = Some None" "blocked s (takeDirty st)"
    "rs_batch (takeDirty st) \<noteq> []"
    using assms(2,3) False by (simp_all add: blocked_def takeDirty_def)
  show ?thesis
    using blocked_requeue [OF taken(2,3)] False
    by (simp add: flushDirty_def writeBatch_blocked [OF assms(1) taken(1)]) (simp add: requeue_def takeDirty_def)
qed

lemma blocked_step:
  assumes "nil_rejected db" and "blocked s st" and "\<And>p. ev \<noteq> PutValue s p"
  shows "blocked s (store_step db ev st) \<and> rs_table (store_step db ev st) = rs_table st"
proof (cases ev)
  case (PutValue t p)
  with assms(2,3) show ?thesis by (auto simp: store_step_def Put_def blocked_def)
next
  case FlushTakes
  with assms(2) show ?thesis by (auto simp: store_step_def takeDirty_def blocked_def)
next
  case FlushWrites
  show ?thesis
  proof (cases "rs_batch st = []")
    case False
    then have "map_of (rs_batch st) s = Some None" using assms(2) by (simp add: blocked_def)
    with False show ?thesis
      using blocked_requeue [OF assms(2) False] writeBatch_blocked [OF assms(1)]
      by (simp add: store_step_def FlushWrites) (simp add: requeue_def)
  qed (use assms(2) FlushWrites in \<open>simp add: store_step_def\<close>)
next
  case StoreCloses
  show ?thesis
  proof (cases "rs_batch st = []")
    case True
    note one = flush_blocked [OF assms(1,2) True]
    note two = flush_blocked [OF assms(1), of s "flushDirty db st"]
    show ?thesis using one two True assms(2)
      by (auto simp: store_step_def StoreCloses close_store_def) (simp_all add: blocked_def)
  qed (use assms(2) StoreCloses in \<open>simp add: store_step_def\<close>)
qed

lemma blocked_run:
  assumes "nil_rejected db" and "blocked s st" and "\<forall>p. PutValue s p \<notin> set evs"
  shows "blocked s (fold (store_step db) evs st) \<and> rs_table (fold (store_step db) evs st) = rs_table st"
  using assms(2,3)
proof (induction evs arbitrary: st)
  case (Cons ev evs)
  then have "blocked s (store_step db ev st) \<and> rs_table (store_step db ev st) = rs_table st"
    using blocked_step [OF assms(1), of s st ev] by fastforce
  with Cons show ?case by simp
qed simp

section \<open>The contract of a last-value store\<close>

text \<open>
  What the server needs of the store, and the clients of the server: a put is visible at once, on its
  subject only. So after any sequence of messages a subject holds its last one.
\<close>

locale last_values =
  fixes put :: "string \<Rightarrow> payload \<Rightarrow> 's \<Rightarrow> 's" and get :: "string \<Rightarrow> 's \<Rightarrow> payload option"
  assumes get_put: "get t (put s p st) = (if t = s \<and> s \<noteq> [] then Some (copied p) else get t st)"
begin

lemma get_puts:
  assumes "s \<noteq> []"
  shows "get s (fold (\<lambda>(t, p). put t p) messages st) =
    (case map_of (rev messages) s of None \<Rightarrow> get s st | Some p \<Rightarrow> Some (copied p))"
  using assms by (induction messages arbitrary: st) (auto simp: get_put map_add_def split: option.split)

lemma put_overwrites: "get t (put s q (put s p st)) = get t (put s q st)"
  by (simp add: get_put)

lemma puts_commute: "s \<noteq> s' \<Longrightarrow> get t (put s p (put s' q st)) = get t (put s' q (put s p st))"
  by (simp add: get_put)

end

interpretation store_values: last_values Put Get
  by unfold_locales (simp add: Get_def Put_def)

end
