(* ===== verification/Retain_Server.thy ===== *)
theory Retain_Server
  imports Retain_Store Go_Strings
begin

text \<open>
  \<open>retain/server.go\<close> and \<open>retain/protocol.go\<close>: the request and reply handlers over the store. NATS and
  \<open>encoding/json\<close> are the record \<open>retain_env\<close>. A handler returns the reply it sends, if any.
\<close>

text \<open>Go converts between \<open>string\<close> and \<open>[]byte\<close> byte by byte.\<close>

definition bytes_of_string :: "string \<Rightarrow> 8 word list" where
  "bytes_of_string s = map (\<lambda>c. word_of_nat (of_char c)) s"

definition string_of_bytes :: "8 word list \<Rightarrow> string" where
  "string_of_bytes bs = map (\<lambda>b. char_of (unat b)) bs"

lemma string_of_bytes_of_string [simp]: "string_of_bytes (bytes_of_string s) = s"
proof -
  have "unat (word_of_nat (of_char c) :: 8 word) = of_char c" for c
  proof -
    have "(of_char c :: nat) mod 256 < 256" by (rule mod_less_divisor) simp
    then have "(of_char c :: nat) < 256" by simp
    then show ?thesis by (simp add: unsigned_of_nat take_bit_nat_eq_self_iff)
  qed
  then show ?thesis by (simp add: string_of_bytes_def bytes_of_string_def comp_def)
qed

definition QueueGroup :: string where "QueueGroup = ''retain''"
definition HeaderError :: string where "HeaderError = ''X-Retain-Error''"
definition ErrorNotFound :: string where "ErrorNotFound = ''not_found''"

definition GetSubject :: "string \<Rightarrow> string" where
  "GetSubject systemName = ''retain.'' @ systemName @ ''.get''"

definition ListSubject :: "string \<Rightarrow> string" where
  "ListSubject systemName = ''retain.'' @ systemName @ ''.list''"

record list_request =
  lr_suffix :: string
  lr_prefix :: string

record nats_reply =
  rp_header :: "(string \<times> string) list"
  rp_data :: payload

record retain_env =
  rt_subscribe :: "string \<Rightarrow> bool"
  rt_queue_subscribe :: "string \<Rightarrow> string \<Rightarrow> bool"
  rt_flush :: bool
  rt_decode_request :: "payload \<Rightarrow> list_request option"
  rt_encode_response :: "string list \<Rightarrow> payload option"

record retain_server =
  sr_system :: string
  sr_store :: store

definition Listen :: "retain_env \<Rightarrow> store \<Rightarrow> string \<Rightarrow> go_error + retain_server" where
  "Listen env st name =
     (let system = trim_space name
      in if system = [] then Inl (errors_new ''system name is required'')
         else if \<not> rt_subscribe env (system @ ''.>'') then Inl (errorf ''subscribe to %s.>'' [FStr system])
         else if \<not> rt_queue_subscribe env (GetSubject system) QueueGroup
         then Inl (errors_new ''subscribe to retain get'')
         else if \<not> rt_queue_subscribe env (ListSubject system) QueueGroup
         then Inl (errors_new ''subscribe to retain list'')
         else if \<not> rt_flush env then Inl (errors_new ''flush retain subscriptions'')
         else Inr \<lparr>sr_system = system, sr_store = st\<rparr>)"

definition handleIngest :: "string \<Rightarrow> payload \<Rightarrow> retain_server \<Rightarrow> retain_server" where
  "handleIngest subject p sr =
     (if subject = [] then sr else sr\<lparr>sr_store := Put subject p (sr_store sr)\<rparr>)"

definition handleGet :: "string \<Rightarrow> payload \<Rightarrow> retain_server \<Rightarrow> nats_reply option" where
  "handleGet reply request sr =
     (if reply = [] then None
      else (case Get (string_of_bytes (slice_list request)) (sr_store sr) of
              None \<Rightarrow> Some \<lparr>rp_header = [(HeaderError, ErrorNotFound)], rp_data = None\<rparr>
            | Some p \<Rightarrow> Some \<lparr>rp_header = [], rp_data = p\<rparr>))"

text \<open>The body of the loop: the subject relative to the system, when it matches.\<close>

definition matchSubject :: "string \<Rightarrow> list_request \<Rightarrow> string \<Rightarrow> string option" where
  "matchSubject pre request full =
     (case cut_prefix full pre of
        (relative, found) \<Rightarrow>
          if \<not> found \<or> relative = [] then None
          else if lr_suffix request \<noteq> [] \<and> \<not> has_suffix relative (lr_suffix request) then None
          else if lr_prefix request \<noteq> [] \<and> \<not> has_prefix relative (lr_prefix request) then None
          else Some relative)"

definition matchedSubjects :: "list_request \<Rightarrow> retain_server \<Rightarrow> string list" where
  "matchedSubjects request sr =
     sort (List.map_filter (matchSubject (sr_system sr @ ''.'') request) (Subjects (sr_store sr)))"

definition handleList :: "retain_env \<Rightarrow> string \<Rightarrow> payload \<Rightarrow> retain_server \<Rightarrow> nats_reply option" where
  "handleList env reply data sr =
     (let nothing = Some \<lparr>rp_header = [], rp_data = None\<rparr>
      in if reply = [] then None
         else (case (if slice_list data = [] then Some \<lparr>lr_suffix = [], lr_prefix = []\<rparr>
                     else rt_decode_request env data) of
                 None \<Rightarrow> nothing
               | Some request \<Rightarrow>
                   (case rt_encode_response env (matchedSubjects request sr) of
                      None \<Rightarrow> nothing
                    | Some body \<Rightarrow> Some \<lparr>rp_header = [], rp_data = body\<rparr>)))"

section \<open>Facts\<close>

interpretation server_values: last_values handleIngest "\<lambda>s sr. Get s (sr_store sr)"
  by unfold_locales (simp add: handleIngest_def store_values.get_put)

lemma matchSubject_Some:
  "matchSubject pre request full = Some r \<longleftrightarrow>
     full = pre @ r \<and> r \<noteq> [] \<and> has_suffix r (lr_suffix request) \<and> has_prefix r (lr_prefix request)"
proof -
  have "has_suffix r []" "has_prefix r []" by (simp_all add: has_suffix_def has_prefix_def)
  then show ?thesis
    by (auto simp: matchSubject_def cut_prefix_def has_prefix_iff [of full] split: if_splits)
qed

lemma set_matchedSubjects:
  "set (matchedSubjects request sr) =
     {r. map_of (rs_values (sr_store sr)) (sr_system sr @ ''.'' @ r) \<noteq> None \<and> r \<noteq> [] \<and>
        has_suffix r (lr_suffix request) \<and> has_prefix r (lr_prefix request)}"
proof -
  have "r \<in> set (matchedSubjects request sr) \<longleftrightarrow>
      (\<exists>full\<in>set (Subjects (sr_store sr)). matchSubject (sr_system sr @ ''.'') request full = Some r)" for r
    by (force simp: matchedSubjects_def List.map_filter_def)
  then show ?thesis
    by (auto simp: matchSubject_Some Subjects_def map_of_eq_None_iff)
qed

lemma distinct_map_filter_inj:
  assumes "distinct xs" and "\<And>x y z. f x = Some z \<Longrightarrow> f y = Some z \<Longrightarrow> x = y"
  shows "distinct (List.map_filter f xs)"
  using assms(1)
proof (induction xs)
  case (Cons x xs)
  have "z \<notin> set (List.map_filter f xs)" if "f x = Some z" for z
    using Cons.prems assms(2) that by (force simp: List.map_filter_def)
  with Cons show ?case by (auto simp: List.map_filter_simps split: option.split)
qed (simp add: List.map_filter_simps)

lemma matchedSubjects_sorted:
  assumes "store_inv (sr_store sr)"
  shows "sorted (matchedSubjects request sr)" and "distinct (matchedSubjects request sr)"
proof -
  show "sorted (matchedSubjects request sr)" by (simp add: matchedSubjects_def)
  have "distinct (List.map_filter (matchSubject (sr_system sr @ ''.'') request) (Subjects (sr_store sr)))"
    using assms by (intro distinct_map_filter_inj) (auto simp: store_inv_def Subjects_def matchSubject_Some)
  then show "distinct (matchedSubjects request sr)" by (simp add: matchedSubjects_def)
qed

end
