(* ===== verification/Stream_Client.thy ===== *)
theory Stream_Client
  imports Retain_Server Go_Numbers
begin

text \<open>
  \<open>stream/client.go\<close> and \<open>stream/registry.go\<close>: the client of the bus. Its sequence numbers and known
  subjects are part of the state, and so are the messages it published, newest first, and the errors
  it reported. NATS, protobuf, JSON, YAML and the clock are the record \<open>stream_env\<close>, indexed by the
  number of calls made so far. A client is never nil, and a timestamp is an integer of nanoseconds.
\<close>

section \<open>Values and messages\<close>

datatype telemetry_value =
    IntValue int | FloatValue f64 | StringValue string | BoolValue bool | BytesValue payload
  | IntArray "int slice" | FloatArray "f64 slice" | StringArray "string slice" | BoolArray "bool slice"

text \<open>The Go type of a value, and the zero value of a type.\<close>

datatype value_kind =
    KindInt | KindFloat | KindString | KindBool | KindBytes
  | KindInts | KindFloats | KindStrings | KindBools

definition kind_of :: "telemetry_value \<Rightarrow> value_kind" where
  "kind_of v =
     (case v of IntValue _ \<Rightarrow> KindInt | FloatValue _ \<Rightarrow> KindFloat | StringValue _ \<Rightarrow> KindString
        | BoolValue _ \<Rightarrow> KindBool | BytesValue _ \<Rightarrow> KindBytes | IntArray _ \<Rightarrow> KindInts
        | FloatArray _ \<Rightarrow> KindFloats | StringArray _ \<Rightarrow> KindStrings | BoolArray _ \<Rightarrow> KindBools)"

definition type_name :: "value_kind \<Rightarrow> string" where
  "type_name k =
     (case k of KindInt \<Rightarrow> ''int64'' | KindFloat \<Rightarrow> ''float64'' | KindString \<Rightarrow> ''string'' | KindBool \<Rightarrow> ''bool''
        | KindBytes \<Rightarrow> ''[]uint8'' | KindInts \<Rightarrow> ''[]int64'' | KindFloats \<Rightarrow> ''[]float64''
        | KindStrings \<Rightarrow> ''[]string'' | KindBools \<Rightarrow> ''[]bool'')"

definition zero_of :: "value_kind \<Rightarrow> telemetry_value" where
  "zero_of k =
     (case k of KindInt \<Rightarrow> IntValue 0 | KindFloat \<Rightarrow> FloatValue 0 | KindString \<Rightarrow> StringValue []
        | KindBool \<Rightarrow> BoolValue False | KindBytes \<Rightarrow> BytesValue None | KindInts \<Rightarrow> IntArray None
        | KindFloats \<Rightarrow> FloatArray None | KindStrings \<Rightarrow> StringArray None | KindBools \<Rightarrow> BoolArray None)"

definition copy_slice :: "'a slice \<Rightarrow> 'a slice" where
  "copy_slice xs = append_nil (slice_list xs)"

definition encodeValue :: "telemetry_value \<Rightarrow> telemetry_value" where
  "encodeValue v =
     (case v of
        IntValue i \<Rightarrow> IntValue i | FloatValue f \<Rightarrow> FloatValue f | StringValue s \<Rightarrow> StringValue s
      | BoolValue b \<Rightarrow> BoolValue b | BytesValue p \<Rightarrow> BytesValue (copy_slice p)
      | IntArray xs \<Rightarrow> IntArray (copy_slice xs) | FloatArray xs \<Rightarrow> FloatArray (copy_slice xs)
      | StringArray xs \<Rightarrow> StringArray (copy_slice xs) | BoolArray xs \<Rightarrow> BoolArray (copy_slice xs))"

definition decodeAny :: "telemetry_value option \<Rightarrow> go_error + telemetry_value" where
  "decodeAny v =
     (case v of
        None \<Rightarrow> Inl (errors_new ''telemetry value is missing'')
      | Some k \<Rightarrow> Inr
          (case k of
             IntValue i \<Rightarrow> IntValue i | FloatValue f \<Rightarrow> FloatValue f | StringValue s \<Rightarrow> StringValue s
           | BoolValue b \<Rightarrow> BoolValue b | BytesValue p \<Rightarrow> BytesValue (copy_slice p)
           | IntArray xs \<Rightarrow> IntArray (copy_slice xs) | FloatArray xs \<Rightarrow> FloatArray (copy_slice xs)
           | StringArray xs \<Rightarrow> StringArray (copy_slice xs) | BoolArray xs \<Rightarrow> BoolArray (copy_slice xs)))"

definition decodeValue :: "value_kind \<Rightarrow> telemetry_value option \<Rightarrow> go_error + telemetry_value" where
  "decodeValue k v =
     (case decodeAny v of
        Inl e \<Rightarrow> Inl e
      | Inr decoded \<Rightarrow>
          if kind_of decoded = k then Inr decoded
          else Inl (errorf ''stored value has type %T, requested %T'' [FStr (type_name (kind_of decoded)), FStr (type_name k)]))"

record telemetry_message =
  tm_sequence :: "64 word"
  tm_value :: "telemetry_value option"
  tm_observed :: "int option"
  tm_source :: string
  tm_id :: string
  tm_expires :: "int option"

record stream_env =
  se_marshal :: "telemetry_message \<Rightarrow> payload option"
  se_unmarshal :: "payload \<Rightarrow> telemetry_message option"
  se_publish :: "nat \<Rightarrow> string \<Rightarrow> payload \<Rightarrow> bool"
  se_request :: "nat \<Rightarrow> string \<Rightarrow> payload \<Rightarrow> go_error + nats_reply"
  se_now :: "nat \<Rightarrow> int"
  se_encode_created :: "string \<Rightarrow> string \<Rightarrow> string option"
  se_decode_created :: "string \<Rightarrow> (string \<times> string) option"
  se_encode_list :: "list_request \<Rightarrow> payload option"
  se_decode_list :: "payload \<Rightarrow> string list option"

record stream_config =
  cfg_nats_url :: string
  cfg_system :: string

record stream_client =
  sc_config :: stream_config
  sc_source :: string
  sc_instance :: int
  sc_sequences :: "(string \<times> 64 word) list"
  sc_known :: "string list"
  sc_bus :: "(string \<times> telemetry_message) list"
  sc_reported :: "go_error list"
  sc_calls :: nat

definition defaultValueTTL :: int where "defaultValueTTL = 10000000000"

definition ErrNotFound :: go_error where "ErrNotFound = errors_new ''subject value not found''"

text \<open>\<open>LoadConfig\<close> on the decoded file, when it can be read and decoded.\<close>

definition LoadConfig :: "stream_config option \<Rightarrow> go_error + stream_config" where
  "LoadConfig file =
     (case file of
        None \<Rightarrow> Inl (errors_new ''read or decode stream config'')
      | Some cfg \<Rightarrow>
          (let url = trim_space (cfg_nats_url cfg); system = trim_space (cfg_system cfg)
           in if url = [] then Inl (errors_new ''stream config nats_url is required'')
              else if system = [] then Inl (errors_new ''stream config system_name is required'')
              else Inr \<lparr>cfg_nats_url = url, cfg_system = system\<rparr>))"

text \<open>\<open>New\<close>: \<open>host\<close> is what \<open>os.Hostname\<close> returns, \<open>connects\<close> whether NATS accepts the URL.\<close>

definition new_client ::
    "stream_config option \<Rightarrow> (string \<Rightarrow> bool) \<Rightarrow> string option \<Rightarrow> int \<Rightarrow> go_error + stream_client" where
  "new_client file connects host now =
     (case LoadConfig file of
        Inl e \<Rightarrow> Inl e
      | Inr cfg \<Rightarrow>
          if \<not> connects (cfg_nats_url cfg) then Inl (errorf ''connect to NATS at %q'' [FStr (cfg_nats_url cfg)])
          else Inr \<lparr>sc_config = cfg,
                    sc_source = (case host of None \<Rightarrow> ''unknown''
                                  | Some h \<Rightarrow> if trim_space h = [] then ''unknown'' else h),
                    sc_instance = now, sc_sequences = [], sc_known = [], sc_bus = [], sc_reported = [],
                    sc_calls = 0\<rparr>)"

section \<open>Subjects\<close>

definition sc_system :: "stream_client \<Rightarrow> string" where
  "sc_system c = cfg_system (sc_config c)"

definition SubjectCreatedSubject :: string where
  "SubjectCreatedSubject = ''registry.subject.created''"

definition relativeSubject :: "stream_client \<Rightarrow> string \<Rightarrow> string \<times> bool" where
  "relativeSubject c subject =
     (case cut_prefix subject (sc_system c @ ''.'') of
        (relative, found) \<Rightarrow> (relative, found \<and> relative \<noteq> []))"

definition validateOperation :: "stream_client \<Rightarrow> string \<Rightarrow> go_error + string" where
  "validateOperation c subject =
     (let subject = trim_space subject
      in if subject = [] then Inl (errors_new ''subject is required'')
         else Inr (sc_system c @ ''.'' @ subject))"

definition validatePrefix :: "stream_client \<Rightarrow> string \<Rightarrow> go_error + (string \<times> string)" where
  "validatePrefix c pre =
     (let pre = trim_space pre
      in if pre = [] then Inl (errors_new ''subject prefix is required'')
         else (let pre = trim_suffix pre ''.''
               in if pre = [] \<or> has_prefix pre ''.'' \<or> has_suffix pre ''.'' \<or> contains_str pre ''..'' \<or>
                     contains_any pre [CHR ''*'', CHR ''>'', CHR '' '', CHR 0x09, CHR 0x0D, CHR 0x0A]
                  then Inl (errorf ''subject prefix %q is invalid'' [FStr pre])
                  else Inr (pre @ ''.'', sc_system c @ ''.'' @ pre @ ''.>'')))"

definition LastToken :: "string \<Rightarrow> string" where
  "LastToken subject = last (split_on (CHR ''.'') (trim_space subject))"

definition encodeSubjectCreated :: "stream_env \<Rightarrow> string \<Rightarrow> string option" where
  "encodeSubjectCreated env relative = se_encode_created env relative (LastToken relative)"

definition DecodeSubjectCreated :: "stream_env \<Rightarrow> string \<Rightarrow> (string \<times> string) option" where
  "DecodeSubjectCreated env v =
     (case se_decode_created env v of
        None \<Rightarrow> None
      | Some (subject, suf) \<Rightarrow>
          (let subject = trim_space subject; suf = trim_space suf
           in Some (subject, if suf = [] then LastToken subject else suf)))"

section \<open>Reading\<close>

definition call_client :: "stream_client \<Rightarrow> stream_client" where
  "call_client c = c\<lparr>sc_calls := Suc (sc_calls c)\<rparr>"

definition report :: "go_error \<Rightarrow> stream_client \<Rightarrow> stream_client" where
  "report e c = c\<lparr>sc_reported := e # sc_reported c\<rparr>"

definition header_get :: "(string \<times> string) list \<Rightarrow> string \<Rightarrow> string" where
  "header_get hs k = (case map_of hs k of None \<Rightarrow> [] | Some v \<Rightarrow> v)"

definition getPayload :: "stream_env \<Rightarrow> string \<Rightarrow> stream_client \<Rightarrow> stream_client \<times> (go_error + payload)" where
  "getPayload env full c =
     (call_client c,
      case se_request env (sc_calls c) (GetSubject (sc_system c)) (append_nil (bytes_of_string full)) of
        Inl e \<Rightarrow> Inl e
      | Inr reply \<Rightarrow>
          if header_get (rp_header reply) HeaderError = ErrorNotFound then Inl ErrNotFound
          else Inr (rp_data reply))"

definition get_value ::
    "stream_env \<Rightarrow> value_kind \<Rightarrow> string \<Rightarrow> stream_client \<Rightarrow> stream_client \<times> (go_error + telemetry_value)" where
  "get_value env k subject c =
     (case validateOperation c subject of
        Inl e \<Rightarrow> (c, Inl e)
      | Inr full \<Rightarrow>
          (case getPayload env full c of
             (c1, Inl e) \<Rightarrow> (c1, Inl (wrapf ''get latest subject %q: %w'' [FStr full] e))
           | (c1, Inr raw) \<Rightarrow>
               (c1, case se_unmarshal env raw of
                      None \<Rightarrow> Inl (errorf ''decode latest subject %q'' [FStr full])
                    | Some m \<Rightarrow>
                        (case decodeValue k (tm_value m) of
                           Inl e \<Rightarrow> Inl (wrapf ''decode value for subject %q: %w'' [FStr full] e)
                         | Inr v \<Rightarrow> Inr v))))"

definition GetAny ::
    "stream_env \<Rightarrow> string \<Rightarrow> stream_client \<Rightarrow> stream_client \<times> (go_error + telemetry_value)" where
  "GetAny env subject c =
     (case validateOperation c subject of
        Inl e \<Rightarrow> (c, Inl e)
      | Inr full \<Rightarrow>
          (case getPayload env full c of
             (c1, Inl e) \<Rightarrow> (c1, Inl e)
           | (c1, Inr raw) \<Rightarrow>
               (c1, case se_unmarshal env raw of
                      None \<Rightarrow> Inl (errorf ''decode latest subject %q'' [FStr full])
                    | Some m \<Rightarrow> decodeAny (tm_value m))))"

definition listSubjects ::
    "stream_env \<Rightarrow> list_request \<Rightarrow> stream_client \<Rightarrow> stream_client \<times> (go_error + string list)" where
  "listSubjects env request c =
     (case se_encode_list env request of
        None \<Rightarrow> (c, Inl (errors_new ''encode list request''))
      | Some body \<Rightarrow>
          (call_client c,
           case se_request env (sc_calls c) (ListSubject (sc_system c)) body of
             Inl e \<Rightarrow> Inl (wrapf ''list subjects: %w'' [] e)
           | Inr reply \<Rightarrow>
               (case se_decode_list env (rp_data reply) of
                  None \<Rightarrow> Inl (errors_new ''decode list response'')
                | Some subjects \<Rightarrow> Inr (sort subjects))))"

definition ListSubjects ::
    "stream_env \<Rightarrow> string \<Rightarrow> stream_client \<Rightarrow> stream_client \<times> (go_error + string list)" where
  "ListSubjects env suf c = listSubjects env \<lparr>lr_suffix = trim_space suf, lr_prefix = []\<rparr> c"

definition ListSubjectsPrefix ::
    "stream_env \<Rightarrow> string \<Rightarrow> stream_client \<Rightarrow> stream_client \<times> (go_error + string list)" where
  "ListSubjectsPrefix env pre c =
     (case validatePrefix c pre of
        Inl e \<Rightarrow> (c, Inl e)
      | Inr (p, _) \<Rightarrow> listSubjects env \<lparr>lr_suffix = [], lr_prefix = p\<rparr> c)"

end
