(* ===== verification/Stream_Set.thy ===== *)
theory Stream_Set
  imports Stream_Client
begin

text \<open>
  \<open>stream/client.go\<close>, writing: \<open>Set\<close> numbers and publishes a message, and announces a subject the first
  time it appears by a \<open>Set\<close> of its own, on the registry subject, which is never announced.
\<close>

section \<open>Numbers in message identities\<close>

definition digit_char :: "nat \<Rightarrow> char" where
  "digit_char n = char_of (48 + n)"

fun decimal :: "nat \<Rightarrow> string" where
  "decimal n = (if n < 10 then [digit_char n] else decimal (n div 10) @ [digit_char (n mod 10)])"

declare decimal.simps [simp del]

definition decimal_int :: "int \<Rightarrow> string" where
  "decimal_int i = (if i < 0 then ''-'' @ decimal (nat (- i)) else decimal (nat i))"

section \<open>Messages\<close>

definition nextSequence :: "string \<Rightarrow> stream_client \<Rightarrow> stream_client \<times> 64 word" where
  "nextSequence full c =
     (let n = (case map_of (sc_sequences c) full of None \<Rightarrow> 0 | Some n \<Rightarrow> n) + 1
      in (c\<lparr>sc_sequences := AList.update full n (sc_sequences c)\<rparr>, n))"

definition message_id :: "stream_client \<Rightarrow> string \<Rightarrow> 64 word \<Rightarrow> string" where
  "message_id c full n =
     sc_source c @ ''-'' @ decimal_int (sc_instance c) @ ''-'' @ full @ ''-'' @ decimal (unat n)"

definition newMessage ::
    "stream_env \<Rightarrow> string \<Rightarrow> telemetry_value \<Rightarrow> stream_client \<Rightarrow> stream_client \<times> telemetry_message" where
  "newMessage env full v c =
     (let now = se_now env (sc_calls c); (c1, n) = nextSequence full (call_client c)
      in (c1, \<lparr>tm_sequence = n, tm_value = Some v, tm_observed = Some now, tm_source = sc_source c,
               tm_id = message_id c full n, tm_expires = Some (now + defaultValueTTL)\<rparr>))"

section \<open>Announcing\<close>

definition shouldAnnounce :: "stream_env \<Rightarrow> string \<Rightarrow> stream_client \<Rightarrow> stream_client \<times> bool" where
  "shouldAnnounce env full c =
     (case relativeSubject c full of
        (relative, found) \<Rightarrow>
          if full = [] \<or> \<not> found \<or> relative = SubjectCreatedSubject then (c, False)
          else if full \<in> set (sc_known c) then (c, False)
          else (case getPayload env full c of
                  (c1, Inl e) \<Rightarrow> (c1, errors_is e ErrNotFound)
                | (c1, Inr _) \<Rightarrow> (c1, False)))"

definition markKnown :: "string \<Rightarrow> stream_client \<Rightarrow> stream_client" where
  "markKnown full c = (if full = [] then c else c\<lparr>sc_known := List.insert full (sc_known c)\<rparr>)"

text \<open>One message: from the check of the operation to the publication.\<close>

definition publishMessage ::
    "stream_env \<Rightarrow> string \<Rightarrow> telemetry_value \<Rightarrow> stream_client \<Rightarrow> stream_client \<times> (go_error + unit)" where
  "publishMessage env full v c =
     (case newMessage env full (encodeValue v) c of
        (c1, m) \<Rightarrow>
          (case se_marshal env m of
             None \<Rightarrow> (c1, Inl (errorf ''marshal message for subject %q'' [FStr full]))
           | Some data \<Rightarrow>
               if se_publish env (sc_calls c1) full data
               then (markKnown full ((call_client c1)\<lparr>sc_bus := (full, m) # sc_bus c1\<rparr>), Inr ())
               else (call_client c1, Inl (errorf ''publish subject %q'' [FStr full]))))"

lemma shouldAnnounce_system [simp]: "sc_config (fst (shouldAnnounce env full c)) = sc_config c"
  by (simp add: shouldAnnounce_def getPayload_def call_client_def split: prod.split sum.split)

text \<open>\<open>Set\<close> and \<open>announceCreated\<close> call each other: the recursion ends with the registry subject.\<close>

function set_value ::
    "stream_env \<Rightarrow> string \<Rightarrow> telemetry_value \<Rightarrow> stream_client \<Rightarrow> stream_client \<times> (go_error + unit)" where
  "set_value env subject v c =
     (let relative = trim_space subject
      in case validateOperation c subject of
           Inl e \<Rightarrow> (c, Inl e)
         | Inr full \<Rightarrow>
             (let (c1, announce) = shouldAnnounce env full c; (c2, r) = publishMessage env full v c1
              in case r of
                   Inl e \<Rightarrow> (c2, Inl e)
                 | Inr _ \<Rightarrow>
                     if \<not> announce \<or> relative = [] \<or> relative = SubjectCreatedSubject then (c2, Inr ())
                     else (case encodeSubjectCreated env relative of
                             None \<Rightarrow>
                               (report (errorf ''encode subject created for %q'' [FStr relative]) c2, Inr ())
                           | Some p \<Rightarrow>
                               (case set_value env SubjectCreatedSubject (StringValue p) c2 of
                                  (c3, Inl e) \<Rightarrow>
                                    (report (wrapf ''announce subject created for %q: %w'' [FStr relative] e) c3, Inr ())
                                | (c3, Inr _) \<Rightarrow> (c3, Inr ())))))"
  by pat_completeness auto
termination
proof (relation "measure (\<lambda>(env, subject, v, c). if trim_space subject = SubjectCreatedSubject then 0 else 1)",
    goal_cases)
  case (2 env subject v c relative)
  moreover have "trim_space SubjectCreatedSubject = SubjectCreatedSubject" by code_simp
  ultimately show ?case by auto
qed simp

declare set_value.simps [simp del]

text \<open>\<open>Create\<close>: the zero value, unless the subject has a value of the type.\<close>

definition create_value ::
    "stream_env \<Rightarrow> value_kind \<Rightarrow> string \<Rightarrow> stream_client \<Rightarrow> stream_client \<times> (go_error + unit)" where
  "create_value env k subject c =
     (let relative = trim_space subject
      in case get_value env k relative c of
           (c1, Inr _) \<Rightarrow>
             ((case validateOperation c1 relative of Inl _ \<Rightarrow> c1 | Inr full \<Rightarrow> markKnown full c1), Inr ())
         | (c1, Inl e) \<Rightarrow>
             if \<not> errors_is e ErrNotFound then (c1, Inl e) else set_value env relative (zero_of k) c1)"

section \<open>Numbers print uniquely\<close>

lemma digit_code: "n < 10 \<Longrightarrow> of_char (digit_char n) = 48 + n"
  by (simp add: digit_char_def take_bit_nat_eq_self_iff)

lemma digit_char_inj: "m < 10 \<Longrightarrow> n < 10 \<Longrightarrow> digit_char m = digit_char n \<Longrightarrow> m = n"
  by (metis digit_code add_left_cancel)

lemma decimal_not_Nil: "decimal n \<noteq> []"
  by (subst decimal.simps) simp

lemma decimal_inj: "decimal m = decimal n \<Longrightarrow> m = n"
proof (induction m arbitrary: n rule: decimal.induct)
  case (1 m)
  show ?case
  proof (cases "m < 10 \<or> n < 10")
    case True
    then show ?thesis
      using 1(2) digit_char_inj [of m n] decimal_not_Nil [of "m div 10"] decimal_not_Nil [of "n div 10"]
      by (simp add: decimal.simps [of m] decimal.simps [of n] split: if_splits)
  next
    case False
    then have "decimal (m div 10) = decimal (n div 10)" "digit_char (m mod 10) = digit_char (n mod 10)"
      using 1(2) by (simp_all add: decimal.simps [of m] decimal.simps [of n])
    then have "m div 10 = n div 10" "m mod 10 = n mod 10"
      using 1(1) False digit_char_inj by auto
    then show ?thesis by (metis div_mult_mod_eq)
  qed
qed

lemma decimal_no_dash: "CHR ''-'' \<notin> set (decimal n)"
proof (induction n rule: decimal.induct)
  case (1 n)
  have "CHR ''-'' \<noteq> digit_char d" if "d < 10" for d
  proof
    assume eq: "CHR ''-'' = digit_char d"
    have "of_char (CHR ''-'') = 48 + d" unfolding eq by (rule digit_code [OF that])
    then show False by simp
  qed
  with 1 show ?case by (subst decimal.simps) simp
qed

lemma split_last_dash:
  assumes "x @ ''-'' @ a = y @ ''-'' @ b" and "CHR ''-'' \<notin> set a" and "CHR ''-'' \<notin> set b"
  shows "x = y \<and> a = b"
proof -
  have "rev a @ CHR ''-'' # rev x = rev b @ CHR ''-'' # rev y"
    using arg_cong [OF assms(1), of rev] by simp
  then have "takeWhile (\<lambda>c. c \<noteq> CHR ''-'') (rev a @ CHR ''-'' # rev x) =
      takeWhile (\<lambda>c. c \<noteq> CHR ''-'') (rev b @ CHR ''-'' # rev y)" by simp
  moreover have "takeWhile (\<lambda>c. c \<noteq> CHR ''-'') (rev z @ CHR ''-'' # w) = rev z" if "CHR ''-'' \<notin> set z" for z w
    using that by (subst takeWhile_append2) auto
  ultimately have "a = b" using assms(2,3) by simp
  then show ?thesis using assms(1) by simp
qed

text \<open>The identity of a message determines its subject and its number.\<close>

lemma message_id_inj:
  assumes "message_id c s m = message_id c t n"
  shows "s = t \<and> m = n"
proof -
  have "s = t \<and> decimal (unat m) = decimal (unat n)"
    using assms decimal_no_dash by (intro split_last_dash) (simp_all add: message_id_def)
  then show ?thesis using decimal_inj by (auto simp: word_unat_eq_iff)
qed

section \<open>Publishing one message\<close>

definition sequence_of :: "stream_client \<Rightarrow> string \<Rightarrow> 64 word" where
  "sequence_of c full = (case map_of (sc_sequences c) full of None \<Rightarrow> 0 | Some n \<Rightarrow> n)"

lemma publishMessage_ok:
  assumes "publishMessage env full v c = (c', Inr ())"
  shows "\<exists>m data. sc_bus c' = (full, m) # sc_bus c \<and> tm_value m = Some (encodeValue v) \<and>
    tm_sequence m = sequence_of c full + 1 \<and> tm_id m = message_id c full (tm_sequence m) \<and>
    se_marshal env m = Some data"
  using assms
  by (auto simp: publishMessage_def newMessage_def nextSequence_def sequence_of_def markKnown_def call_client_def
      message_id_def Let_def split: option.splits if_splits)

lemma publishMessage_frame:
  "sc_config (fst (publishMessage env full v c)) = sc_config c"
  "sc_source (fst (publishMessage env full v c)) = sc_source c"
  "sc_instance (fst (publishMessage env full v c)) = sc_instance c"
  by (auto simp: publishMessage_def newMessage_def nextSequence_def markKnown_def call_client_def Let_def
      split: option.splits)

lemma shouldAnnounce_frame:
  "sc_bus (fst (shouldAnnounce env full c)) = sc_bus c"
  "sc_known (fst (shouldAnnounce env full c)) = sc_known c"
  "sc_sequences (fst (shouldAnnounce env full c)) = sc_sequences c"
  "sc_source (fst (shouldAnnounce env full c)) = sc_source c"
  "sc_instance (fst (shouldAnnounce env full c)) = sc_instance c"
  "sc_calls c \<le> sc_calls (fst (shouldAnnounce env full c))"
  by (simp_all add: shouldAnnounce_def getPayload_def call_client_def split: prod.split sum.split)

text \<open>
  The identities on the bus: the number of a message is at most the last number of its subject, which
  is at most the number of calls; no subject has two messages with the same number.
\<close>

definition numbered :: "stream_client \<Rightarrow> bool" where
  "numbered c \<longleftrightarrow>
     (\<forall>s. unat (sequence_of c s) \<le> sc_calls c) \<and>
     (\<forall>(s, m)\<in>set (sc_bus c). tm_id m = message_id c s (tm_sequence m) \<and>
        unat (tm_sequence m) \<le> unat (sequence_of c s)) \<and>
     distinct (map (\<lambda>(s, m). (s, tm_sequence m)) (sc_bus c))"

lemma numberedD:
  assumes "numbered c"
  shows "unat (sequence_of c s) \<le> sc_calls c"
    and "(s, m) \<in> set (sc_bus c) \<Longrightarrow> tm_id m = message_id c s (tm_sequence m)"
    and "(s, m) \<in> set (sc_bus c) \<Longrightarrow> unat (tm_sequence m) \<le> unat (sequence_of c s)"
    and "distinct (map (\<lambda>(s, m). (s, tm_sequence m)) (sc_bus c))"
  using assms unfolding numbered_def by blast+

lemma numbered_distinct: "numbered c \<Longrightarrow> distinct (map (tm_id \<circ> snd) (sc_bus c))"
proof -
  assume c: "numbered c"
  have "inj_on (tm_id \<circ> snd) (set (sc_bus c))"
  proof (rule inj_onI)
    fix x y assume x: "x \<in> set (sc_bus c)" and y: "y \<in> set (sc_bus c)" and eq: "(tm_id \<circ> snd) x = (tm_id \<circ> snd) y"
    have "message_id c (fst x) (tm_sequence (snd x)) = message_id c (fst y) (tm_sequence (snd y))"
      using numberedD(2) [OF c, of "fst x" "snd x"] numberedD(2) [OF c, of "fst y" "snd y"] x y eq by simp
    then have "(\<lambda>(s, m). (s, tm_sequence m)) x = (\<lambda>(s, m). (s, tm_sequence m)) y"
      using message_id_inj by (auto simp: case_prod_beta)
    moreover have "inj_on (\<lambda>(s, m). (s, tm_sequence m)) (set (sc_bus c))"
      using c by (simp add: numbered_def distinct_map)
    ultimately show "x = y" using x y by (meson inj_onD)
  qed
  moreover have "distinct (sc_bus c)" using c by (auto simp: numbered_def distinct_map)
  ultimately show ?thesis by (simp add: distinct_map)
qed

lemma numbered_call:
  assumes "numbered c" and "sc_sequences c' = sc_sequences c" and "sc_bus c' = sc_bus c"
    and "sc_source c' = sc_source c" and "sc_instance c' = sc_instance c" and "sc_calls c \<le> sc_calls c'"
  shows "numbered c'"
proof -
  have "message_id c' s n = message_id c s n" for s n using assms by (simp add: message_id_def)
  moreover have "sequence_of c' s = sequence_of c s" for s using assms by (simp add: sequence_of_def)
  ultimately show ?thesis using assms(1,3,6) by (auto simp: numbered_def intro: order_trans)
qed

lemma publishMessage_numbered:
  assumes "numbered c" and "sc_calls (fst (publishMessage env full v c)) < 2 ^ 64"
  shows "numbered (fst (publishMessage env full v c))"
    and "sc_calls c \<le> sc_calls (fst (publishMessage env full v c))"
proof -
  let ?n = "sequence_of c full + 1"
  have calls: "Suc (sc_calls c) \<le> sc_calls (fst (publishMessage env full v c))"
    by (auto simp: publishMessage_def newMessage_def nextSequence_def markKnown_def call_client_def Let_def
        split: option.split)
  then show "sc_calls c \<le> sc_calls (fst (publishMessage env full v c))" by simp
  have le: "unat (sequence_of c full) \<le> sc_calls c" using assms(1) by (simp add: numbered_def)
  then have "unat (sequence_of c full) + 1 < 2 ^ 64" using calls assms(2) by linarith
  then have n: "unat ?n = unat (sequence_of c full) + 1"
    by (simp add: unat_plus_if')
  define c1 where "c1 = fst (newMessage env full (encodeValue v) c)"
  have c1: "sc_sequences c1 = AList.update full ?n (sc_sequences c)" "sc_bus c1 = sc_bus c"
      "sc_source c1 = sc_source c" "sc_instance c1 = sc_instance c" "sc_calls c1 = Suc (sc_calls c)"
    by (simp_all add: c1_def newMessage_def nextSequence_def sequence_of_def call_client_def Let_def)
  have seq: "sequence_of c1 s = (if s = full then ?n else sequence_of c s)" for s
    by (simp add: sequence_of_def c1)
  have id: "message_id c1 s k = message_id c s k" for s k by (simp add: message_id_def c1)
  have old: "tm_id m = message_id c s (tm_sequence m)" "unat (tm_sequence m) \<le> unat (sequence_of c1 s)"
    if "(s, m) \<in> set (sc_bus c)" for s m
    using numberedD(2,3) [OF assms(1) that] n by (auto simp: seq)
  have bound: "unat (sequence_of c1 s) \<le> Suc (sc_calls c)" for s
    using numberedD(1) [OF assms(1), of s] le n by (simp add: seq)
  have one: "numbered c1"
    using old bound numberedD(4) [OF assms(1)] unfolding numbered_def by (auto simp: id c1)
  have new: "numbered (markKnown full ((call_client c1)\<lparr>sc_bus := (full, m) # sc_bus c1\<rparr>))"
    if "tm_id m = message_id c full ?n" "tm_sequence m = ?n" for m
  proof -
    let ?c2 = "markKnown full ((call_client c1)\<lparr>sc_bus := (full, m) # sc_bus c1\<rparr>)"
    have c2: "sc_bus ?c2 = (full, m) # sc_bus c" "sequence_of ?c2 = sequence_of c1"
        "message_id ?c2 = message_id c" "sc_calls ?c2 = Suc (Suc (sc_calls c))"
      by (auto simp: markKnown_def call_client_def sequence_of_def message_id_def c1 fun_eq_iff)
    have "(full, ?n) \<noteq> (s, tm_sequence k)" if "(s, k) \<in> set (sc_bus c)" for s k
      using numberedD(3) [OF assms(1) that] n by auto
    then have "distinct (map (\<lambda>(s, m). (s, tm_sequence m)) (sc_bus ?c2))"
      using numberedD(4) [OF assms(1)] that(2) by (auto simp: c2)
    moreover have "unat (sequence_of c1 s) \<le> Suc (Suc (sc_calls c))" for s
      using bound [of s] by simp
    ultimately show ?thesis
      using old that unfolding numbered_def c2 by (auto simp: seq)
  qed
  show "numbered (fst (publishMessage env full v c))"
  proof -
    obtain m where m: "newMessage env full (encodeValue v) c = (c1, m)" "tm_id m = message_id c full ?n"
      "tm_sequence m = ?n"
      by (auto simp: c1_def newMessage_def nextSequence_def sequence_of_def message_id_def call_client_def Let_def)
    have "numbered (call_client c1)"
      by (rule numbered_call [OF one]) (simp_all add: call_client_def)
    then show ?thesis
      using one new [OF m(2,3)] by (simp add: publishMessage_def m(1) split: option.split)
  qed
qed

section \<open>Setting a value\<close>

definition registry_subject :: "stream_client \<Rightarrow> string" where
  "registry_subject c = sc_system c @ ''.'' @ SubjectCreatedSubject"

lemma trim_registry [simp]: "trim_space SubjectCreatedSubject = SubjectCreatedSubject"
  by code_simp

lemma registry_not_Nil [simp]: "SubjectCreatedSubject \<noteq> []"
  by (simp add: SubjectCreatedSubject_def)

lemma relative_full [simp]: "relativeSubject c (sc_system c @ CHR ''.'' # r) = (r, r \<noteq> [])"
  using cut_prefix_append [of "sc_system c @ ''.''" r] by (simp add: relativeSubject_def)

lemma set_registry:
  "set_value env SubjectCreatedSubject v c = publishMessage env (registry_subject c) v c"
proof -
  have sa: "shouldAnnounce env (registry_subject c) c = (c, False)"
    by (simp add: shouldAnnounce_def registry_subject_def)
  have full: "validateOperation c SubjectCreatedSubject = Inr (registry_subject c)"
    by (simp add: validateOperation_def registry_subject_def)
  show ?thesis
    by (subst set_value.simps) (auto simp: full sa Let_def split: prod.splits sum.split)
qed

lemma shouldAnnounce_yes:
  assumes "shouldAnnounce env (sc_system c @ ''.'' @ r) c = (c1, True)"
  shows "r \<noteq> [] \<and> r \<noteq> SubjectCreatedSubject \<and> sc_system c @ ''.'' @ r \<notin> set (sc_known c)"
  using assms by (auto simp: shouldAnnounce_def split: if_splits)

text \<open>\<open>Set\<close> without its recursion.\<close>

definition announceCreated :: "stream_env \<Rightarrow> string \<Rightarrow> stream_client \<Rightarrow> stream_client" where
  "announceCreated env relative c =
     (case encodeSubjectCreated env relative of
        None \<Rightarrow> report (errorf ''encode subject created for %q'' [FStr relative]) c
      | Some p \<Rightarrow>
          (case publishMessage env (registry_subject c) (StringValue p) c of
             (c1, Inl e) \<Rightarrow> report (wrapf ''announce subject created for %q: %w'' [FStr relative] e) c1
           | (c1, Inr _) \<Rightarrow> c1))"

lemma set_value_eq:
  assumes "validateOperation c subject = Inr full" and r: "r = trim_space subject"
  shows "set_value env subject v c =
    (case shouldAnnounce env full c of
       (c1, announce) \<Rightarrow>
         (case publishMessage env full v c1 of
            (c2, Inl e) \<Rightarrow> (c2, Inl e)
          | (c2, Inr _) \<Rightarrow> (if announce then announceCreated env r c2 else c2, Inr ())))"
proof -
  obtain c1 announce where sa: "shouldAnnounce env full c = (c1, announce)" by fastforce
  obtain c2 res where pm: "publishMessage env full v c1 = (c2, res)" by fastforce
  have full: "full = sc_system c @ ''.'' @ r" "r \<noteq> []"
    using assms by (auto simp: validateOperation_def Let_def split: if_splits)
  have "r \<noteq> SubjectCreatedSubject" if announce
    using shouldAnnounce_yes [of env c r c1] sa that full(1) by simp
  then show ?thesis
    using full(2)
    by (subst set_value.simps)
      (auto simp: assms(1) r [symmetric] sa pm Let_def set_registry announceCreated_def
        split: sum.split option.split prod.split)
qed

lemma publishMessage_known:
  "publishMessage env full v c = (c', Inr ()) \<Longrightarrow> full \<noteq> [] \<Longrightarrow> full \<in> set (sc_known c')"
  "set (sc_known c) \<subseteq> set (sc_known (fst (publishMessage env full v c)))"
  by (auto simp: publishMessage_def newMessage_def nextSequence_def markKnown_def call_client_def Let_def
      split: option.splits if_splits)

lemma publishMessage_bus:
  "snd (publishMessage env full v c) = Inl e \<Longrightarrow> sc_bus (fst (publishMessage env full v c)) = sc_bus c"
  by (auto simp: publishMessage_def newMessage_def nextSequence_def call_client_def Let_def
      split: option.splits if_splits)

lemma announceCreated_bus:
  "\<exists>ann. sc_bus (announceCreated env r c) = ann @ sc_bus c \<and> length ann \<le> 1 \<and>
     (\<forall>(s, m)\<in>set ann. s = registry_subject c \<and>
        (\<exists>p. encodeSubjectCreated env r = Some p \<and> tm_value m = Some (StringValue p)))"
  "set (sc_known c) \<subseteq> set (sc_known (announceCreated env r c))"
proof -
  let ?goal = "\<exists>ann. sc_bus (announceCreated env r c) = ann @ sc_bus c \<and> length ann \<le> 1 \<and>
     (\<forall>(s, m)\<in>set ann. s = registry_subject c \<and>
        (\<exists>p. encodeSubjectCreated env r = Some p \<and> tm_value m = Some (StringValue p)))"
  show ?goal
  proof (cases "encodeSubjectCreated env r")
    case None
    then show ?thesis by (simp add: announceCreated_def report_def)
  next
    case (Some p)
    obtain c1 res where pm: "publishMessage env (registry_subject c) (StringValue p) c = (c1, res)" by fastforce
    show ?thesis
    proof (cases res)
      case (Inl e)
      then show ?thesis
        using publishMessage_bus [of env "registry_subject c" "StringValue p" c e] Some pm
        by (simp add: announceCreated_def report_def)
    next
      case (Inr u)
      then obtain m where "sc_bus c1 = (registry_subject c, m) # sc_bus c" "tm_value m = Some (StringValue p)"
        using publishMessage_ok pm by (fastforce simp: encodeValue_def)
      then show ?thesis
        using Some pm Inr by (intro exI [of _ "[(registry_subject c, m)]"]) (simp add: announceCreated_def)
    qed
  qed
  show "set (sc_known c) \<subseteq> set (sc_known (announceCreated env r c))"
  proof (cases "encodeSubjectCreated env r")
    case (Some p)
    obtain c1 res where pm: "publishMessage env (registry_subject c) (StringValue p) c = (c1, res)" by fastforce
    then show ?thesis
      using publishMessage_known(2) [of c env "registry_subject c" "StringValue p"] Some
      by (cases res) (simp_all add: announceCreated_def report_def)
  qed (simp add: announceCreated_def report_def)
qed

lemma set_value_bus:
  assumes "set_value env subject v c = (c', Inr ())"
  defines "r \<equiv> trim_space subject"
  defines "full \<equiv> sc_system c @ ''.'' @ r"
  shows "\<exists>ann m. sc_bus c' = ann @ (full, m) # sc_bus c \<and> tm_value m = Some (encodeValue v) \<and>
      (\<exists>data. se_marshal env m = Some data) \<and> length ann \<le> 1 \<and> full \<in> set (sc_known c') \<and>
      (full \<in> set (sc_known c) \<longrightarrow> ann = []) \<and>
      (\<forall>(s, a)\<in>set ann. s = registry_subject c \<and> s \<noteq> full \<and>
         (\<exists>p. encodeSubjectCreated env r = Some p \<and> tm_value a = Some (StringValue p)))"
proof -
  have "r \<noteq> []"
    using assms(1) unfolding r_def
    by (subst (asm) set_value.simps) (auto simp: validateOperation_def split: if_splits)
  then have "validateOperation c subject = Inr full"
    by (simp add: validateOperation_def full_def r_def)
  then have eq: "set_value env subject v c =
    (case shouldAnnounce env full c of
       (c1, announce) \<Rightarrow>
         (case publishMessage env full v c1 of
            (c2, Inl e) \<Rightarrow> (c2, Inl e)
          | (c2, Inr _) \<Rightarrow> (if announce then announceCreated env r c2 else c2, Inr ())))"
    by (rule set_value_eq) (simp add: r_def)
  obtain c1 announce where sa: "shouldAnnounce env full c = (c1, announce)" by fastforce
  obtain c2 res where pm: "publishMessage env full v c1 = (c2, res)" by fastforce
  have c1: "sc_bus c1 = sc_bus c" "sc_config c1 = sc_config c"
    using shouldAnnounce_frame(1) [of env full c] shouldAnnounce_system [of env full c] by (simp_all add: sa)
  have ok: "res = Inr ()" and c': "c' = (if announce then announceCreated env r c2 else c2)"
    using assms(1) by (auto simp: eq sa pm split: sum.splits)
  obtain m data where m: "sc_bus c2 = (full, m) # sc_bus c" "tm_value m = Some (encodeValue v)"
    "se_marshal env m = Some data"
    using publishMessage_ok [of env full v c1 c2] pm ok c1 by auto
  have known: "full \<in> set (sc_known c2)"
    using publishMessage_known(1) [of env full v c1 c2] pm ok by (simp add: full_def)
  show ?thesis
  proof (cases announce)
    case False
    then show ?thesis using c' m known by (intro exI [of _ "[]"] exI [of _ m]) simp
  next
    case True
    have yes: "r \<noteq> SubjectCreatedSubject" "full \<notin> set (sc_known c)"
      using shouldAnnounce_yes [of env c r c1] sa True by (simp_all add: full_def)
    have "sc_config c2 = sc_config c1"
      using publishMessage_frame(1) [of env full v c1] pm by simp
    then have reg: "registry_subject c2 = registry_subject c" "registry_subject c \<noteq> full"
      using yes(1) c1(2) by (simp_all add: registry_subject_def sc_system_def full_def)
    obtain ann where ann: "sc_bus c' = ann @ sc_bus c2" "length ann \<le> 1"
      "\<forall>(s, m)\<in>set ann. s = registry_subject c2 \<and>
        (\<exists>p. encodeSubjectCreated env r = Some p \<and> tm_value m = Some (StringValue p))"
      using announceCreated_bus(1) [of env r c2] c' True by auto
    moreover have "full \<in> set (sc_known c')"
      using announceCreated_bus(2) [of c2 env r] known c' True by auto
    ultimately show ?thesis
      using m yes(2) reg by (intro exI [of _ ann] exI [of _ m]) auto
  qed
qed

lemma announceCreated_config: "sc_config (announceCreated env r c) = sc_config c"
proof (cases "encodeSubjectCreated env r")
  case (Some p)
  obtain c1 res where pm: "publishMessage env (registry_subject c) (StringValue p) c = (c1, res)" by fastforce
  then show ?thesis
    using publishMessage_frame(1) [of env "registry_subject c" "StringValue p" c] Some
    by (cases res) (simp_all add: announceCreated_def report_def)
qed (simp add: announceCreated_def report_def)

lemma set_value_config: "sc_config (fst (set_value env subject v c)) = sc_config c"
proof (cases "validateOperation c subject")
  case (Inl e)
  then show ?thesis by (subst set_value.simps) simp
next
  case (Inr full)
  obtain c1 announce where sa: "shouldAnnounce env full c = (c1, announce)" by fastforce
  obtain c2 res where pm: "publishMessage env full v c1 = (c2, res)" by fastforce
  have "sc_config c2 = sc_config c"
    using publishMessage_frame(1) [of env full v c1] shouldAnnounce_system [of env full c] sa pm by simp
  then show ?thesis
    by (simp add: set_value_eq [OF Inr refl] sa pm announceCreated_config split: sum.split)
qed

section \<open>The life of a client\<close>

inductive client_reachable :: "stream_env \<Rightarrow> stream_client \<Rightarrow> bool" for env where
  client_new: "new_client file connects host now = Inr c \<Longrightarrow> client_reachable env c"
| client_set: "client_reachable env c \<Longrightarrow> client_reachable env (fst (set_value env subject v c))"
| client_create: "client_reachable env c \<Longrightarrow> client_reachable env (fst (create_value env k subject c))"
| client_reads: "client_reachable env c \<Longrightarrow> client_reachable env (call_client c)"
| client_reports: "client_reachable env c \<Longrightarrow> client_reachable env (report e c)"

text \<open>What every operation keeps: the numbering, as long as the number of calls fits 64 bits.\<close>

definition numbering :: "stream_client \<Rightarrow> stream_client \<Rightarrow> bool" where
  "numbering c c' \<longleftrightarrow> sc_calls c \<le> sc_calls c' \<and> (sc_calls c' < 2 ^ 64 \<longrightarrow> numbered c \<longrightarrow> numbered c')"

lemma numbering_refl: "numbering c c"
  by (simp add: numbering_def)

lemma numbering_trans: "numbering c c1 \<Longrightarrow> numbering c1 c2 \<Longrightarrow> numbering c c2"
  by (auto simp: numbering_def)

lemma numbering_same:
  assumes "sc_sequences c' = sc_sequences c" and "sc_bus c' = sc_bus c" and "sc_source c' = sc_source c"
    and "sc_instance c' = sc_instance c" and "sc_calls c \<le> sc_calls c'"
  shows "numbering c c'"
  using numbered_call [OF _ assms] assms(5) by (simp add: numbering_def)

lemma numbering_call: "numbering c (call_client c)" and numbering_report: "numbering c (report e c)"
  by (rule numbering_same; simp add: call_client_def report_def)+

lemma numbering_known: "numbering c (markKnown full c)"
  by (rule numbering_same) (simp_all add: markKnown_def)

lemma numbering_shouldAnnounce: "numbering c (fst (shouldAnnounce env full c))"
  by (rule numbering_same) (simp_all add: shouldAnnounce_frame)

lemma numbering_publish: "numbering c (fst (publishMessage env full v c))"
proof -
  have "sc_calls c \<le> sc_calls (fst (publishMessage env full v c))"
    by (auto simp: publishMessage_def newMessage_def nextSequence_def markKnown_def call_client_def Let_def
        split: option.split)
  then show ?thesis using publishMessage_numbered(1) by (simp add: numbering_def)
qed

lemma numbering_announce: "numbering c (announceCreated env r c)"
proof (cases "encodeSubjectCreated env r")
  case (Some p)
  obtain c1 res where pm: "publishMessage env (registry_subject c) (StringValue p) c = (c1, res)" by fastforce
  have "numbering c c1"
    using numbering_publish [of c env "registry_subject c" "StringValue p"] pm by simp
  then show ?thesis
    using numbering_trans [OF _ numbering_report] Some pm by (simp add: announceCreated_def split: sum.split)
qed (simp add: announceCreated_def numbering_report)

lemma numbering_set: "numbering c (fst (set_value env subject v c))"
proof (cases "validateOperation c subject")
  case (Inl e)
  then show ?thesis by (subst set_value.simps) (simp add: numbering_refl)
next
  case (Inr full)
  obtain c1 announce where sa: "shouldAnnounce env full c = (c1, announce)" by fastforce
  obtain c2 res where pm: "publishMessage env full v c1 = (c2, res)" by fastforce
  have "numbering c c1" "numbering c1 c2"
    using numbering_shouldAnnounce [of c env full] numbering_publish [of c1 env full v] sa pm by simp_all
  then have "numbering c c2" "numbering c (announceCreated env (trim_space subject) c2)"
    using numbering_trans numbering_announce by blast+
  then show ?thesis by (simp add: set_value_eq [OF Inr refl] sa pm split: sum.split)
qed

lemma numbering_get: "numbering c (fst (get_value env k subject c))"
  by (auto simp: get_value_def getPayload_def numbering_refl numbering_call split: sum.split)

lemma numbering_create: "numbering c (fst (create_value env k subject c))"
proof -
  obtain c1 r where g: "get_value env k (trim_space subject) c = (c1, r)" by fastforce
  have c1: "numbering c c1" using numbering_get [of c env k "trim_space subject"] g by simp
  show ?thesis
    using c1 numbering_trans [OF c1 numbering_set] numbering_trans [OF c1 numbering_known]
    by (auto simp: create_value_def g Let_def split: sum.split)
qed

lemma client_numbered: "client_reachable env c \<Longrightarrow> sc_calls c < 2 ^ 64 \<Longrightarrow> numbered c"
proof (induction rule: client_reachable.induct)
  case (client_new cfg connects host now c)
  then show ?case
    by (auto simp: new_client_def numbered_def sequence_of_def split: sum.splits if_splits)
qed (use numbering_set numbering_create numbering_call numbering_report in
    \<open>fastforce simp: numbering_def\<close>)+

section \<open>Reading back\<close>

text \<open>The retain server receives the messages, oldest first, and answers the requests of the client.\<close>

definition deliver_bus ::
    "stream_env \<Rightarrow> (string \<times> telemetry_message) list \<Rightarrow> retain_server \<Rightarrow> retain_server" where
  "deliver_bus env msgs sr =
     fold (\<lambda>(subject, d). handleIngest subject d)
       (List.map_filter (\<lambda>(subject, m). map_option (Pair subject) (se_marshal env m)) (rev msgs)) sr"

definition answered_by :: "stream_env \<Rightarrow> nat \<Rightarrow> string \<Rightarrow> retain_server \<Rightarrow> bool" where
  "answered_by env since system sr \<longleftrightarrow>
     (\<forall>n\<ge>since. \<forall>data. \<exists>reply.
        handleGet ''inbox'' data sr = Some reply \<and> se_request env n (GetSubject system) data = Inr reply)"

text \<open>Protobuf reads back what it writes, up to nil and empty slices.\<close>

definition proto_round_trip :: "stream_env \<Rightarrow> bool" where
  "proto_round_trip env \<longleftrightarrow>
     (\<forall>m d. se_marshal env m = Some d \<longrightarrow>
        (\<exists>m'. se_unmarshal env (copied d) = Some m' \<and> decodeAny (tm_value m') = decodeAny (tm_value m)))"

lemma decode_encode: "decodeAny (Some (encodeValue v)) = Inr (encodeValue v)"
  by (cases v) (simp_all add: decodeAny_def encodeValue_def copy_slice_def)

lemma kind_encode [simp]: "kind_of (encodeValue v) = kind_of v"
  by (cases v) (simp_all add: kind_of_def encodeValue_def)

lemma deliver_bus_get:
  "s \<noteq> [] \<Longrightarrow> Get s (sr_store (deliver_bus env msgs sr)) =
     (case map_of (List.map_filter (\<lambda>(subject, m). map_option (Pair subject) (se_marshal env m)) msgs) s of
        None \<Rightarrow> Get s (sr_store sr) | Some d \<Rightarrow> Some (copied d))"
  by (simp add: deliver_bus_def server_values.get_puts flip: rev_map rev_filter)
    (simp add: List.map_filter_def rev_map rev_filter)

lemma map_filter_other:
  "s \<notin> fst ` set msgs \<Longrightarrow>
     map_of (List.map_filter (\<lambda>(subject, m). map_option (Pair subject) (f m)) (msgs @ rest)) s =
     map_of (List.map_filter (\<lambda>(subject, m). map_option (Pair subject) (f m)) rest) s"
  by (induction msgs) (auto simp: List.map_filter_simps split: option.split)

text \<open>After a set, the server that received its messages holds the message with the value.\<close>

lemma set_reaches_server:
  assumes ok: "set_value env subject v c = (c', Inr ())" and bus: "sc_bus c' = new @ sc_bus c"
  shows "\<exists>m data. tm_value m = Some (encodeValue v) \<and> se_marshal env m = Some data \<and>
    Get (sc_system c @ ''.'' @ trim_space subject) (sr_store (deliver_bus env new sr)) = Some (copied data)"
proof -
  define full where "full = sc_system c @ ''.'' @ trim_space subject"
  obtain ann m data where m: "sc_bus c' = ann @ (full, m) # sc_bus c" "tm_value m = Some (encodeValue v)"
    "se_marshal env m = Some data"
    and ann: "\<forall>(s, a)\<in>set ann. s = registry_subject c \<and> s \<noteq> full \<and>
      (\<exists>p. encodeSubjectCreated env (trim_space subject) = Some p \<and> tm_value a = Some (StringValue p))"
    using set_value_bus [OF ok, folded full_def] by (elim exE conjE) (rule that)
  have new: "new = ann @ [(full, m)]" using bus m(1) by simp
  have "full \<notin> fst ` set ann" using ann by auto
  moreover have "full \<noteq> []" by (simp add: full_def)
  ultimately have "Get full (sr_store (deliver_bus env new sr)) = Some (copied data)"
    by (simp add: new deliver_bus_get map_filter_other) (simp add: List.map_filter_simps m(3))
  then show ?thesis using m(2,3) full_def by blast
qed

text \<open>Any client of the system reads what its server holds.\<close>

lemma get_from_server:
  assumes retain: "answered_by env (sc_calls c) (sc_system c) sr" and subject: "trim_space subject \<noteq> []"
    and held: "Get (sc_system c @ ''.'' @ trim_space subject) (sr_store sr) = Some (copied data)"
    and decoded: "se_unmarshal env (copied data) = Some m" "decodeAny (tm_value m) = Inr v"
  shows "get_value env (kind_of v) subject c = (call_client c, Inr v)"
proof -
  let ?full = "sc_system c @ ''.'' @ trim_space subject"
  obtain reply where reply: "handleGet ''inbox'' (append_nil (bytes_of_string ?full)) sr = Some reply"
    "se_request env (sc_calls c) (GetSubject (sc_system c)) (append_nil (bytes_of_string ?full)) = Inr reply"
    using retain unfolding answered_by_def by blast
  then have reply': "reply = \<lparr>rp_header = [], rp_data = copied data\<rparr>" using held by (simp add: handleGet_def)
  have "validateOperation c subject = Inr ?full" using subject by (simp add: validateOperation_def)
  moreover have "getPayload env ?full c = (call_client c, Inr (copied data))"
    using reply(2) by (simp add: getPayload_def reply' header_get_def ErrorNotFound_def)
  ultimately show ?thesis using decoded by (simp add: get_value_def decodeValue_def)
qed

lemma set_value_subject: "set_value env subject v c = (c', Inr ()) \<Longrightarrow> trim_space subject \<noteq> []"
  by (subst (asm) set_value.simps) (auto simp: validateOperation_def split: if_splits)

lemma get_after_set:
  assumes ok: "set_value env subject v c = (c', Inr ())" and bus: "sc_bus c' = new @ sc_bus c"
    and proto: "proto_round_trip env"
    and retain: "answered_by env (sc_calls c') (sc_system c) (deliver_bus env new sr)"
  shows "snd (get_value env (kind_of v) subject c') = Inr (encodeValue v)"
proof -
  have system: "sc_system c' = sc_system c"
    using set_value_config [of env subject v c] ok by (simp add: sc_system_def)
  from set_reaches_server [OF ok bus, of sr] obtain m data where
    m: "tm_value m = Some (encodeValue v)" "se_marshal env m = Some data"
      "Get (sc_system c @ ''.'' @ trim_space subject) (sr_store (deliver_bus env new sr)) = Some (copied data)" by blast
  obtain m' where "se_unmarshal env (copied data) = Some m'" "decodeAny (tm_value m') = Inr (encodeValue v)"
    using proto m(1,2) decode_encode [of v] unfolding proto_round_trip_def by metis
  then show ?thesis
    using get_from_server [OF retain [folded system] set_value_subject [OF ok]] m(3) system by fastforce
qed

end
