(* ===== verification/Stream_Subscribe.thy ===== *)
theory Stream_Subscribe
  imports Stream_Set
begin

text \<open>
  \<open>stream/subscribe.go\<close>: subscriptions deliver the retained values first and live messages as they
  come, from two goroutines that share a \<open>deliveryState\<close>. Every delivery, live or caught up, is a step
  \<open>deliverValue\<close> on the subscription, so an interleaving is a sequence of steps. The values given to
  the handler are recorded, newest first; \<open>handler\<close> says with which error it returns.
\<close>

section \<open>Which messages are delivered\<close>

record last_delivered =
  ld_id :: string
  ld_observed :: int

type_synonym delivery_state = "(string \<times> last_delivered) list"

definition newDeliveryState :: delivery_state where "newDeliveryState = []"

text \<open>\<open>time.Time{}\<close>, the only time for which \<open>IsZero\<close> holds, in nanoseconds since 1970.\<close>

definition zero_time :: int where "zero_time = -62135596800000000000"

definition accept_message :: "string \<Rightarrow> telemetry_message \<Rightarrow> delivery_state \<Rightarrow> delivery_state \<times> bool" where
  "accept_message subject m st =
     (let observed = (case tm_observed m of None \<Rightarrow> zero_time | Some t \<Rightarrow> t);
          accepted = (AList.update subject \<lparr>ld_id = tm_id m, ld_observed = observed\<rparr> st, True)
      in case map_of st subject of
           None \<Rightarrow> accepted
         | Some previous \<Rightarrow>
             if tm_id m \<noteq> [] \<and> ld_id previous = tm_id m then (st, False)
             else if ld_observed previous \<noteq> zero_time \<and> observed \<noteq> zero_time \<and>
                     observed < ld_observed previous
             then (st, False)
             else accepted)"

section \<open>Subscriptions\<close>

datatype subscription_kind = ExactSubject string | SuffixOf string | PrefixOf string

record subscription =
  sb_filter :: string
  sb_kind :: subscription_kind
  sb_last :: delivery_state
  sb_handled :: "(string \<times> telemetry_value) list"
  sb_reported :: "go_error list"
  sb_stopped :: bool

definition sb_report :: "go_error \<Rightarrow> subscription \<Rightarrow> subscription" where
  "sb_report e sub = sub\<lparr>sb_reported := e # sb_reported sub\<rparr>"

definition deliverValue ::
    "stream_env \<Rightarrow> value_kind \<Rightarrow> (string \<Rightarrow> telemetry_value \<Rightarrow> go_error option) \<Rightarrow> string \<Rightarrow> string \<Rightarrow>
     payload \<Rightarrow> subscription \<Rightarrow> subscription" where
  "deliverValue env k handler full subject data sub =
     (case se_unmarshal env data of
        None \<Rightarrow> sb_report (errorf ''decode subject %q'' [FStr full]) sub
      | Some m \<Rightarrow>
          (case accept_message full m (sb_last sub) of
             (st, False) \<Rightarrow> sub
           | (st, True) \<Rightarrow>
               (let sub1 = sub\<lparr>sb_last := st\<rparr>
                in case decodeValue k (tm_value m) of
                     Inl e \<Rightarrow> sb_report (wrapf ''decode value for subject %q: %w'' [FStr full] e) sub1
                   | Inr v \<Rightarrow>
                       (let sub2 = sub1\<lparr>sb_handled := (subject, v) # sb_handled sub1\<rparr>
                        in case handler subject v of
                             None \<Rightarrow> sub2
                           | Some e \<Rightarrow> sb_report (wrapf ''handle subject %q: %w'' [FStr full] e) sub2))))"

text \<open>The subject the handler sees for a message, if the subscription is for it.\<close>

definition handlerSubject :: "stream_client \<Rightarrow> subscription_kind \<Rightarrow> string \<Rightarrow> string option" where
  "handlerSubject c kind full =
     (case relativeSubject c full of
        (relative, found) \<Rightarrow>
          (case kind of
             ExactSubject _ \<Rightarrow> Some full
           | SuffixOf suf \<Rightarrow> if found \<and> has_suffix relative suf then Some relative else None
           | PrefixOf pre \<Rightarrow> if found \<and> has_prefix relative pre then Some relative else None))"

definition liveMessage ::
    "stream_env \<Rightarrow> value_kind \<Rightarrow> (string \<Rightarrow> telemetry_value \<Rightarrow> go_error option) \<Rightarrow> stream_client \<Rightarrow>
     string \<Rightarrow> payload \<Rightarrow> subscription \<Rightarrow> subscription" where
  "liveMessage env k handler c full data sub =
     (if sb_stopped sub then sub
      else (case handlerSubject c (sb_kind sub) full of
              None \<Rightarrow> sub
            | Some subject \<Rightarrow> deliverValue env k handler full subject data sub))"

definition context_canceled :: go_error where "context_canceled = errors_new ''context canceled''"
definition context_deadline :: go_error where "context_deadline = errors_new ''context deadline exceeded''"

definition ignoreCatchUpError :: "go_error \<Rightarrow> bool" where
  "ignoreCatchUpError e \<longleftrightarrow> errors_is e ErrNotFound \<or> errors_is e context_canceled \<or> errors_is e context_deadline"

text \<open>One subject of the catch-up.\<close>

definition catchUpSubject ::
    "stream_env \<Rightarrow> value_kind \<Rightarrow> (string \<Rightarrow> telemetry_value \<Rightarrow> go_error option) \<Rightarrow> string \<Rightarrow> string \<Rightarrow>
     stream_client \<times> subscription \<Rightarrow> stream_client \<times> subscription" where
  "catchUpSubject env k handler full subject = (\<lambda>(c, sub).
     (case getPayload env full c of
        (c1, Inl e) \<Rightarrow>
          (c1, if ignoreCatchUpError e then sub else sb_report (wrapf ''catch up subject %q: %w'' [FStr full] e) sub)
      | (c1, Inr data) \<Rightarrow> (c1, deliverValue env k handler full subject data sub)))"

fun catchUpSubjects ::
    "stream_env \<Rightarrow> value_kind \<Rightarrow> (string \<Rightarrow> telemetry_value \<Rightarrow> go_error option) \<Rightarrow> string list \<Rightarrow>
     stream_client \<times> subscription \<Rightarrow> stream_client \<times> subscription" where
  "catchUpSubjects env k handler [] (c, sub) = (c, sub)"
| "catchUpSubjects env k handler (relative # rest) (c, sub) =
     (if sb_stopped sub then (c, sub)
      else catchUpSubjects env k handler rest
             (catchUpSubject env k handler (sc_system c @ ''.'' @ relative) relative (c, sub)))"

definition catchUp ::
    "stream_env \<Rightarrow> value_kind \<Rightarrow> (string \<Rightarrow> telemetry_value \<Rightarrow> go_error option) \<Rightarrow>
     stream_client \<times> subscription \<Rightarrow> stream_client \<times> subscription" where
  "catchUp env k handler = (\<lambda>(c, sub).
     (let listed = (\<lambda>form arg (c1, r). case r of
            Inl e \<Rightarrow> (c1, if ignoreCatchUpError e then sub else sb_report (wrapf form [FStr arg] e) sub)
          | Inr subjects \<Rightarrow> catchUpSubjects env k handler subjects (c1, sub))
      in case sb_kind sub of
           ExactSubject full \<Rightarrow> catchUpSubject env k handler full full (c, sub)
         | SuffixOf suf \<Rightarrow> listed ''catch up suffix %q: %w'' suf (ListSubjects env suf c)
         | PrefixOf pre \<Rightarrow> listed ''catch up prefix %q: %w'' pre (ListSubjectsPrefix env pre c)))"

text \<open>\<open>subscribes\<close>: whether NATS accepts the subscription.\<close>

definition startSubscription ::
    "(string \<Rightarrow> bool) \<Rightarrow> string \<Rightarrow> subscription_kind \<Rightarrow> go_error + subscription" where
  "startSubscription subscribes subject kind =
     (if subscribes subject
      then Inr \<lparr>sb_filter = subject, sb_kind = kind, sb_last = newDeliveryState, sb_handled = [],
                sb_reported = [], sb_stopped = False\<rparr>
      else Inl (errorf ''subscribe to %q'' [FStr subject]))"

definition Subscribe :: "(string \<Rightarrow> bool) \<Rightarrow> stream_client \<Rightarrow> string \<Rightarrow> go_error + subscription" where
  "Subscribe subscribes c subject =
     (case validateOperation c subject of
        Inl e \<Rightarrow> Inl e | Inr full \<Rightarrow> startSubscription subscribes full (ExactSubject full))"

definition SubscribeSuffix :: "(string \<Rightarrow> bool) \<Rightarrow> stream_client \<Rightarrow> string \<Rightarrow> go_error + subscription" where
  "SubscribeSuffix subscribes c suf =
     (let suf = trim_space suf
      in if suf = [] then Inl (errors_new ''subject suffix is required'')
         else startSubscription subscribes (sc_system c @ ''.>'') (SuffixOf suf))"

definition SubscribePrefix :: "(string \<Rightarrow> bool) \<Rightarrow> stream_client \<Rightarrow> string \<Rightarrow> go_error + subscription" where
  "SubscribePrefix subscribes c pre =
     (case validatePrefix c pre of
        Inl e \<Rightarrow> Inl e | Inr (p, filt) \<Rightarrow> startSubscription subscribes filt (PrefixOf p))"

text \<open>\<open>Stop\<close> and \<open>Drain\<close>: no delivery after them.\<close>

definition stop_subscription :: "subscription \<Rightarrow> subscription" where
  "stop_subscription sub = sub\<lparr>sb_stopped := True\<rparr>"

section \<open>The order of deliveries\<close>

text \<open>The messages accepted from a sequence of received ones, in order.\<close>

fun accepted_messages :: "delivery_state \<Rightarrow> (string \<times> telemetry_message) list \<Rightarrow> (string \<times> telemetry_message) list" where
  "accepted_messages st [] = []"
| "accepted_messages st ((s, m) # ms) =
     (case accept_message s m st of
        (st', fresh) \<Rightarrow> (if fresh then [(s, m)] else []) @ accepted_messages st' ms)"

definition observed_at :: "string \<times> telemetry_message \<Rightarrow> int" where
  "observed_at x = (case tm_observed (snd x) of None \<Rightarrow> zero_time | Some t \<Rightarrow> t)"

text \<open>
  Messages as \<open>newMessage\<close> makes them: with an identity and a time, and on one subject the same
  identity exactly at the same time.
\<close>

definition identified :: "(string \<times> telemetry_message) set \<Rightarrow> bool" where
  "identified A \<longleftrightarrow>
     (\<forall>a\<in>A. tm_id (snd a) \<noteq> [] \<and> observed_at a \<noteq> zero_time) \<and>
     (\<forall>a\<in>A. \<forall>b\<in>A. fst a = fst b \<longrightarrow> (tm_id (snd a) = tm_id (snd b) \<longleftrightarrow> observed_at a = observed_at b))"

definition state_from :: "(string \<times> telemetry_message) set \<Rightarrow> delivery_state \<Rightarrow> bool" where
  "state_from A st \<longleftrightarrow>
     (\<forall>s p. map_of st s = Some p \<longrightarrow>
        (\<exists>m. (s, m) \<in> A \<and> ld_id p = tm_id m \<and> ld_observed p = observed_at (s, m)))"

lemma accept_identified:
  assumes A: "identified A" "state_from A st" "(s, m) \<in> A" and acc: "accept_message s m st = (st', fresh)"
  shows "fresh \<longleftrightarrow> (\<forall>p. map_of st s = Some p \<longrightarrow> ld_observed p < observed_at (s, m))"
    and "map_of st' = (if fresh then (map_of st)(s \<mapsto> \<lparr>ld_id = tm_id m, ld_observed = observed_at (s, m)\<rparr>)
      else map_of st)"
    and "state_from A st'"
proof -
  have m: "tm_id m \<noteq> []" "observed_at (s, m) \<noteq> zero_time" using A(1,3) by (auto simp: identified_def)
  have eq: "accept_message s m st =
      (let accepted = (AList.update s \<lparr>ld_id = tm_id m, ld_observed = observed_at (s, m)\<rparr> st, True)
       in case map_of st s of
            None \<Rightarrow> accepted
          | Some p \<Rightarrow> if observed_at (s, m) \<le> ld_observed p then (st, False) else accepted)"
  proof (cases "map_of st s")
    case None
    then show ?thesis by (simp add: accept_message_def observed_at_def Let_def)
  next
    case (Some p)
    then obtain n where n: "(s, n) \<in> A" "ld_id p = tm_id n" "ld_observed p = observed_at (s, n)"
      using A(2) by (auto simp: state_from_def)
    have "tm_id n = tm_id m \<longleftrightarrow> observed_at (s, n) = observed_at (s, m)"
      using A(1) [unfolded identified_def, THEN conjunct2, rule_format, OF n(1) A(3)] by simp
    moreover have "observed_at (s, n) \<noteq> zero_time"
      using A(1) n(1) by (auto simp: identified_def)
    moreover note m n Some
    ultimately show ?thesis
      by (auto simp: accept_message_def observed_at_def Let_def)
  qed
  show "fresh \<longleftrightarrow> (\<forall>p. map_of st s = Some p \<longrightarrow> ld_observed p < observed_at (s, m))"
    using acc by (auto simp: eq Let_def split: option.splits if_splits)
  show st': "map_of st' = (if fresh then (map_of st)(s \<mapsto> \<lparr>ld_id = tm_id m, ld_observed = observed_at (s, m)\<rparr>)
      else map_of st)"
    using acc by (auto simp: eq Let_def split: option.splits if_splits)
  show "state_from A st'"
    using A(2,3) st' by (auto simp: state_from_def)
qed

lemma accepted_order:
  assumes "identified A" and "set ms \<subseteq> A" and "state_from A st"
  shows "sorted_wrt (\<lambda>a b. observed_at a < observed_at b) (filter (\<lambda>x. fst x = s) (accepted_messages st ms)) \<and>
    (\<forall>b\<in>set (accepted_messages st ms). fst b = s \<longrightarrow>
       (\<forall>p. map_of st s = Some p \<longrightarrow> ld_observed p < observed_at b))"
  using assms(2,3)
proof (induction ms arbitrary: st)
  case Nil
  then show ?case by simp
next
  case (Cons tm ms)
  obtain t m where tm: "tm = (t, m)" by fastforce
  obtain st' fresh where acc: "accept_message t m st = (st', fresh)" by fastforce
  have "(t, m) \<in> A" using Cons.prems(1) tm by simp
  note step = accept_identified [OF assms(1) Cons.prems(2) this acc]
  have IH: "sorted_wrt (\<lambda>a b. observed_at a < observed_at b)
      (filter (\<lambda>x. fst x = s) (accepted_messages st' ms))"
    "\<And>b p. b \<in> set (accepted_messages st' ms) \<Longrightarrow> fst b = s \<Longrightarrow> map_of st' s = Some p \<Longrightarrow>
       ld_observed p < observed_at b"
    using Cons.IH [OF _ step(3)] Cons.prems(1) by auto
  have eq: "accepted_messages st (tm # ms) = (if fresh then [(t, m)] else []) @ accepted_messages st' ms"
    by (simp add: tm acc)
  show ?case
  proof (cases "fresh \<and> t = s")
    case True
    then have "map_of st' s = Some \<lparr>ld_id = tm_id m, ld_observed = observed_at (s, m)\<rparr>"
      using step(2) by simp
    then have later: "observed_at (s, m) < observed_at b"
      if "b \<in> set (accepted_messages st' ms)" "fst b = s" for b
      using IH(2) [OF that] by simp
    have here: "ld_observed p < observed_at (s, m)" if "map_of st s = Some p" for p
      using step(1) True that by simp
    have "ld_observed p < observed_at b"
      if "b \<in> set (accepted_messages st' ms)" "fst b = s" "map_of st s = Some p" for b p
      using later [OF that(1,2)] here [OF that(3)] by simp
    then show ?thesis using IH(1) later here True unfolding eq by auto
  next
    case False
    then have "map_of st' s = map_of st s" using step(2) by auto
    then show ?thesis using IH False unfolding eq by auto
  qed
qed

text \<open>Nothing newer is lost: a received message is at most as new as an accepted one.\<close>

lemma accepted_newest:
  assumes "identified A" and "set ms \<subseteq> A" and "state_from A st" and "x \<in> set ms"
  shows "(\<exists>a\<in>set (accepted_messages st ms). fst a = fst x \<and> observed_at x \<le> observed_at a) \<or>
    (\<exists>p. map_of st (fst x) = Some p \<and> observed_at x \<le> ld_observed p)"
  using assms(2-)
proof (induction ms arbitrary: st)
  case (Cons tm ms)
  obtain t m where tm: "tm = (t, m)" by fastforce
  obtain st' fresh where acc: "accept_message t m st = (st', fresh)" by fastforce
  have "(t, m) \<in> A" using Cons.prems(1) tm by simp
  note step = accept_identified [OF assms(1) Cons.prems(2) this acc]
  show ?case
  proof (cases "x = (t, m)")
    case True
    then show ?thesis using step(1) by (cases fresh) (auto simp: tm acc not_less)
  next
    case False
    then have "x \<in> set ms" using Cons.prems(3) tm by simp
    then have "(\<exists>a\<in>set (accepted_messages st' ms). fst a = fst x \<and> observed_at x \<le> observed_at a) \<or>
        (\<exists>p. map_of st' (fst x) = Some p \<and> observed_at x \<le> ld_observed p)"
      using Cons.IH [OF _ step(3)] Cons.prems(1) by auto
    then show ?thesis
      using step(2) by (auto simp: tm acc split: if_splits)
  qed
qed simp

section \<open>Deliveries\<close>

text \<open>Any interleaving of the two goroutines is a sequence of deliveries (subject, data).\<close>

definition deliveries ::
    "stream_env \<Rightarrow> value_kind \<Rightarrow> (string \<Rightarrow> telemetry_value \<Rightarrow> go_error option) \<Rightarrow> (string \<Rightarrow> string) \<Rightarrow>
     (string \<times> payload) list \<Rightarrow> subscription \<Rightarrow> subscription" where
  "deliveries env k handler name ds sub =
     fold (\<lambda>(full, data). deliverValue env k handler full (name full) data) ds sub"

definition received :: "stream_env \<Rightarrow> (string \<times> payload) list \<Rightarrow> (string \<times> telemetry_message) list" where
  "received env ds = List.map_filter (\<lambda>(full, data). map_option (Pair full) (se_unmarshal env data)) ds"

text \<open>The values the handler gets, oldest first.\<close>

definition handled_values ::
    "value_kind \<Rightarrow> (string \<Rightarrow> string) \<Rightarrow> (string \<times> telemetry_message) list \<Rightarrow> (string \<times> telemetry_value) list" where
  "handled_values k name ms =
     List.map_filter
       (\<lambda>(full, m). case decodeValue k (tm_value m) of Inl _ \<Rightarrow> None | Inr v \<Rightarrow> Some (name full, v)) ms"

lemma sb_report_fields [simp]:
  "sb_last (sb_report e sub) = sb_last sub" "sb_handled (sb_report e sub) = sb_handled sub"
  by (simp_all add: sb_report_def)

lemma deliverValue_effect:
  "sb_handled (deliverValue env k handler full subject data sub) =
     (case se_unmarshal env data of
        None \<Rightarrow> sb_handled sub
      | Some m \<Rightarrow>
          if snd (accept_message full m (sb_last sub))
          then (case decodeValue k (tm_value m) of Inl _ \<Rightarrow> sb_handled sub | Inr v \<Rightarrow> (subject, v) # sb_handled sub)
          else sb_handled sub)"
  "sb_last (deliverValue env k handler full subject data sub) =
     (case se_unmarshal env data of
        None \<Rightarrow> sb_last sub
      | Some m \<Rightarrow>
          if snd (accept_message full m (sb_last sub)) then fst (accept_message full m (sb_last sub)) else sb_last sub)"
  by (auto simp: deliverValue_def Let_def split: option.split prod.split bool.split sum.split)

lemma accept_rejected: "accept_message s m st = (st', False) \<Longrightarrow> st' = st"
  by (auto simp: accept_message_def Let_def split: option.splits if_splits)

lemma deliveries_handled:
  "sb_handled (deliveries env k handler name ds sub) =
     rev (handled_values k name (accepted_messages (sb_last sub) (received env ds))) @ sb_handled sub"
proof (induction ds arbitrary: sub)
  case Nil
  then show ?case by (simp add: deliveries_def received_def handled_values_def List.map_filter_simps)
next
  case (Cons fd ds)
  obtain full data where fd: "fd = (full, data)" by fastforce
  let ?sub1 = "deliverValue env k handler full (name full) data sub"
  have step: "deliveries env k handler name ((full, data) # ds) sub = deliveries env k handler name ds ?sub1"
    by (simp add: deliveries_def)
  show ?case
  proof (cases "se_unmarshal env data")
    case None
    then show ?thesis
      using Cons.IH [of ?sub1] by (simp add: step deliverValue_effect received_def fd List.map_filter_simps)
  next
    case (Some m)
    obtain st' fresh where acc: "accept_message full m (sb_last sub) = (st', fresh)" by fastforce
    have rec: "received env ((full, data) # ds) = (full, m) # received env ds"
      using Some by (simp add: received_def List.map_filter_simps)
    have st': "\<not> fresh \<Longrightarrow> st' = sb_last sub" using accept_rejected acc by (cases fresh) auto
    show ?thesis
      using Cons.IH [of ?sub1] st'
      by (cases fresh; cases "decodeValue k (tm_value m)")
        (simp_all add: fd step deliverValue_effect rec acc Some handled_values_def List.map_filter_simps)
  qed
qed

end
