(* ===== verification/Stream_Interest.thy ===== *)
theory Stream_Interest
  imports Stream_Subscribe
begin

text \<open>
  \<open>stream/interest.go\<close>: a subscription to a changing set of exact subjects, whose messages are spread
  over ten workers by the hash of the subject. A worker's channel is a list of at most 64 jobs; a job
  that finds the channel full waits, so dispatching it is a step that is not yet possible. The jobs
  handled by the workers are recorded, newest first.
\<close>

definition DefaultInterestWorkers :: nat where "DefaultInterestWorkers = 10"
definition interestWorkerQueue :: nat where "interestWorkerQueue = 64"

type_synonym exact_job = "string \<times> telemetry_value"

record exact_subscription =
  ex_name :: string
  ex_watched :: "string list"
  ex_workers :: "exact_job list list"
  ex_handled :: "exact_job list"
  ex_reported :: "go_error list"
  ex_stopped :: bool

section \<open>Sharding\<close>

text \<open>FNV-1a with 32 bits.\<close>

definition fnv_step :: "32 word \<Rightarrow> char \<Rightarrow> 32 word" where
  "fnv_step h ch = xor h (word_of_int (of_char ch)) * 16777619"

definition fnv32a :: "string \<Rightarrow> 32 word" where
  "fnv32a s = foldl fnv_step 2166136261 s"

definition workerIndex :: "string \<Rightarrow> nat \<Rightarrow> nat" where
  "workerIndex subject workers = (if workers = 0 then 0 else unat (fnv32a subject mod word_of_nat workers))"

section \<open>Operations\<close>

definition SubscribeExact :: "string \<Rightarrow> go_error + exact_subscription" where
  "SubscribeExact name =
     (let name = trim_space name
      in if name = [] then Inl (errors_new ''consumer name is required'')
         else if contains_any name [CHR ''.'', CHR '' '', CHR ''*'', CHR ''>'']
         then Inl (errorf ''consumer name %q is invalid'' [FStr name])
         else Inr \<lparr>ex_name = name, ex_watched = [], ex_workers = replicate DefaultInterestWorkers [],
                   ex_handled = [], ex_reported = [], ex_stopped = False\<rparr>)"

definition ex_report :: "go_error \<Rightarrow> exact_subscription \<Rightarrow> exact_subscription" where
  "ex_report e ex = ex\<lparr>ex_reported := e # ex_reported ex\<rparr>"

text \<open>Watching: \<open>subscribes\<close> is NATS's answer. The value caught up is handled by the caller.\<close>

definition watch_subject ::
    "(string \<Rightarrow> bool) \<Rightarrow> string \<Rightarrow> string \<Rightarrow> exact_subscription \<Rightarrow> exact_subscription \<times> (go_error + unit)" where
  "watch_subject subscribes full subject ex =
     (if subject \<in> set (ex_watched ex) then (ex, Inr ())
      else if \<not> subscribes full then (ex, Inl (errorf ''subscribe to %q'' [FStr full]))
      else (ex\<lparr>ex_watched := subject # ex_watched ex\<rparr>, Inr ()))"

text \<open>The last line of \<open>ensure\<close>: the caller handles the retained value itself, beside the workers.\<close>

definition handle_retained ::
    "(string \<Rightarrow> telemetry_value \<Rightarrow> go_error option) \<Rightarrow> string \<Rightarrow> telemetry_value \<Rightarrow> exact_subscription \<Rightarrow>
     exact_subscription \<times> (go_error + unit)" where
  "handle_retained handler subject v ex =
     (ex\<lparr>ex_handled := (subject, v) # ex_handled ex\<rparr>,
      case handler subject v of None \<Rightarrow> Inr () | Some e \<Rightarrow> Inl e)"

definition ensure ::
    "stream_env \<Rightarrow> (string \<Rightarrow> bool) \<Rightarrow> (string \<Rightarrow> telemetry_value \<Rightarrow> go_error option) \<Rightarrow> string \<Rightarrow> bool \<Rightarrow>
     stream_client \<Rightarrow> exact_subscription \<Rightarrow> stream_client \<times> exact_subscription \<times> (go_error + unit)" where
  "ensure env subscribes handler subject catch_up c ex =
     (let subject = trim_space subject
      in if subject = [] then (c, ex, Inl (errors_new ''subject is required''))
         else (case validateOperation c subject of
                 Inl e \<Rightarrow> (c, ex, Inl e)
               | Inr full \<Rightarrow>
                   (case watch_subject subscribes full subject ex of
                      (ex1, Inl e) \<Rightarrow> (c, ex1, Inl e)
                    | (ex1, Inr _) \<Rightarrow>
                        if \<not> catch_up then (c, ex1, Inr ())
                        else (case GetAny env subject c of
                                (c1, Inl e) \<Rightarrow> (c1, ex1, if errors_is e ErrNotFound then Inr () else Inl e)
                              | (c1, Inr v) \<Rightarrow> (c1, handle_retained handler subject v ex1)))))"

definition remove_subject :: "string \<Rightarrow> exact_subscription \<Rightarrow> exact_subscription \<times> (go_error + unit)" where
  "remove_subject subject ex =
     (let subject = trim_space subject
      in if subject = [] then (ex, Inl (errors_new ''subject is required''))
         else (ex\<lparr>ex_watched := filter (\<lambda>s. s \<noteq> subject) (ex_watched ex)\<rparr>, Inr ()))"

text \<open>
  \<open>dispatch\<close>, when the channel has room. After \<open>Stop\<close> both cases of the select are ready, the cancelled
  context and the closed channel, and Go chooses one at random, here \<open>sends\<close>: sending on a closed channel
  panics, which is the result None.
\<close>

definition send_job :: "string \<Rightarrow> telemetry_value \<Rightarrow> exact_subscription \<Rightarrow> exact_subscription" where
  "send_job subject v ex =
     (let i = workerIndex subject (length (ex_workers ex))
      in ex\<lparr>ex_workers := (ex_workers ex)[i := ex_workers ex ! i @ [(subject, v)]]\<rparr>)"

definition dispatch :: "bool \<Rightarrow> string \<Rightarrow> telemetry_value \<Rightarrow> exact_subscription \<Rightarrow> exact_subscription option" where
  "dispatch sends subject v ex =
     (if ex_stopped ex then (if sends then None else Some ex) else Some (send_job subject v ex))"

definition decodeExact :: "stream_env \<Rightarrow> payload \<Rightarrow> go_error + telemetry_value" where
  "decodeExact env data =
     (case se_unmarshal env data of
        None \<Rightarrow> Inl (errors_new ''decode message'') | Some m \<Rightarrow> decodeAny (tm_value m))"

text \<open>The callback of a watched subject.\<close>

definition receive_exact ::
    "stream_env \<Rightarrow> stream_client \<Rightarrow> bool \<Rightarrow> string \<Rightarrow> payload \<Rightarrow> exact_subscription \<Rightarrow> exact_subscription option" where
  "receive_exact env c sends full data ex =
     (case relativeSubject c full of
        (relative, found) \<Rightarrow>
          if \<not> found then Some ex
          else (case decodeExact env data of
                  Inl e \<Rightarrow> Some (ex_report (wrapf ''decode subject %q: %w'' [FStr full] e) ex)
                | Inr v \<Rightarrow> dispatch sends relative v ex))"

text \<open>One job of worker \<open>i\<close>.\<close>

definition runWorker ::
    "(string \<Rightarrow> telemetry_value \<Rightarrow> go_error option) \<Rightarrow> nat \<Rightarrow> exact_subscription \<Rightarrow> exact_subscription" where
  "runWorker handler i ex =
     (if i \<ge> length (ex_workers ex) then ex
      else (case ex_workers ex ! i of
              [] \<Rightarrow> ex
            | (subject, v) # jobs \<Rightarrow>
                (let ex1 = ex\<lparr>ex_workers := (ex_workers ex)[i := jobs],
                              ex_handled := (subject, v) # ex_handled ex\<rparr>
                 in case handler subject v of
                      None \<Rightarrow> ex1
                    | Some e \<Rightarrow> ex_report (wrapf ''handle subject %q on %q: %w'' [FStr subject, FStr (ex_name ex)] e) ex1)))"

text \<open>\<open>Stop\<close>: nothing is watched or dispatched any more; the workers finish their channels.\<close>

definition stop_exact :: "exact_subscription \<Rightarrow> exact_subscription" where
  "stop_exact ex = ex\<lparr>ex_watched := [], ex_stopped := True\<rparr>"

text \<open>The workers that \<open>Stop\<close> waits for, in the order \<open>schedule\<close> in which they take their jobs.\<close>

definition finish_workers ::
    "(string \<Rightarrow> telemetry_value \<Rightarrow> go_error option) \<Rightarrow> nat list \<Rightarrow> exact_subscription \<Rightarrow> exact_subscription" where
  "finish_workers handler schedule ex = fold (runWorker handler) schedule (stop_exact ex)"

section \<open>Steps\<close>

text \<open>A message whose channel is full has to wait; the record of what was dispatched is for the statement.\<close>

inductive exact_run :: "(string \<Rightarrow> telemetry_value \<Rightarrow> go_error option) \<Rightarrow> exact_job list \<Rightarrow> exact_subscription \<Rightarrow> bool"
  for handler where
  exact_new: "SubscribeExact name = Inr ex \<Longrightarrow> exact_run handler [] ex"
| exact_dispatch: "exact_run handler jobs ex \<Longrightarrow> \<not> ex_stopped ex \<Longrightarrow>
    length (ex_workers ex ! workerIndex s (length (ex_workers ex))) < interestWorkerQueue \<Longrightarrow>
    dispatch sends s v ex = Some ex' \<Longrightarrow> exact_run handler (jobs @ [(s, v)]) ex'"
| exact_work: "exact_run handler jobs ex \<Longrightarrow> exact_run handler jobs (runWorker handler i ex)"
| exact_watch: "exact_run handler jobs ex \<Longrightarrow>
    exact_run handler jobs (fst (watch_subject subscribes full subject ex))"
| exact_remove: "exact_run handler jobs ex \<Longrightarrow> exact_run handler jobs (fst (remove_subject subject ex))"
| exact_stop: "exact_run handler jobs ex \<Longrightarrow> exact_run handler jobs (stop_exact ex)"

definition of_subject :: "string \<Rightarrow> exact_job list \<Rightarrow> exact_job list" where
  "of_subject s jobs = filter (\<lambda>j. fst j = s) jobs"

text \<open>
  The jobs of a subject are in the channel of its worker only, and what was handled of it, followed by
  what waits there, is what was dispatched, in order.
\<close>

definition fifo :: "exact_job list \<Rightarrow> exact_subscription \<Rightarrow> bool" where
  "fifo jobs ex \<longleftrightarrow>
     length (ex_workers ex) = DefaultInterestWorkers \<and>
     (\<forall>i<DefaultInterestWorkers. length (ex_workers ex ! i) \<le> interestWorkerQueue \<and>
        (\<forall>j\<in>set (ex_workers ex ! i). workerIndex (fst j) DefaultInterestWorkers = i)) \<and>
     (\<forall>s. of_subject s (rev (ex_handled ex)) @
            of_subject s (ex_workers ex ! workerIndex s DefaultInterestWorkers) = of_subject s jobs)"

lemma workerIndex_less: "workerIndex s DefaultInterestWorkers < DefaultInterestWorkers"
proof -
  have "fnv32a s mod 10 < 10" by (rule word_mod_less_divisor) simp
  then have "unat (fnv32a s mod 10) < unat (10 :: 32 word)" by (simp only: word_less_nat_alt)
  then show ?thesis by (simp add: workerIndex_def DefaultInterestWorkers_def)
qed

lemma of_subject_append [simp]: "of_subject s (xs @ ys) = of_subject s xs @ of_subject s ys"
  by (simp add: of_subject_def)

lemma fifo_cong:
  "fifo jobs ex \<Longrightarrow> ex_workers ex' = ex_workers ex \<Longrightarrow> ex_handled ex' = ex_handled ex \<Longrightarrow> fifo jobs ex'"
  by (simp add: fifo_def)

lemma fifo_dispatch:
  assumes "fifo jobs ex" and "\<not> ex_stopped ex"
    and "length (ex_workers ex ! workerIndex s (length (ex_workers ex))) < interestWorkerQueue"
    and "dispatch sends s v ex = Some ex'"
  shows "fifo (jobs @ [(s, v)]) ex'"
proof -
  have len: "length (ex_workers ex) = DefaultInterestWorkers" using assms(1) by (simp add: fifo_def)
  have "fifo (jobs @ [(s, v)]) (send_job s v ex)"
    using assms(1-3) workerIndex_less [of s]
    by (auto simp: fifo_def send_job_def len Let_def nth_list_update of_subject_def)
  then show ?thesis using assms(2,4) by (simp add: dispatch_def)
qed

lemma fifo_work:
  assumes "fifo jobs ex"
  shows "fifo jobs (runWorker handler i ex)"
proof (cases "i < length (ex_workers ex) \<and> ex_workers ex ! i \<noteq> []")
  case False
  then show ?thesis using assms by (auto simp: runWorker_def split: list.split)
next
  case True
  then obtain s v rest where job: "ex_workers ex ! i = (s, v) # rest" by (cases "ex_workers ex ! i") auto
  have len: "length (ex_workers ex) = DefaultInterestWorkers" using assms by (simp add: fifo_def)
  have i: "i < DefaultInterestWorkers" "workerIndex s DefaultInterestWorkers = i"
    using assms True job len by (fastforce simp: fifo_def)+
  let ?ex1 = "ex\<lparr>ex_workers := (ex_workers ex)[i := rest], ex_handled := (s, v) # ex_handled ex\<rparr>"
  have "of_subject t (rev ((s, v) # ex_handled ex)) @
      of_subject t ((ex_workers ex)[i := rest] ! workerIndex t DefaultInterestWorkers) = of_subject t jobs" for t
  proof -
    have all: "of_subject t (rev (ex_handled ex)) @
        of_subject t (ex_workers ex ! workerIndex t DefaultInterestWorkers) = of_subject t jobs"
      using assms by (simp add: fifo_def)
    show ?thesis
    proof (cases "workerIndex t DefaultInterestWorkers = i")
      case True
      then show ?thesis using all i(1) len job by (auto simp: of_subject_def)
    next
      case False
      then have "t \<noteq> s" using i(2) by auto
      then show ?thesis using all False by (simp add: of_subject_def)
    qed
  qed
  then have "fifo jobs ?ex1"
    using assms i len job
    by (simp add: fifo_def nth_list_update) (metis Suc_leD length_Cons list.set_intros(2))
  then have "fifo jobs (ex_report e ?ex1)" "fifo jobs ?ex1" for e
    by (auto elim: fifo_cong simp: ex_report_def)
  then show ?thesis using True job by (simp add: runWorker_def Let_def split: option.split)
qed

lemma exact_run_fifo: "exact_run handler jobs ex \<Longrightarrow> fifo jobs ex"
proof (induction rule: exact_run.induct)
  case (exact_new name ex)
  then show ?case
    using workerIndex_less
    by (auto simp: SubscribeExact_def fifo_def of_subject_def Let_def split: if_splits)
next
  case (exact_watch jobs ex subscribes full subject)
  then show ?case by (auto elim!: fifo_cong simp: watch_subject_def)
next
  case (exact_remove jobs ex subject)
  then show ?case by (auto elim!: fifo_cong simp: remove_subject_def Let_def)
next
  case (exact_stop jobs ex)
  then show ?case by (auto elim!: fifo_cong simp: stop_exact_def)
qed (simp_all add: fifo_dispatch fifo_work)

section \<open>All jobs are handled\<close>

lemma runWorker_length [simp]: "length (ex_workers (runWorker handler i ex)) = length (ex_workers ex)"
  by (auto simp: runWorker_def ex_report_def Let_def split: list.split option.split)

lemma runWorker_shrinks:
  "w < length (ex_workers ex) \<Longrightarrow> length (ex_workers (runWorker handler i ex) ! w) =
     length (ex_workers ex ! w) - (if w = i then 1 else 0)"
  by (auto simp: runWorker_def ex_report_def Let_def nth_list_update split: list.split option.split)

lemma fold_runWorker_shrinks:
  "w < length (ex_workers ex) \<Longrightarrow> length (ex_workers (fold (runWorker handler) schedule ex) ! w) =
     length (ex_workers ex ! w) - count_list schedule w"
  by (induction schedule arbitrary: ex) (auto simp: runWorker_shrinks)

lemma exact_run_fold: "exact_run handler jobs ex \<Longrightarrow> exact_run handler jobs (fold (runWorker handler) schedule ex)"
  by (induction schedule arbitrary: ex) (auto intro: exact_work)

lemma finish_workers_fifo:
  assumes "exact_run handler jobs ex"
  shows "fifo jobs (finish_workers handler schedule ex)"
  unfolding finish_workers_def by (rule exact_run_fifo [OF exact_run_fold [OF exact_stop [OF assms]]])

lemma finish_workers_empty:
  assumes "exact_run handler jobs ex" and w: "w < DefaultInterestWorkers"
    and "interestWorkerQueue \<le> count_list schedule w"
  shows "ex_workers (finish_workers handler schedule ex) ! w = []"
proof -
  have "length (ex_workers ex) = DefaultInterestWorkers" "length (ex_workers ex ! w) \<le> interestWorkerQueue"
    using exact_run_fifo [OF assms(1)] w by (auto simp: fifo_def)
  then show ?thesis
    using fold_runWorker_shrinks [of w "stop_exact ex" handler schedule] assms(3) w
    by (simp add: finish_workers_def stop_exact_def)
qed

end
