(* ===== verification/Bus_Properties.thy ===== *)
theory Bus_Properties
  imports Stream_Interest
begin

text \<open>
  The properties of the retain store and server and of the stream client, and of the two together,
  each with a witness where it has hypotheses.
\<close>

section \<open>Concrete environments\<close>

definition demo_db :: "(string \<Rightarrow> payload \<Rightarrow> bool) \<Rightarrow> retain_db" where
  "demo_db accepts =
     \<lparr>db_prepare_dir = True, db_connect = True, db_pragma = (\<lambda>_. True), db_create_table = True,
      db_query = True, db_scan = (\<lambda>_. True), db_rows_end = True, db_begin = (\<lambda>_. True),
      db_prepare = (\<lambda>_. True), db_insert = (\<lambda>_. accepts), db_close_statement = (\<lambda>_. True),
      db_commit = (\<lambda>n. if n = 0 then CommitFailed False else Committed), db_now = (\<lambda>n. int n),
      db_close = True\<rparr>"

definition demo_store :: store where
  "demo_store = projr (open_store (demo_db (\<lambda>_ _. True)) [(''s.a'', Some [1], 0)])"

lemma demo_opened: "open_store (demo_db accepts) [(''s.a'', Some [1], 0)] = Inr demo_store"
  by (simp add: demo_store_def open_store_def demo_db_def load_store_def list_all_iff)

lemma demo_store_reachable: "store_reachable (demo_db accepts) demo_store"
  by (rule store_opened [OF demo_opened]) simp

lemma demo_store_fields [simp]:
  "rs_batch demo_store = []" "rs_dirty demo_store = []" "\<not> rs_closed demo_store" "rs_calls demo_store = 0"
  "rs_values demo_store = [(''s.a'', Some [1])]"
  by (simp_all add: demo_store_def open_store_def demo_db_def load_store_def list_all_iff copied_def append_nil_def)

definition demo_bus0 :: stream_env where
  "demo_bus0 =
     \<lparr>se_marshal = (\<lambda>m. case tm_value m of
          Some (BoolValue b) \<Rightarrow> Some (Some [if b then 1 else 0])
        | Some (StringValue s) \<Rightarrow> Some (Some (2 # bytes_of_string s)) | _ \<Rightarrow> None),
      se_unmarshal = (\<lambda>p. case p of
          Some [w] \<Rightarrow> Some \<lparr>tm_sequence = 0, tm_value = Some (if w = 2 then StringValue [] else BoolValue (w = 1)),
                        tm_observed = None, tm_source = [], tm_id = [], tm_expires = None\<rparr>
        | Some (w # bs) \<Rightarrow> Some \<lparr>tm_sequence = 0, tm_value = Some (StringValue (string_of_bytes bs)),
                        tm_observed = None, tm_source = [], tm_id = [], tm_expires = None\<rparr>
        | _ \<Rightarrow> None),
      se_publish = (\<lambda>_ _ _. True),
      se_request = (\<lambda>_ _ _. Inr \<lparr>rp_header = [(HeaderError, ErrorNotFound)], rp_data = None\<rparr>),
      se_now = (\<lambda>n. int n), se_encode_created = (\<lambda>s suf. Some s), se_decode_created = (\<lambda>_. None),
      se_encode_list = (\<lambda>_. None), se_decode_list = (\<lambda>_. None)\<rparr>"

definition demo_client :: stream_client where
  "demo_client = projr (new_client (Some \<lparr>cfg_nats_url = ''nats'', cfg_system = ''s''\<rparr>) (\<lambda>_. True) None 7)"


lemma demo_client_fields: "sc_calls demo_client = 0" "sc_bus demo_client = []"
  unfolding demo_client_def by code_simp+

section \<open>Retain\<close>

text \<open>C21. The store is a map: a put replaces the value of its subject, and neither half of a flush, failed
  or not, nor closing changes any value. At every moment the values are what the database holds,
  overridden by the batch in flight, overridden by the dirty values: no put is ever lost from both.\<close>

theorem store_refines_map:
  assumes "store_reachable db st"
  shows "Get s (store_step db ev st) =
      (case ev of
         PutValue t p \<Rightarrow> if t = s \<and> s \<noteq> [] then Some (copied p) else Get s st
       | _ \<Rightarrow> Get s st) \<and>
    map_of (rs_values st) = table_values st ++ map_of (rs_batch st) ++ map_of (rs_dirty st)"
proof -
  note inv = store_reachable_inv [OF assms]
  have "rs_values (store_step db ev st) = rs_values st" if "\<And>t p. ev \<noteq> PutValue t p"
    using that writeBatch_inv(2) [OF inv, of db] close_inv(2) [OF inv, of db]
    by (cases ev) (auto simp: store_step_def takeDirty_def)
  then have "Get s (store_step db ev st) =
      (case ev of PutValue t p \<Rightarrow> if t = s \<and> s \<noteq> [] then Some (copied p) else Get s st | _ \<Rightarrow> Get s st)"
    by (cases ev) (auto simp: Get_def store_step_def Put_def)
  then show ?thesis using inv by (simp add: store_inv_def durable_def)
qed

theorem store_refines_map_witness:
  "Get ''s.b'' (store_step (demo_db (\<lambda>_ _. True)) (PutValue ''s.b'' (Some [2])) demo_store) = Some (Some [2])"
  using store_refines_map [OF demo_store_reachable, of "''s.b''" "\<lambda>_ _. True" "PutValue ''s.b'' (Some [2])"]
  by (simp add: copied_def append_nil_def)





text \<open>A list request is answered with exactly the subjects of the system that have a value and match
  its suffix and prefix, relative to the system, sorted and without repetition.\<close>

theorem list_is_exact:
  assumes "store_reachable db (sr_store sr)"
  shows "set (matchedSubjects request sr) =
      {r. Get (sr_system sr @ ''.'' @ r) (sr_store sr) \<noteq> None \<and> r \<noteq> [] \<and>
         has_suffix r (lr_suffix request) \<and> has_prefix r (lr_prefix request)} \<and>
    sorted (matchedSubjects request sr) \<and> distinct (matchedSubjects request sr)"
  using set_matchedSubjects [of request sr] matchedSubjects_sorted [OF store_reachable_inv [OF assms], of request]
  by (simp add: Get_def)

theorem list_is_exact_witness:
  "''a'' \<in> set (matchedSubjects \<lparr>lr_suffix = ''a'', lr_prefix = []\<rparr> \<lparr>sr_system = ''s'', sr_store = demo_store\<rparr>)"
  using list_is_exact [of "demo_db (\<lambda>_ _. True)" "\<lparr>sr_system = ''s'', sr_store = demo_store\<rparr>"
      "\<lparr>lr_suffix = ''a'', lr_prefix = []\<rparr>"] demo_store_reachable
  by (simp add: Get_def has_suffix_def has_prefix_def)

section \<open>Writing\<close>


lemma demo_set: "snd (set_value demo_bus0 ''x'' (BoolValue True) demo_client) = Inr ()"
  unfolding demo_client_def by code_simp




text \<open>What was set is what is read: once the retain server has received the client's messages, \<open>Get\<close>
  of the same type returns the value that was set (an empty slice as nil).\<close>

theorem get_returns_what_was_set:
  assumes "set_value env subject v c = (c', Inr ())" and "sc_bus c' = new @ sc_bus c"
    and "proto_round_trip env"
    and "answered_by env (sc_calls c') (sc_system c) (deliver_bus env new sr)"
  shows "snd (get_value env (kind_of v) subject c') = Inr (encodeValue v)"
  using assms by (rule get_after_set)

definition demo_server :: retain_server where
  "demo_server = \<lparr>sr_system = ''s'', sr_store = demo_store\<rparr>"

definition demo_set_client :: stream_client where
  "demo_set_client = fst (set_value demo_bus0 ''x'' (BoolValue True) demo_client)"

text \<open>The requests of a set itself find nothing; later ones are answered by a server that received the messages.\<close>

definition demo_retained :: "(string \<times> telemetry_message) list \<Rightarrow> stream_env" where
  "demo_retained msgs = demo_bus0\<lparr>se_request := (\<lambda>n subject data.
     if n < 5 then Inr \<lparr>rp_header = [(HeaderError, ErrorNotFound)], rp_data = None\<rparr>
     else Inr (the (handleGet ''inbox'' data (deliver_bus demo_bus0 msgs demo_server))))\<rparr>"

definition demo_bus :: stream_env where "demo_bus = demo_retained (sc_bus demo_set_client)"

lemma demo_retained_fields:
  "se_marshal (demo_retained msgs) = se_marshal demo_bus0" "se_publish (demo_retained msgs) = se_publish demo_bus0"
  "se_now (demo_retained msgs) = se_now demo_bus0" "se_encode_created (demo_retained msgs) = se_encode_created demo_bus0"
  by (simp_all add: demo_retained_def)

lemma demo_retained_set:
  assumes full: "validateOperation demo_client s = Inr full"
  shows "set_value (demo_retained msgs) s v demo_client = set_value demo_bus0 s v demo_client"
proof -
  have "getPayload (demo_retained msgs) full demo_client = getPayload demo_bus0 full demo_client"
    by (simp add: getPayload_def demo_retained_def demo_bus0_def demo_client_fields)
  then have sa: "shouldAnnounce (demo_retained msgs) full demo_client = shouldAnnounce demo_bus0 full demo_client"
    by (simp only: shouldAnnounce_def)
  have pm: "publishMessage (demo_retained msgs) = publishMessage demo_bus0"
    "encodeSubjectCreated (demo_retained msgs) = encodeSubjectCreated demo_bus0"
    by (simp_all only: fun_eq_iff publishMessage_def newMessage_def encodeSubjectCreated_def demo_retained_fields simp_thms)
  show ?thesis by (simp only: set_value_eq [OF full refl] sa pm announceCreated_def)
qed

lemma demo_retained_answers:
  "answered_by (demo_retained msgs) 5 system (deliver_bus (demo_retained msgs) msgs demo_server)"
proof -
  have "deliver_bus (demo_retained msgs) msgs demo_server = deliver_bus demo_bus0 msgs demo_server"
    by (simp add: deliver_bus_def demo_retained_def)
  then show ?thesis by (auto simp: answered_by_def handleGet_def demo_retained_def split: option.split)
qed

lemma demo_bus_set: "set_value demo_bus ''x'' (BoolValue True) demo_client = (demo_set_client, Inr ())"
proof -
  have full: "validateOperation demo_client ''x'' = Inr ''s.x''"
    unfolding demo_client_def by code_simp
  show ?thesis
    using demo_retained_set [OF full] demo_set by (simp add: demo_bus_def demo_set_client_def prod_eq_iff)
qed

lemma demo_proto: "proto_round_trip (demo_retained msgs)"
  unfolding proto_round_trip_def
proof (intro allI impI)
  fix m d
  assume d: "se_marshal (demo_retained msgs) m = Some d"
  show "\<exists>m'. se_unmarshal (demo_retained msgs) (copied d) = Some m' \<and> decodeAny (tm_value m') = decodeAny (tm_value m)"
  proof (cases "tm_value m")
    case None
    then show ?thesis using d by (simp add: demo_retained_def demo_bus0_def)
  next
    case (Some v)
    show ?thesis
    proof (cases v)
      case (StringValue t)
      then have "d = Some (2 # bytes_of_string t)"
        using d Some by (simp add: demo_retained_def demo_bus0_def)
      then show ?thesis
        using Some StringValue string_of_bytes_of_string [of t]
        by (cases t) (simp_all add: demo_retained_def demo_bus0_def copied_def append_nil_def bytes_of_string_def)
    qed (use d Some in \<open>auto simp: demo_retained_def demo_bus0_def copied_def append_nil_def\<close>)
  qed
qed

theorem get_returns_what_was_set_witness:
  "snd (get_value demo_bus KindBool ''x'' demo_set_client) = Inr (BoolValue True)"
proof -
  have bus: "sc_bus demo_set_client = sc_bus demo_set_client @ sc_bus demo_client"
    by (simp add: demo_client_fields)
  have calls: "sc_calls demo_set_client = 5"
    unfolding demo_set_client_def demo_client_def by code_simp
  note demo_retained_answers [of "sc_bus demo_set_client" "sc_system demo_client", folded demo_bus_def calls]
  from get_returns_what_was_set [OF demo_bus_set bus demo_proto [of "sc_bus demo_set_client", folded demo_bus_def] this]
  show ?thesis by (simp add: kind_of_def encodeValue_def)
qed

section \<open>Delivery\<close>


definition demo_times :: stream_env where
  "demo_times = demo_bus0\<lparr>se_unmarshal := (\<lambda>p. case p of
     Some [w] \<Rightarrow> Some \<lparr>tm_sequence = 0, tm_value = Some (BoolValue (w = 1)), tm_observed = Some (uint w),
                     tm_source = [], tm_id = [char_of (unat w)], tm_expires = None\<rparr>
   | _ \<Rightarrow> None)\<rparr>"



text \<open>C27. Whatever the workers' pace, the handled jobs of a subject followed by those waiting in the channel
  of its worker are the dispatched jobs of the subject in order, and no channel exceeds its capacity.\<close>

theorem exact_subscription_is_fifo:
  assumes "exact_run handler jobs ex"
  shows "filter (\<lambda>j. fst j = s) (rev (ex_handled ex)) @
      filter (\<lambda>j. fst j = s) (ex_workers ex ! workerIndex s DefaultInterestWorkers) =
      filter (\<lambda>j. fst j = s) jobs \<and>
    (\<forall>w\<in>set (ex_workers ex). length w \<le> interestWorkerQueue)"
  using exact_run_fifo [OF assms] by (auto simp: fifo_def of_subject_def in_set_conv_nth)

definition demo_exact :: exact_subscription where
  "demo_exact = projr (SubscribeExact ''n'')"

lemma demo_exact_new: "SubscribeExact ''n'' = Inr demo_exact"
  unfolding demo_exact_def by code_simp

lemma demo_exact_fields:
  "ex_workers demo_exact = replicate DefaultInterestWorkers []" "\<not> ex_stopped demo_exact"
  unfolding demo_exact_def by code_simp+

lemma demo_exact_run:
  "exact_run (\<lambda>_ _. None) ([] @ [(''x'', BoolValue True)]) (send_job ''x'' (BoolValue True) demo_exact)"
  using workerIndex_less [of "''x''"] demo_exact_fields
  by (intro exact_dispatch [OF exact_new [OF demo_exact_new]]) (auto simp: interestWorkerQueue_def dispatch_def)

theorem exact_subscription_is_fifo_witness:
  "filter (\<lambda>j. fst j = ''x'') (rev (ex_handled (send_job ''x'' (BoolValue True) demo_exact))) @
     filter (\<lambda>j. fst j = ''x'')
       (ex_workers (send_job ''x'' (BoolValue True) demo_exact) ! workerIndex ''x'' DefaultInterestWorkers) =
   [(''x'', BoolValue True)]"
  using exact_subscription_is_fifo [OF demo_exact_run, of "''x''"] by simp



section \<open>Two races\<close>

text \<open>
  A message that is delivered while \<open>Stop\<close> runs can panic: the callback chooses between the cancelled
  context and the closed channel.
\<close>

lemma message_during_stop_can_panic:
  "receive_exact demo_times demo_client True ''s.x'' (Some [1]) (stop_exact demo_exact) = None"
  unfolding demo_client_def demo_exact_def by code_simp

text \<open>
  \<open>Add\<close> between its subscription and its handling of the retained value: the newer value of a live message
  is handled by the worker in between, and the older retained value after it.
\<close>

lemma retained_value_after_live_one:
  "let (ex1, _) = watch_subject (\<lambda>_. True) ''s.x'' ''x'' demo_exact;
       read = snd (GetAny (demo_times\<lparr>se_request := (\<lambda>_ _ _. Inr \<lparr>rp_header = [], rp_data = Some [0]\<rparr>)\<rparr>)
         ''x'' demo_client);
       ex2 = the (receive_exact demo_times demo_client False ''s.x'' (Some [1]) ex1);
       ex3 = runWorker (\<lambda>_ _. None) (workerIndex ''x'' DefaultInterestWorkers) ex2
   in rev (ex_handled (fst (handle_retained (\<lambda>_ _. None) ''x'' (projr read) ex3))) =
        [(''x'', BoolValue True), (''x'', BoolValue False)]"
  unfolding demo_client_def demo_exact_def by code_simp

end
