(* ===== verification/Designer_Store.thy ===== *)
theory Designer_Store
  imports Stream_Subscribe Stream_Set Modbus_Config Alert_Protocol
begin

text \<open>
  \<open>designer/store.go\<close>, and the parts of \<open>designer/server.go\<close> all handlers share: the store of the designer is
  the stream client, a request is its decoded body, a response its status and body. The server keeps no
  state of its own. encoding/json enters as the codecs of the packages and the two encoders of driver
  configurations; \<open>net/http\<close> is left out: a handler is a function of the path value and the decoded body.
\<close>

section \<open>The store\<close>

record designer_env =
  dn_stream :: stream_env
  dn_alert :: codec
  dn_json :: address_json
  dn_modbus :: modbus_codec
  dn_of_connection_config :: "connection_config \<Rightarrow> string option"
  dn_of_address_config :: "address_config \<Rightarrow> string option"

definition store_ListSubjects ::
    "designer_env \<Rightarrow> string \<Rightarrow> stream_client \<Rightarrow> stream_client \<times> (go_error + string list)" where
  "store_ListSubjects env suf c = ListSubjects (dn_stream env) suf c"

definition store_ListSubjectsPrefix ::
    "designer_env \<Rightarrow> string \<Rightarrow> stream_client \<Rightarrow> stream_client \<times> (go_error + string list)" where
  "store_ListSubjectsPrefix env pre c = ListSubjectsPrefix (dn_stream env) pre c"

text \<open>\<open>stream.Get[string]\<close>\<close>

definition store_Get :: "designer_env \<Rightarrow> string \<Rightarrow> stream_client \<Rightarrow> stream_client \<times> (go_error + string)" where
  "store_Get env subject c =
     (case get_value (dn_stream env) KindString subject c of
        (c1, Inl e) \<Rightarrow> (c1, Inl e)
      | (c1, Inr v) \<Rightarrow> (c1, case v of StringValue s \<Rightarrow> Inr s | _ \<Rightarrow> Inr []))"

definition store_Set ::
    "designer_env \<Rightarrow> string \<Rightarrow> string \<Rightarrow> stream_client \<Rightarrow> stream_client \<times> (go_error + unit)" where
  "store_Set env subject v c = set_value (dn_stream env) subject (StringValue v) c"

definition store_SubscribeString ::
    "(string \<Rightarrow> bool) \<Rightarrow> string \<Rightarrow> stream_client \<Rightarrow> go_error + (value_kind \<times> subscription)" where
  "store_SubscribeString subscribes subject c =
     (case Subscribe subscribes c subject of Inl e \<Rightarrow> Inl e | Inr sub \<Rightarrow> Inr (KindString, sub))"

definition store_Subscribe ::
    "(string \<Rightarrow> bool) \<Rightarrow> string \<Rightarrow> hw_type \<Rightarrow> stream_client \<Rightarrow> go_error + (value_kind \<times> subscription)" where
  "store_Subscribe subscribes subject ty c =
     (let typed = (\<lambda>k. case Subscribe subscribes c subject of Inl e \<Rightarrow> Inl e | Inr sub \<Rightarrow> Inr (k, sub))
      in case ty of
           HwBool \<Rightarrow> typed KindBool
         | HwInt64 \<Rightarrow> typed KindInt
         | HwFloat64 \<Rightarrow> typed KindFloat
         | _ \<Rightarrow> Inl (errorf ''unsupported live value type %q'' [FStr (hw_type_name ty)]))"

section \<open>Requests and responses\<close>

record connection_record =
  cr_subject :: string
  cr_version :: int
  cr_driver :: string
  cr_enabled :: bool
  cr_config :: connection_config
  cr_address_count :: nat

record address_record =
  ar_subject :: string
  ar_version :: int
  ar_driver :: string
  ar_value_type :: hw_type
  ar_enabled :: bool
  ar_connection :: string
  ar_publish_on_change :: bool
  ar_config :: address_config
  ar_telemetry :: string

record alert_record =
  al_subject :: string
  al_state :: state

record alert_config_record =
  ak_subject :: string
  ak_config :: config
  ak_input :: string
  ak_output :: string

record alert_properties_record =
  ap_subject :: string
  ap_properties :: properties
  ap_references :: nat

text \<open>\<open>errorDetail\<close>: its code, its message as the error it prints, and the field it names.\<close>

datatype response_body =
    HealthBody
  | ErrorBody string go_error "string option"
  | ConnectionBody connection_record
  | ConnectionsBody "connection_record list"
  | AddressBody address_record
  | AddressesBody "address_record list"
  | AlertBody alert_record
  | AlertsBody "alert_record list"
  | AlertConfigBody alert_config_record
  | AlertConfigsBody "alert_config_record list"
  | AlertPropertiesBody alert_properties_record
  | AlertPropertiesListBody "alert_properties_record list"

type_synonym response = "nat \<times> response_body"

definition StatusOK :: nat where "StatusOK = 200"
definition StatusCreated :: nat where "StatusCreated = 201"
definition StatusBadRequest :: nat where "StatusBadRequest = 400"
definition StatusBadGateway :: nat where "StatusBadGateway = 502"

definition writeValidationError :: "string \<Rightarrow> go_error \<Rightarrow> response" where
  "writeValidationError field e = (StatusBadRequest, ErrorBody ''validation_error'' e (Some field))"

definition writeStoreError :: "go_error \<Rightarrow> response" where
  "writeStoreError e = (StatusBadGateway, ErrorBody ''store_error'' e None)"

text \<open>
  \<open>decodeRequest\<close>: the body is what the first \<open>Decode\<close> makes of it and whether nothing follows; \<open>handle\<close> is
  the rest of the handler.
\<close>

type_synonym 'a request_body = "(go_error + 'a) \<times> bool"

definition decodeRequest ::
    "'a request_body \<Rightarrow> ('a \<Rightarrow> 'c \<Rightarrow> 'c \<times> response) \<Rightarrow> 'c \<Rightarrow> 'c \<times> response" where
  "decodeRequest body handle c =
     (case body of
        (Inl e, _) \<Rightarrow> (c, writeValidationError ''request'' e)
      | (Inr item, complete) \<Rightarrow>
          if \<not> complete
          then (c, writeValidationError ''request'' (errors_new ''request must contain one JSON object''))
          else handle item c)"

text \<open>The start of the update handlers: the subject of the body, when there is one, is that of the path.\<close>

definition matchSubjects ::
    "string \<Rightarrow> string \<Rightarrow> ('c \<Rightarrow> 'c \<times> response) \<Rightarrow> 'c \<Rightarrow> 'c \<times> response" where
  "matchSubjects inBody inPath handle c =
     (if inBody \<noteq> [] \<and> inBody \<noteq> inPath
      then (c, writeValidationError ''subject'' (errors_new ''body subject must match the URL''))
      else handle c)"

definition validateSubjectSuffix :: "string \<Rightarrow> string \<Rightarrow> go_error + unit" where
  "validateSubjectSuffix subject suf =
     (if subject = [] \<or> trim_space subject \<noteq> subject
      then Inl (errors_new ''subject is required and cannot have surrounding whitespace'')
      else if \<not> has_suffix subject suf then Inl (errorf ''subject must end in %s'' [FStr suf])
      else if has_prefix subject ''.'' \<or> contains_str subject ''..'' \<or>
              contains_any subject [CHR '' '', CHR 0x09, CHR 0x0D, CHR 0x0A, CHR ''*'', CHR ''>'']
      then Inl (errors_new ''subject is not a valid relative NATS subject'')
      else Inr ())"

text \<open>The loop of the list handlers, which ends at the first record that cannot be loaded.\<close>

fun loadItems ::
    "(string \<Rightarrow> 'c \<Rightarrow> 'c \<times> (go_error + 'i)) \<Rightarrow> string list \<Rightarrow> 'i list \<Rightarrow> 'c \<Rightarrow> 'c \<times> (go_error + 'i list)" where
  "loadItems load [] items c = (c, Inr items)"
| "loadItems load (subject # rest) items c =
     (case load subject c of
        (c1, Inl e) \<Rightarrow> (c1, Inl (wrapf ''load %s: %w'' [FStr subject] e))
      | (c1, Inr item) \<Rightarrow> loadItems load rest (items @ [item]) c1)"

text \<open>
  The shape the list handlers share: list the subjects, then load them all; every error is a store error.
\<close>

definition listItems ::
    "('c \<Rightarrow> 'c \<times> (go_error + string list)) \<Rightarrow> (string \<Rightarrow> 'c \<Rightarrow> 'c \<times> (go_error + 'i)) \<Rightarrow>
     ('i list \<Rightarrow> response_body) \<Rightarrow> 'c \<Rightarrow> 'c \<times> response" where
  "listItems subjects load body c =
     (case subjects c of
        (c1, Inl e) \<Rightarrow> (c1, writeStoreError e)
      | (c1, Inr ss) \<Rightarrow>
          (case loadItems load ss [] c1 of
             (c2, Inl e) \<Rightarrow> (c2, writeStoreError e)
           | (c2, Inr items) \<Rightarrow> (c2, StatusOK, body items)))"

section \<open>Reading leaves the bus alone\<close>

text \<open>
  The contract of every operation that only reads: nothing is published, and the client's own tables stay
  as they are, so that it does not matter to later operations.
\<close>

definition untouched :: "stream_client \<Rightarrow> stream_client \<Rightarrow> bool" where
  "untouched c c' \<longleftrightarrow>
     sc_bus c' = sc_bus c \<and> sc_known c' = sc_known c \<and> sc_sequences c' = sc_sequences c \<and>
     sc_config c' = sc_config c \<and> sc_calls c \<le> sc_calls c'"

lemma untouched_refl [simp]: "untouched c c"
  by (simp add: untouched_def)

lemma untouched_trans: "untouched c c1 \<Longrightarrow> untouched c1 c2 \<Longrightarrow> untouched c c2"
  by (simp add: untouched_def)

locale reading =
  fixes operation :: "stream_client \<Rightarrow> stream_client \<times> 'r"
  assumes reads: "untouched c (fst (operation c))"
begin

lemma reads_bus: "sc_bus (fst (operation c)) = sc_bus c"
  using reads [of c] by (simp add: untouched_def)

lemma reads_system: "sc_system (fst (operation c)) = sc_system c"
  using reads [of c] by (simp add: untouched_def sc_system_def)

lemma reads_then: "untouched (fst (operation c)) c' \<Longrightarrow> untouched c c'"
  by (rule untouched_trans [OF reads])

end

interpretation get_reads: reading "get_value env k subject" for env k subject
  by unfold_locales (auto simp: untouched_def get_value_def getPayload_def call_client_def split: sum.split prod.split)

interpretation list_reads: reading "listSubjects env request" for env request
  by unfold_locales (auto simp: untouched_def listSubjects_def call_client_def split: option.split)

interpretation store_get_reads: reading "store_Get env subject" for env subject
proof unfold_locales
  show "untouched c (fst (store_Get env subject c))" for c
    using get_reads.reads [of c "dn_stream env" KindString subject]
    by (cases "get_value (dn_stream env) KindString subject c"; cases "snd (get_value (dn_stream env) KindString subject c)")
      (simp_all add: store_Get_def)
qed

interpretation store_list_reads: reading "store_ListSubjects env suf" for env suf
proof unfold_locales
  show "untouched c (fst (store_ListSubjects env suf c))" for c
    using list_reads.reads by (simp add: store_ListSubjects_def ListSubjects_def)
qed

interpretation store_prefix_reads: reading "store_ListSubjectsPrefix env pre" for env pre
proof unfold_locales
  show "untouched c (fst (store_ListSubjectsPrefix env pre c))" for c
    using list_reads.reads by (simp add: store_ListSubjectsPrefix_def ListSubjectsPrefix_def split: sum.split)
qed

lemma loadItems_reads:
  assumes "\<And>s c. untouched c (fst (load s c))"
  shows "untouched c (fst (loadItems load ss items c))"
proof (induction ss arbitrary: items c)
  case (Cons s ss)
  obtain c1 r where load: "load s c = (c1, r)" by fastforce
  then have "untouched c c1" using assms [of c s] by simp
  then show ?case using Cons.IH [of c1] load by (cases r) (auto intro: untouched_trans)
qed simp

lemma listItems_reads:
  assumes "\<And>c. untouched c (fst (subjects c))" and "\<And>s c. untouched c (fst (load s c))"
  shows "untouched c (fst (listItems subjects load body c))"
proof -
  obtain c1 r where subjects: "subjects c = (c1, r)" by fastforce
  then have c1: "untouched c c1" using assms(1) [of c] by simp
  show ?thesis
  proof (cases r)
    case (Inr ss)
    obtain c2 q where load: "loadItems load ss [] c1 = (c2, q)" by fastforce
    have "untouched c1 (fst (loadItems load ss [] c1))" by (rule loadItems_reads) (rule assms(2))
    then have "untouched c1 c2" by (simp add: load)
    then show ?thesis using untouched_trans [OF c1] subjects load Inr by (cases q) (simp_all add: listItems_def)
  qed (use c1 subjects in \<open>simp add: listItems_def\<close>)
qed

end
