(* ===== verification/Designer_Devices.thy ===== *)
theory Designer_Devices
  imports Designer_Store
begin

text \<open>
  \<open>designer/server.go\<close>: the handlers of connections and addresses. A handler takes the path value and the
  body, and returns the response beside the client.
\<close>

section \<open>Validation\<close>

definition zero_connection :: connection where
  "zero_connection =
     \<lparr>mc_url = [], mc_unit_id = 0, mc_byte_order = OrderOther [], mc_word_order = OrderOther [],
      mc_timeout = 0, mc_poll_interval = 0\<rparr>"

definition zero_descriptor :: descriptor where
  "zero_descriptor =
     \<lparr>ds_version = 0, ds_driver = [], ds_value_type = HwOther [], ds_enabled = False, ds_connection = [],
      ds_publish_on_change = False, ds_config = []\<rparr>"

text \<open>The record as far as it is completed before it is checked, and the descriptor stored for it.\<close>

definition normalizeConnection :: "connection_record \<Rightarrow> connection_record" where
  "normalizeConnection item0 =
     (let item1 = (if cr_version item0 = 0 then item0\<lparr>cr_version := descriptor_version\<rparr> else item0)
      in if cr_driver item1 = [] then item1\<lparr>cr_driver := ''modbus''\<rparr> else item1)"

definition connection_descriptor :: "connection_record \<Rightarrow> string \<Rightarrow> hw_connection" where
  "connection_descriptor item cfg =
     \<lparr>hc_version = cr_version item, hc_driver = cr_driver item, hc_enabled = cr_enabled item, hc_config = cfg\<rparr>"

definition validateConnection ::
    "designer_env \<Rightarrow> connection_record \<Rightarrow> go_error + (string \<times> connection_record)" where
  "validateConnection env item0 =
     (case validateSubjectSuffix (cr_subject item0) ''.config'' of
        Inl e \<Rightarrow> Inl e
      | Inr _ \<Rightarrow>
          (let item = normalizeConnection item0
           in case dn_of_connection_config env (cr_config item) of
                None \<Rightarrow> Inl (errors_new ''encode connection config'')
              | Some cfg \<Rightarrow>
                  (case marshal_hw_connection (dn_json env) (connection_descriptor item cfg) of
                     Inl e \<Rightarrow> Inl e
                   | Inr raw \<Rightarrow>
                       (case ParseConnection (dn_modbus env) (connection_descriptor item cfg) of
                          Inl e \<Rightarrow> Inl e | Inr _ \<Rightarrow> Inr (raw, item)))))"

text \<open>The function of the same name in \<open>modbus/config.go\<close>, again.\<close>

definition designer_valueTypeForEncoding :: "encoding \<Rightarrow> hw_type" where
  "designer_valueTypeForEncoding e =
     (if e = EncodingBool then HwBool
      else if e \<in> {EncodingInt16, EncodingUint16, EncodingInt32, EncodingUint32} then HwInt64
      else if e \<in> {EncodingFloat32, EncodingFloat64} then HwFloat64
      else HwOther [])"

text \<open>The same for an address.\<close>

definition normalizeAddress :: "address_record \<Rightarrow> address_record" where
  "normalizeAddress item0 =
     (let item1 = (if ar_version item0 = 0 then item0\<lparr>ar_version := descriptor_version\<rparr> else item0);
          item2 = (if ar_driver item1 = [] then item1\<lparr>ar_driver := ''modbus''\<rparr> else item1)
      in item2\<lparr>ar_value_type := designer_valueTypeForEncoding (ac_encoding (ar_config item2)),
               ar_telemetry := trim_suffix (ar_subject item2) ''.address''\<rparr>)"

definition address_descriptor :: "address_record \<Rightarrow> string \<Rightarrow> descriptor" where
  "address_descriptor item cfg =
     \<lparr>ds_version = ar_version item, ds_driver = ar_driver item, ds_value_type = ar_value_type item,
      ds_enabled = ar_enabled item, ds_connection = ar_connection item,
      ds_publish_on_change = ar_publish_on_change item, ds_config = cfg\<rparr>"

definition validateAddress :: "designer_env \<Rightarrow> address_record \<Rightarrow> go_error + (string \<times> address_record)" where
  "validateAddress env item0 =
     (case validateSubjectSuffix (ar_subject item0) ''.address'' of
        Inl e \<Rightarrow> Inl e
      | Inr _ \<Rightarrow>
          (let item = normalizeAddress item0
           in case dn_of_address_config env (ar_config item) of
                None \<Rightarrow> Inl (errors_new ''encode address config'')
              | Some cfg \<Rightarrow>
                  (case marshal_descriptor (dn_json env) (address_descriptor item cfg) of
                     Inl e \<Rightarrow> Inl e
                   | Inr raw \<Rightarrow>
                       (case ParsePoint (dn_modbus env) (address_descriptor item cfg) zero_connection of
                          Inl e \<Rightarrow> Inl e | Inr _ \<Rightarrow> Inr (raw, item)))))"

section \<open>Loading\<close>

definition connection_of_value :: "designer_env \<Rightarrow> string \<Rightarrow> string \<Rightarrow> go_error + connection_record" where
  "connection_of_value env subject v =
     (case parse_hw_connection (dn_json env) v of
        Inl e \<Rightarrow> Inl e
      | Inr d \<Rightarrow>
          (case ParseConnection (dn_modbus env) d of
             Inl e \<Rightarrow> Inl e
           | Inr _ \<Rightarrow>
               (case decodeConfig (mb_connection_config (dn_modbus env)) (hc_driver d) (hc_config d) of
                  Inl e \<Rightarrow> Inl e
                | Inr cfg \<Rightarrow>
                    Inr \<lparr>cr_subject = subject, cr_version = hc_version d, cr_driver = hc_driver d,
                         cr_enabled = hc_enabled d, cr_config = cfg, cr_address_count = 0\<rparr>)))"

definition address_of_value :: "designer_env \<Rightarrow> string \<Rightarrow> string \<Rightarrow> go_error + address_record" where
  "address_of_value env subject v =
     (case parse_descriptor (dn_json env) v of
        Inl e \<Rightarrow> Inl e
      | Inr d \<Rightarrow>
          (case decodeConfig (mb_address_config (dn_modbus env)) (ds_driver d) (ds_config d) of
             Inl e \<Rightarrow> Inl e
           | Inr cfg \<Rightarrow>
               (case ParsePoint (dn_modbus env) d zero_connection of
                  Inl e \<Rightarrow> Inl e
                | Inr _ \<Rightarrow>
                    Inr \<lparr>ar_subject = subject, ar_version = ds_version d, ar_driver = ds_driver d,
                         ar_value_type = ds_value_type d, ar_enabled = ds_enabled d,
                         ar_connection = ds_connection d, ar_publish_on_change = ds_publish_on_change d,
                         ar_config = cfg, ar_telemetry = trim_suffix subject ''.address''\<rparr>)))"

text \<open>A record is what the store has for its subject, decoded.\<close>

definition loadWith ::
    "designer_env \<Rightarrow> (string \<Rightarrow> string \<Rightarrow> go_error + 'i) \<Rightarrow> string \<Rightarrow> stream_client \<Rightarrow>
     stream_client \<times> (go_error + 'i)" where
  "loadWith env decode subject c =
     (case store_Get env subject c of (c1, Inl e) \<Rightarrow> (c1, Inl e) | (c1, Inr v) \<Rightarrow> (c1, decode subject v))"

definition loadConnection ::
    "designer_env \<Rightarrow> string \<Rightarrow> stream_client \<Rightarrow> stream_client \<times> (go_error + connection_record)" where
  "loadConnection env = loadWith env (connection_of_value env)"

definition loadAddress ::
    "designer_env \<Rightarrow> string \<Rightarrow> stream_client \<Rightarrow> stream_client \<times> (go_error + address_record)" where
  "loadAddress env = loadWith env (address_of_value env)"

text \<open>Addresses that cannot be loaded do not count.\<close>

definition count_of :: "(string \<times> nat) list \<Rightarrow> string \<Rightarrow> nat" where
  "count_of counts s = (case map_of counts s of None \<Rightarrow> 0 | Some n \<Rightarrow> n)"

definition count_more :: "string \<Rightarrow> (string \<times> nat) list \<Rightarrow> (string \<times> nat) list" where
  "count_more s counts = AList.update s (Suc (count_of counts s)) counts"

fun countAddresses ::
    "designer_env \<Rightarrow> string list \<Rightarrow> (string \<times> nat) list \<Rightarrow> stream_client \<Rightarrow> stream_client \<times> (string \<times> nat) list" where
  "countAddresses env [] counts c = (c, counts)"
| "countAddresses env (subject # rest) counts c =
     (case loadAddress env subject c of
        (c1, Inl _) \<Rightarrow> countAddresses env rest counts c1
      | (c1, Inr item) \<Rightarrow> countAddresses env rest (count_more (ar_connection item) counts) c1)"

definition connectionAddressCounts ::
    "designer_env \<Rightarrow> stream_client \<Rightarrow> stream_client \<times> (go_error + (string \<times> nat) list)" where
  "connectionAddressCounts env c =
     (case store_ListSubjects env ''.address'' c of
        (c1, Inl e) \<Rightarrow> (c1, Inl e)
      | (c1, Inr subjects) \<Rightarrow> (case countAddresses env subjects [] c1 of (c2, counts) \<Rightarrow> (c2, Inr counts)))"

section \<open>Handlers\<close>

definition listConnections :: "designer_env \<Rightarrow> stream_client \<Rightarrow> stream_client \<times> response" where
  "listConnections env c =
     (case store_ListSubjects env ''.config'' c of
        (c1, Inl e) \<Rightarrow> (c1, writeStoreError e)
      | (c1, Inr subjects) \<Rightarrow>
          (case connectionAddressCounts env c1 of
             (c2, Inl e) \<Rightarrow> (c2, writeStoreError e)
           | (c2, Inr counts) \<Rightarrow>
               listItems (\<lambda>c. (c, Inr subjects))
                 (\<lambda>s c. case loadConnection env s c of
                    (c', Inl e) \<Rightarrow> (c', Inl e)
                  | (c', Inr item) \<Rightarrow> (c', Inr (item\<lparr>cr_address_count := count_of counts s\<rparr>)))
                 ConnectionsBody c2))"

definition getConnection :: "designer_env \<Rightarrow> string \<Rightarrow> stream_client \<Rightarrow> stream_client \<times> response" where
  "getConnection env path c =
     (case loadConnection env path c of
        (c1, Inl e) \<Rightarrow> (c1, writeStoreError e)
      | (c1, Inr item) \<Rightarrow>
          (case connectionAddressCounts env c1 of
             (c2, Inl e) \<Rightarrow> (c2, writeStoreError e)
           | (c2, Inr counts) \<Rightarrow>
               (c2, StatusOK, ConnectionBody (item\<lparr>cr_address_count := count_of counts (cr_subject item)\<rparr>))))"

definition saveConnection ::
    "designer_env \<Rightarrow> nat \<Rightarrow> connection_record \<Rightarrow> stream_client \<Rightarrow> stream_client \<times> response" where
  "saveConnection env status item c =
     (case validateConnection env item of
        Inl e \<Rightarrow> (c, writeValidationError ''connection'' e)
      | Inr (raw, normalized) \<Rightarrow>
          (case store_Set env (cr_subject normalized) raw c of
             (c1, Inl e) \<Rightarrow> (c1, writeStoreError e)
           | (c1, Inr _) \<Rightarrow> (c1, status, ConnectionBody normalized)))"

definition createConnection ::
    "designer_env \<Rightarrow> connection_record request_body \<Rightarrow> stream_client \<Rightarrow> stream_client \<times> response" where
  "createConnection env body = decodeRequest body (saveConnection env StatusCreated)"

definition updateConnection ::
    "designer_env \<Rightarrow> string \<Rightarrow> connection_record request_body \<Rightarrow> stream_client \<Rightarrow> stream_client \<times> response" where
  "updateConnection env path body =
     decodeRequest body (\<lambda>item. matchSubjects (cr_subject item) path
       (saveConnection env StatusOK (item\<lparr>cr_subject := path\<rparr>)))"

definition disableConnection :: "designer_env \<Rightarrow> string \<Rightarrow> stream_client \<Rightarrow> stream_client \<times> response" where
  "disableConnection env path c =
     (case loadConnection env path c of
        (c1, Inl e) \<Rightarrow> (c1, writeStoreError e)
      | (c1, Inr item) \<Rightarrow> saveConnection env StatusOK (item\<lparr>cr_enabled := False\<rparr>) c1)"

definition listAddresses :: "designer_env \<Rightarrow> stream_client \<Rightarrow> stream_client \<times> response" where
  "listAddresses env = listItems (store_ListSubjects env ''.address'') (loadAddress env) AddressesBody"

definition getAddress :: "designer_env \<Rightarrow> string \<Rightarrow> stream_client \<Rightarrow> stream_client \<times> response" where
  "getAddress env path c =
     (case loadAddress env path c of
        (c1, Inl e) \<Rightarrow> (c1, writeStoreError e) | (c1, Inr item) \<Rightarrow> (c1, StatusOK, AddressBody item))"

text \<open>What the connection an address names has to be, and the address together with it.\<close>

definition checkAddressConnection :: "designer_env \<Rightarrow> string \<Rightarrow> string \<Rightarrow> response option" where
  "checkAddressConnection env raw connectionRaw =
     (case parse_hw_connection (dn_json env) connectionRaw of
        Inl e \<Rightarrow> Some (writeValidationError ''connection'' e)
      | Inr connectionDescriptor \<Rightarrow>
          (case ParseConnection (dn_modbus env) connectionDescriptor of
             Inl e \<Rightarrow> Some (writeValidationError ''connection'' e)
           | Inr conn \<Rightarrow>
               (let d = (case parse_descriptor (dn_json env) raw of Inl _ \<Rightarrow> zero_descriptor | Inr d \<Rightarrow> d)
                in case ParsePoint (dn_modbus env) d conn of
                     Inl e \<Rightarrow> Some (writeValidationError ''address'' e) | Inr _ \<Rightarrow> None)))"

definition saveAddress ::
    "designer_env \<Rightarrow> nat \<Rightarrow> address_record \<Rightarrow> stream_client \<Rightarrow> stream_client \<times> response" where
  "saveAddress env status item c =
     (case validateAddress env item of
        Inl e \<Rightarrow> (c, writeValidationError ''address'' e)
      | Inr (raw, normalized) \<Rightarrow>
          (case store_Get env (ar_connection normalized) c of
             (c1, Inl _) \<Rightarrow>
               (c1, writeValidationError ''connection'' (errors_new ''referenced connection does not exist''))
           | (c1, Inr connectionRaw) \<Rightarrow>
               (case checkAddressConnection env raw connectionRaw of
                  Some refused \<Rightarrow> (c1, refused)
                | None \<Rightarrow>
                    (case store_Set env (ar_subject normalized) raw c1 of
                       (c2, Inl e) \<Rightarrow> (c2, writeStoreError e)
                     | (c2, Inr _) \<Rightarrow> (c2, status, AddressBody normalized)))))"

definition createAddress ::
    "designer_env \<Rightarrow> address_record request_body \<Rightarrow> stream_client \<Rightarrow> stream_client \<times> response" where
  "createAddress env body = decodeRequest body (saveAddress env StatusCreated)"

definition updateAddress ::
    "designer_env \<Rightarrow> string \<Rightarrow> address_record request_body \<Rightarrow> stream_client \<Rightarrow> stream_client \<times> response" where
  "updateAddress env path body =
     decodeRequest body (\<lambda>item. matchSubjects (ar_subject item) path
       (saveAddress env StatusOK (item\<lparr>ar_subject := path\<rparr>)))"

definition disableAddress :: "designer_env \<Rightarrow> string \<Rightarrow> stream_client \<Rightarrow> stream_client \<times> response" where
  "disableAddress env path c =
     (case loadAddress env path c of
        (c1, Inl e) \<Rightarrow> (c1, writeStoreError e)
      | (c1, Inr item) \<Rightarrow> saveAddress env StatusOK (item\<lparr>ar_enabled := False\<rparr>) c1)"

section \<open>The reading handlers\<close>

interpretation load_reads: reading "loadWith env decode subject" for env decode subject
proof unfold_locales
  show "untouched c (fst (loadWith env decode subject c))" for c
    using store_get_reads.reads [of c env subject]
    by (cases "store_Get env subject c"; cases "snd (store_Get env subject c)") (simp_all add: loadWith_def)
qed

lemma countAddresses_reads: "untouched c (fst (countAddresses env ss counts c))"
proof (induction ss arbitrary: counts c)
  case (Cons s ss)
  obtain c1 r where load: "loadAddress env s c = (c1, r)" by fastforce
  then have "untouched c c1"
    using load_reads.reads [of c env "address_of_value env" s] by (simp add: loadAddress_def)
  then show ?case using Cons.IH [where c = c1] load by (cases r) (auto intro: untouched_trans)
qed simp

interpretation counts_read: reading "connectionAddressCounts env" for env
proof unfold_locales
  fix c
  obtain c1 r where l: "store_ListSubjects env ''.address'' c = (c1, r)" by fastforce
  then have c1: "untouched c c1" using store_list_reads.reads [of c env "''.address''"] by simp
  show "untouched c (fst (connectionAddressCounts env c))"
  proof (cases r)
    case (Inr ss)
    have "untouched c (fst (countAddresses env ss [] c1))"
      by (rule untouched_trans [OF c1 countAddresses_reads])
    then show ?thesis
      using l Inr by (cases "countAddresses env ss [] c1") (simp add: connectionAddressCounts_def)
  qed (use c1 l in \<open>simp add: connectionAddressCounts_def\<close>)
qed

end
