(* ===== verification/Designer_Alerts.thy ===== *)
theory Designer_Alerts
  imports Designer_Devices
begin

text \<open>
  \<open>designer/alerts.go\<close>, \<open>designer/alert_configs.go\<close> and \<open>designer/alert_properties.go\<close>: the handlers of alert
  states, alert configurations and alert properties.
\<close>

section \<open>Alerts\<close>

definition loadAlert ::
    "designer_env \<Rightarrow> string \<Rightarrow> stream_client \<Rightarrow> stream_client \<times> (go_error + alert_record)" where
  "loadAlert env subject c =
     (case validateSubjectSuffix subject ''.alert'' of
        Inl e \<Rightarrow> (c, Inl e)
      | Inr _ \<Rightarrow>
          loadWith env (\<lambda>s raw. case ParseState (dn_alert env) raw of
             Inl e \<Rightarrow> Inl e | Inr st \<Rightarrow> Inr \<lparr>al_subject = s, al_state = st\<rparr>) subject c)"

definition listAlerts :: "designer_env \<Rightarrow> stream_client \<Rightarrow> stream_client \<times> response" where
  "listAlerts env = listItems (store_ListSubjects env ''.alert'') (loadAlert env) AlertsBody"

definition acknowledgeAlert :: "designer_env \<Rightarrow> string \<Rightarrow> stream_client \<Rightarrow> stream_client \<times> response" where
  "acknowledgeAlert env subject c =
     (case validateSubjectSuffix subject ''.alert'' of
        Inl e \<Rightarrow> (c, writeValidationError ''subject'' e)
      | Inr _ \<Rightarrow>
          (case loadAlert env subject c of
             (c1, Inl e) \<Rightarrow> (c1, writeStoreError e)
           | (c1, Inr item) \<Rightarrow>
               if \<not> st_pending (al_state item)
               then (c1, writeValidationError ''alert'' (errors_new ''only pending alerts can be acknowledged''))
               else
                 (let item1 = item\<lparr>al_state := (al_state item)\<lparr>st_acknowledged := True\<rparr>\<rparr>
                  in case encode_state (dn_alert env) (al_state item1) of
                       None \<Rightarrow> (c1, writeValidationError ''alert'' (errors_new ''encode alert state''))
                     | Some data \<Rightarrow>
                         (case store_Set env subject data c1 of
                            (c2, Inl e) \<Rightarrow> (c2, writeStoreError e)
                          | (c2, Inr _) \<Rightarrow> (c2, StatusOK, AlertBody item1)))))"

section \<open>Configurations\<close>

definition alert_config_of_value ::
    "designer_env \<Rightarrow> string \<Rightarrow> string \<Rightarrow> string \<Rightarrow> string \<Rightarrow> go_error + alert_config_record" where
  "alert_config_of_value env input output subject raw =
     (case ParseConfig (dn_alert env) raw of
        Inl e \<Rightarrow> Inl e
      | Inr cfg \<Rightarrow>
          (case ValidateForSubject cfg subject of
             Inl e \<Rightarrow> Inl e
           | Inr _ \<Rightarrow> Inr \<lparr>ak_subject = subject, ak_config = cfg, ak_input = input, ak_output = output\<rparr>))"

definition loadAlertConfig ::
    "designer_env \<Rightarrow> string \<Rightarrow> stream_client \<Rightarrow> stream_client \<times> (go_error + alert_config_record)" where
  "loadAlertConfig env subject c =
     (case InputSubject subject of
        Inl e \<Rightarrow> (c, Inl e)
      | Inr input \<Rightarrow>
          (case OutputSubject subject of
             Inl e \<Rightarrow> (c, Inl e)
           | Inr output \<Rightarrow> loadWith env (alert_config_of_value env input output) subject c))"

text \<open>The errors of \<open>InputSubject\<close> and \<open>OutputSubject\<close> are dropped, which leaves the empty string.\<close>

definition value_or_empty :: "go_error + string \<Rightarrow> string" where
  "value_or_empty r = (case r of Inl _ \<Rightarrow> [] | Inr s \<Rightarrow> s)"

definition saveAlertConfig ::
    "designer_env \<Rightarrow> nat \<Rightarrow> alert_config_record \<Rightarrow> stream_client \<Rightarrow> stream_client \<times> response" where
  "saveAlertConfig env status item0 c =
     (let item1 = (if cf_version (ak_config item0) = 0
                   then item0\<lparr>ak_config := (ak_config item0)\<lparr>cf_version := CurrentVersion\<rparr>\<rparr> else item0)
      in case ValidateForSubject (ak_config item1) (ak_subject item1) of
           Inl e \<Rightarrow> (c, writeValidationError ''config'' e)
         | Inr _ \<Rightarrow>
             (case MarshalConfig (dn_alert env) (ak_config item1) of
                Inl e \<Rightarrow> (c, writeValidationError ''config'' e)
              | Inr raw \<Rightarrow>
                  (let item = item1\<lparr>ak_input := value_or_empty (InputSubject (ak_subject item1)),
                                    ak_output := value_or_empty (OutputSubject (ak_subject item1))\<rparr>
                   in case store_Set env (ak_subject item) raw c of
                        (c1, Inl e) \<Rightarrow> (c1, writeStoreError e)
                      | (c1, Inr _) \<Rightarrow> (c1, status, AlertConfigBody item))))"

definition listAlertConfigs :: "designer_env \<Rightarrow> stream_client \<Rightarrow> stream_client \<times> response" where
  "listAlertConfigs env = listItems (store_ListSubjects env ''.alert_config'') (loadAlertConfig env) AlertConfigsBody"

definition getAlertConfig :: "designer_env \<Rightarrow> string \<Rightarrow> stream_client \<Rightarrow> stream_client \<times> response" where
  "getAlertConfig env path c =
     (case loadAlertConfig env path c of
        (c1, Inl e) \<Rightarrow> (c1, writeStoreError e) | (c1, Inr item) \<Rightarrow> (c1, StatusOK, AlertConfigBody item))"

definition createAlertConfig ::
    "designer_env \<Rightarrow> alert_config_record request_body \<Rightarrow> stream_client \<Rightarrow> stream_client \<times> response" where
  "createAlertConfig env body = decodeRequest body (saveAlertConfig env StatusCreated)"

definition updateAlertConfig ::
    "designer_env \<Rightarrow> string \<Rightarrow> alert_config_record request_body \<Rightarrow> stream_client \<Rightarrow> stream_client \<times> response" where
  "updateAlertConfig env path body =
     decodeRequest body (\<lambda>item. matchSubjects (ak_subject item) path
       (saveAlertConfig env StatusOK (item\<lparr>ak_subject := path\<rparr>)))"

definition disableAlertConfig :: "designer_env \<Rightarrow> string \<Rightarrow> stream_client \<Rightarrow> stream_client \<times> response" where
  "disableAlertConfig env path c =
     (case loadAlertConfig env path c of
        (c1, Inl e) \<Rightarrow> (c1, writeStoreError e)
      | (c1, Inr item) \<Rightarrow>
          saveAlertConfig env StatusOK (item\<lparr>ak_config := (ak_config item)\<lparr>cf_enabled := False\<rparr>\<rparr>) c1)"

section \<open>Properties\<close>

definition loadAlertProperties ::
    "designer_env \<Rightarrow> string \<Rightarrow> stream_client \<Rightarrow> stream_client \<times> (go_error + alert_properties_record)" where
  "loadAlertProperties env subject c =
     (case ValidatePropertiesSubject subject of
        Inl e \<Rightarrow> (c, Inl e)
      | Inr _ \<Rightarrow>
          loadWith env (\<lambda>s raw. case ParseProperties (dn_alert env) raw of
             Inl e \<Rightarrow> Inl e | Inr p \<Rightarrow> Inr \<lparr>ap_subject = s, ap_properties = p, ap_references = 0\<rparr>) subject c)"

text \<open>The properties a configuration refers to, once for each mapping or interval.\<close>

definition references_of :: "config \<Rightarrow> string list" where
  "references_of cfg =
     (case cf_binary cfg of
        None \<Rightarrow> [] | Some b \<Rightarrow> filter (\<lambda>p. p \<noteq> []) [mp_property (bc_true b), mp_property (bc_false b)]) @
     (case cf_value cfg of
        None \<Rightarrow> [] | Some v \<Rightarrow> filter (\<lambda>p. p \<noteq> []) (map iv_property (vc_intervals v)))"

fun countReferences ::
    "designer_env \<Rightarrow> string list \<Rightarrow> (string \<times> nat) list \<Rightarrow> stream_client \<Rightarrow>
     stream_client \<times> (go_error + (string \<times> nat) list)" where
  "countReferences env [] counts c = (c, Inr counts)"
| "countReferences env (subject # rest) counts c =
     (case store_Get env subject c of
        (c1, Inl e) \<Rightarrow> (c1, Inl e)
      | (c1, Inr raw) \<Rightarrow>
          countReferences env rest
            (case ParseConfig (dn_alert env) raw of
               Inl _ \<Rightarrow> counts | Inr cfg \<Rightarrow> fold count_more (references_of cfg) counts) c1)"

definition alertPropertyReferenceCounts ::
    "designer_env \<Rightarrow> stream_client \<Rightarrow> stream_client \<times> (go_error + (string \<times> nat) list)" where
  "alertPropertyReferenceCounts env c =
     (case store_ListSubjects env ''.alert_config'' c of
        (c1, Inl e) \<Rightarrow> (c1, Inl e) | (c1, Inr subjects) \<Rightarrow> countReferences env subjects [] c1)"

definition saveAlertProperties ::
    "designer_env \<Rightarrow> nat \<Rightarrow> alert_properties_record \<Rightarrow> stream_client \<Rightarrow> stream_client \<times> response" where
  "saveAlertProperties env status item0 c =
     (case ValidatePropertiesSubject (ap_subject item0) of
        Inl e \<Rightarrow> (c, writeValidationError ''subject'' e)
      | Inr _ \<Rightarrow>
          (let item = (if pr_version (ap_properties item0) = 0
                       then item0\<lparr>ap_properties := (ap_properties item0)\<lparr>pr_version := CurrentVersion\<rparr>\<rparr>
                       else item0)
           in case MarshalProperties (dn_alert env) (ap_properties item) of
                Inl e \<Rightarrow> (c, writeValidationError ''properties'' e)
              | Inr raw \<Rightarrow>
                  (case store_Set env (ap_subject item) raw c of
                     (c1, Inl e) \<Rightarrow> (c1, writeStoreError e)
                   | (c1, Inr _) \<Rightarrow> (c1, status, AlertPropertiesBody item))))"

definition listAlertProperties :: "designer_env \<Rightarrow> stream_client \<Rightarrow> stream_client \<times> response" where
  "listAlertProperties env c =
     (case store_ListSubjectsPrefix env ''AlertProperties.'' c of
        (c1, Inl e) \<Rightarrow> (c1, writeStoreError e)
      | (c1, Inr subjects) \<Rightarrow>
          (case alertPropertyReferenceCounts env c1 of
             (c2, Inl e) \<Rightarrow> (c2, writeStoreError e)
           | (c2, Inr counts) \<Rightarrow>
               listItems (\<lambda>c. (c, Inr subjects))
                 (\<lambda>s c. case loadAlertProperties env s c of
                    (c', Inl e) \<Rightarrow> (c', Inl e)
                  | (c', Inr item) \<Rightarrow> (c', Inr (item\<lparr>ap_references := count_of counts s\<rparr>)))
                 AlertPropertiesListBody c2))"

definition getAlertProperties :: "designer_env \<Rightarrow> string \<Rightarrow> stream_client \<Rightarrow> stream_client \<times> response" where
  "getAlertProperties env path c =
     (case loadAlertProperties env path c of
        (c1, Inl e) \<Rightarrow> (c1, writeStoreError e)
      | (c1, Inr item) \<Rightarrow>
          (case alertPropertyReferenceCounts env c1 of
             (c2, Inl e) \<Rightarrow> (c2, writeStoreError e)
           | (c2, Inr counts) \<Rightarrow>
               (c2, StatusOK, AlertPropertiesBody (item\<lparr>ap_references := count_of counts (ap_subject item)\<rparr>))))"

definition createAlertProperties ::
    "designer_env \<Rightarrow> alert_properties_record request_body \<Rightarrow> stream_client \<Rightarrow> stream_client \<times> response" where
  "createAlertProperties env body = decodeRequest body (saveAlertProperties env StatusCreated)"

definition updateAlertProperties ::
    "designer_env \<Rightarrow> string \<Rightarrow> alert_properties_record request_body \<Rightarrow> stream_client \<Rightarrow> stream_client \<times> response" where
  "updateAlertProperties env path body =
     decodeRequest body (\<lambda>item. matchSubjects (ap_subject item) path
       (saveAlertProperties env StatusOK (item\<lparr>ap_subject := path\<rparr>)))"

section \<open>Routes\<close>

datatype request =
    Health
  | ListConnections | GetConnection string | DeleteConnection string
  | PostConnection "connection_record request_body" | PutConnection string "connection_record request_body"
  | ListAddresses | GetAddress string | DeleteAddress string
  | PostAddress "address_record request_body" | PutAddress string "address_record request_body"
  | ListAlerts | AcknowledgeAlert string
  | ListAlertProperties | GetAlertProperties string
  | PostAlertProperties "alert_properties_record request_body"
  | PutAlertProperties string "alert_properties_record request_body"
  | ListAlertConfigs | GetAlertConfig string | DeleteAlertConfig string
  | PostAlertConfig "alert_config_record request_body" | PutAlertConfig string "alert_config_record request_body"

definition serve :: "designer_env \<Rightarrow> request \<Rightarrow> stream_client \<Rightarrow> stream_client \<times> response" where
  "serve env req c =
     (case req of
        Health \<Rightarrow> (c, StatusOK, HealthBody)
      | ListConnections \<Rightarrow> listConnections env c
      | GetConnection path \<Rightarrow> getConnection env path c
      | DeleteConnection path \<Rightarrow> disableConnection env path c
      | PostConnection body \<Rightarrow> createConnection env body c
      | PutConnection path body \<Rightarrow> updateConnection env path body c
      | ListAddresses \<Rightarrow> listAddresses env c
      | GetAddress path \<Rightarrow> getAddress env path c
      | DeleteAddress path \<Rightarrow> disableAddress env path c
      | PostAddress body \<Rightarrow> createAddress env body c
      | PutAddress path body \<Rightarrow> updateAddress env path body c
      | ListAlerts \<Rightarrow> listAlerts env c
      | AcknowledgeAlert path \<Rightarrow> acknowledgeAlert env path c
      | ListAlertProperties \<Rightarrow> listAlertProperties env c
      | GetAlertProperties path \<Rightarrow> getAlertProperties env path c
      | PostAlertProperties body \<Rightarrow> createAlertProperties env body c
      | PutAlertProperties path body \<Rightarrow> updateAlertProperties env path body c
      | ListAlertConfigs \<Rightarrow> listAlertConfigs env c
      | GetAlertConfig path \<Rightarrow> getAlertConfig env path c
      | DeleteAlertConfig path \<Rightarrow> disableAlertConfig env path c
      | PostAlertConfig body \<Rightarrow> createAlertConfig env body c
      | PutAlertConfig path body \<Rightarrow> updateAlertConfig env path body c)"

definition is_read :: "request \<Rightarrow> bool" where
  "is_read req \<longleftrightarrow>
     (case req of
        Health \<Rightarrow> True | ListConnections \<Rightarrow> True | GetConnection _ \<Rightarrow> True | ListAddresses \<Rightarrow> True
      | GetAddress _ \<Rightarrow> True | ListAlerts \<Rightarrow> True | ListAlertProperties \<Rightarrow> True | GetAlertProperties _ \<Rightarrow> True
      | ListAlertConfigs \<Rightarrow> True | GetAlertConfig _ \<Rightarrow> True | _ \<Rightarrow> False)"

end
