(* ===== verification/Designer_Spec.thy ===== *)
theory Designer_Spec
  imports Designer_Alerts
begin

text \<open>
  What the handlers of the designer do to the bus: a request that only reads publishes nothing, a request
  that is refused publishes nothing, and a request that is granted publishes one value, the encoding of the
  record in the response, which passes the checks of the service that will read it.
\<close>

section \<open>Reading requests\<close>

interpretation alert_reads: reading "loadAlert env subject" for env subject
  by unfold_locales (simp add: loadAlert_def load_reads.reads split: sum.split)

interpretation config_reads: reading "loadAlertConfig env subject" for env subject
  by unfold_locales (simp add: loadAlertConfig_def load_reads.reads split: sum.split)

interpretation properties_reads: reading "loadAlertProperties env subject" for env subject
  by unfold_locales (simp add: loadAlertProperties_def load_reads.reads split: sum.split)

interpretation connection_reads: reading "loadConnection env subject" for env subject
  by unfold_locales (simp add: loadConnection_def load_reads.reads)

interpretation address_reads: reading "loadAddress env subject" for env subject
  by unfold_locales (simp add: loadAddress_def load_reads.reads)

lemma countReferences_reads: "untouched c (fst (countReferences env ss counts c))"
proof (induction ss arbitrary: counts c)
  case (Cons s ss)
  obtain c1 r where get: "store_Get env s c = (c1, r)" by fastforce
  then have "untouched c c1" using store_get_reads.reads [of c env s] by simp
  then show ?case using Cons.IH [where c = c1] get by (cases r) (auto intro: untouched_trans)
qed simp

text \<open>One step of a handler: what follows a read that left the client untouched.\<close>

lemma reads_case:
  assumes "untouched c (fst p)"
    and "\<And>c1 e. p = (c1, Inl e) \<Longrightarrow> untouched c1 (fst (f c1 e))"
    and "\<And>c1 x. p = (c1, Inr x) \<Longrightarrow> untouched c1 (fst (g c1 x))"
  shows "untouched c (fst (case p of (c1, Inl e) \<Rightarrow> f c1 e | (c1, Inr x) \<Rightarrow> g c1 x))"
proof (cases p)
  case (Pair c1 r)
  with assms show ?thesis by (cases r) (auto intro: untouched_trans)
qed

interpretation references_read: reading "alertPropertyReferenceCounts env" for env
  by unfold_locales
    (auto simp: alertPropertyReferenceCounts_def countReferences_reads intro!: reads_case store_list_reads.reads)

lemmas read_rules =
  reads_case store_list_reads.reads store_prefix_reads.reads alert_reads.reads config_reads.reads
  properties_reads.reads connection_reads.reads address_reads.reads counts_read.reads references_read.reads

lemma read_requests:
  assumes "is_read req"
  shows "untouched c (fst (serve env req c))"
  using assms
  by (cases req)
    (auto simp: is_read_def serve_def listConnections_def getConnection_def listAddresses_def getAddress_def
      listAlerts_def listAlertConfigs_def getAlertConfig_def listAlertProperties_def getAlertProperties_def
      intro!: listItems_reads read_rules)

section \<open>Writing requests\<close>

text \<open>
  A value published for a subject, with at most an announcement of the subject after it; and how a handler
  comes to that, by a \<open>Set\<close> after some reads.
\<close>

definition published :: "stream_client \<Rightarrow> stream_client \<Rightarrow> string \<Rightarrow> string \<Rightarrow> bool" where
  "published c c' subject raw \<longleftrightarrow>
     (\<exists>ann m. sc_bus c' = ann @ (sc_system c @ ''.'' @ trim_space subject, m) # sc_bus c \<and>
        tm_value m = Some (StringValue raw) \<and>
        (\<forall>(s, a)\<in>set ann. s = sc_system c @ ''.'' @ SubjectCreatedSubject))"

definition stored :: "designer_env \<Rightarrow> stream_client \<Rightarrow> stream_client \<Rightarrow> string \<Rightarrow> string \<Rightarrow> bool" where
  "stored env c c' subject raw \<longleftrightarrow> (\<exists>c1. untouched c c1 \<and> store_Set env subject raw c1 = (c', Inr ()))"

lemma set_value_error_bus:
  assumes "set_value env subject v c = (c', Inl e)"
  shows "sc_bus c' = sc_bus c"
proof (cases "validateOperation c subject")
  case (Inl e')
  then show ?thesis using assms by (subst (asm) set_value.simps) simp
next
  case (Inr full)
  obtain c1 announce where sa: "shouldAnnounce env full c = (c1, announce)" by fastforce
  obtain c2 r where pm: "publishMessage env full v c1 = (c2, r)" by fastforce
  have "sc_bus c1 = sc_bus c" using shouldAnnounce_frame(1) [of env full c] by (simp add: sa)
  moreover have "r = Inl e" "c' = c2"
    using assms by (auto simp: set_value_eq [OF Inr refl] sa pm split: sum.splits)
  ultimately show ?thesis using publishMessage_bus [of env full v c1 e] pm by simp
qed

lemma store_Set_published: "store_Set env subject raw c = (c', Inr ()) \<Longrightarrow> published c c' subject raw"
  using set_value_bus [of "dn_stream env" subject "StringValue raw" c c']
  unfolding published_def store_Set_def registry_subject_def
  by (fastforce simp: encodeValue_def)

lemma stored_published: "stored env c c' subject raw \<Longrightarrow> published c c' subject raw"
  by (auto simp: stored_def untouched_def sc_system_def published_def dest!: store_Set_published)

lemma store_Set_error: "store_Set env subject raw c = (c', Inl e) \<Longrightarrow> sc_bus c' = sc_bus c"
  unfolding store_Set_def by (rule set_value_error_bus)

text \<open>What a granted request confirms: the record in the response and the value published for it.\<close>

definition confirms :: "designer_env \<Rightarrow> response_body \<Rightarrow> string \<Rightarrow> string \<Rightarrow> bool" where
  "confirms env body subject raw \<longleftrightarrow>
     (case body of
        ConnectionBody r \<Rightarrow> cr_subject r = subject \<and> validateConnection env r = Inr (raw, r)
      | AddressBody r \<Rightarrow> ar_subject r = subject \<and> validateAddress env r = Inr (raw, r)
      | AlertBody r \<Rightarrow>
          al_subject r = subject \<and> st_pending (al_state r) \<and> st_acknowledged (al_state r) \<and>
          encode_state (dn_alert env) (al_state r) = Some raw
      | AlertConfigBody r \<Rightarrow>
          ak_subject r = subject \<and> ak_input r = value_or_empty (InputSubject subject) \<and>
          ak_output r = value_or_empty (OutputSubject subject) \<and> ok (ValidateForSubject (ak_config r) subject) \<and>
          MarshalConfig (dn_alert env) (ak_config r) = Inr raw
      | AlertPropertiesBody r \<Rightarrow>
          ap_subject r = subject \<and> ok (ValidatePropertiesSubject subject) \<and>
          MarshalProperties (dn_alert env) (ap_properties r) = Inr raw
      | _ \<Rightarrow> False)"

definition answered :: "designer_env \<Rightarrow> stream_client \<Rightarrow> stream_client \<times> response \<Rightarrow> bool" where
  "answered env c out \<longleftrightarrow>
     (case out of (c', status, body) \<Rightarrow>
        (if status < 400
         then \<exists>subject raw. stored env c c' subject raw \<and> confirms env body subject raw
         else sc_bus c' = sc_bus c))"

lemma answered_refused [simp]:
  "answered env c (c, writeValidationError field e)" "answered env c (c, writeStoreError e)"
  by (simp_all add: answered_def writeValidationError_def writeStoreError_def StatusBadRequest_def StatusBadGateway_def)

lemma answered_after_read:
  assumes "untouched c c1" and "answered env c1 out"
  shows "answered env c out"
proof -
  have "sc_bus c1 = sc_bus c" using assms(1) by (simp add: untouched_def)
  moreover have "stored env c1 c' subject raw \<Longrightarrow> stored env c c' subject raw" for c' subject raw
    using untouched_trans [OF assms(1)] by (auto simp: stored_def)
  ultimately show ?thesis using assms(2) by (fastforce simp: answered_def split: prod.splits if_splits)
qed

lemma answered_reading:
  assumes "untouched c (fst p)"
    and "\<And>c1 e. p = (c1, Inl e) \<Longrightarrow> answered env c1 (f c1 e)"
    and "\<And>c1 x. p = (c1, Inr x) \<Longrightarrow> answered env c1 (g c1 x)"
  shows "answered env c (case p of (c1, Inl e) \<Rightarrow> f c1 e | (c1, Inr x) \<Rightarrow> g c1 x)"
proof (cases p)
  case (Pair c1 r)
  with assms show ?thesis by (cases r) (auto intro: answered_after_read)
qed

lemma answered_set:
  assumes "status < 400" and "confirms env body subject raw"
  shows "answered env c
    (case store_Set env subject raw c of
       (c1, Inl e) \<Rightarrow> (c1, writeStoreError e) | (c1, Inr _) \<Rightarrow> (c1, status, body))"
proof -
  obtain c1 r where set: "store_Set env subject raw c = (c1, r)" by fastforce
  show ?thesis
  proof (cases r)
    case (Inl e)
    then show ?thesis
      using store_Set_error [of env subject raw c c1 e] set
      by (simp add: answered_def writeStoreError_def StatusBadGateway_def)
  next
    case (Inr u)
    then have "stored env c c1 subject raw" using set by (auto simp: stored_def intro: exI [of _ c])
    then show ?thesis using set Inr assms by (auto simp: answered_def)
  qed
qed

lemma answered_decode:
  "(\<And>item. answered env c (handle item c)) \<Longrightarrow> answered env c (decodeRequest body handle c)"
  by (auto simp: decodeRequest_def split: prod.split sum.split)

lemma answered_match: "answered env c (handle c) \<Longrightarrow> answered env c (matchSubjects s path handle c)"
  by (simp add: matchSubjects_def)

text \<open>Normalizing is idempotent, so the record of a response passes validation as it is.\<close>

lemma normalizeConnection_idem [simp]: "normalizeConnection (normalizeConnection item) = normalizeConnection item"
  by (simp add: normalizeConnection_def Let_def descriptor_version_def)

lemma normalizeConnection_subject [simp]: "cr_subject (normalizeConnection item) = cr_subject item"
  by (simp add: normalizeConnection_def Let_def)

lemma validateConnection_normal:
  "validateConnection env item = Inr (raw, n) \<Longrightarrow> validateConnection env n = Inr (raw, n)"
  by (auto simp: validateConnection_def Let_def split: option.splits sum.splits)

lemma normalizeAddress_idem [simp]: "normalizeAddress (normalizeAddress item) = normalizeAddress item"
  by (simp add: normalizeAddress_def Let_def descriptor_version_def)

lemma normalizeAddress_subject [simp]: "ar_subject (normalizeAddress item) = ar_subject item"
  by (simp add: normalizeAddress_def Let_def)

lemma normalizeAddress_telemetry:
  "ar_telemetry (normalizeAddress item) = trim_suffix (ar_subject (normalizeAddress item)) ''.address''"
  by (simp add: normalizeAddress_def Let_def)

lemma validateAddress_normal:
  "validateAddress env item = Inr (raw, n) \<Longrightarrow> validateAddress env n = Inr (raw, n)"
  by (auto simp: validateAddress_def Let_def split: option.splits sum.splits)

lemma saveConnection_answered: "status < 400 \<Longrightarrow> answered env c (saveConnection env status item c)"
  by (auto simp: saveConnection_def confirms_def split: sum.split intro!: answered_set dest: validateConnection_normal)

lemma checkAddressConnection_refused:
  "checkAddressConnection env raw connectionRaw = Some refused \<Longrightarrow> answered env c (c, refused)"
  by (auto simp: checkAddressConnection_def Let_def split: sum.splits)

lemma saveAddress_answered:
  assumes "status < 400"
  shows "answered env c (saveAddress env status item c)"
proof (cases "validateAddress env item")
  case (Inr rn)
  then obtain raw n where valid: "validateAddress env item = Inr (raw, n)" by (cases rn) simp
  then have "confirms env (AddressBody n) (ar_subject n) raw"
    by (simp add: confirms_def validateAddress_normal)
  note set = answered_set [OF assms this]
  show ?thesis
    unfolding saveAddress_def valid
    by (auto intro!: answered_reading store_get_reads.reads set
        split: option.split intro: checkAddressConnection_refused)
qed (simp add: saveAddress_def)

lemma acknowledgeAlert_answered: "answered env c (acknowledgeAlert env subject c)"
proof -
  have "answered env c1
      (if \<not> st_pending (al_state item)
       then (c1, writeValidationError ''alert'' (errors_new ''only pending alerts can be acknowledged''))
       else (let item1 = item\<lparr>al_state := (al_state item)\<lparr>st_acknowledged := True\<rparr>\<rparr>
             in case encode_state (dn_alert env) (al_state item1) of
                  None \<Rightarrow> (c1, writeValidationError ''alert'' (errors_new ''encode alert state''))
                | Some data \<Rightarrow>
                    (case store_Set env subject data c1 of
                       (c2, Inl e) \<Rightarrow> (c2, writeStoreError e) | (c2, Inr _) \<Rightarrow> (c2, StatusOK, AlertBody item1))))"
    if "al_subject item = subject" for c1 item
    using that by (auto simp: Let_def confirms_def StatusOK_def split: option.split intro!: answered_set)
  moreover have "al_subject item = subject" if "loadAlert env subject c = (c1, Inr item)" for c1 item
    using that by (auto simp: loadAlert_def loadWith_def split: sum.splits prod.splits)
  ultimately show ?thesis
    unfolding acknowledgeAlert_def
    by (auto split: sum.split intro!: answered_reading alert_reads.reads)
qed

lemma saveAlertConfig_answered: "status < 400 \<Longrightarrow> answered env c (saveAlertConfig env status item c)"
  by (auto simp: saveAlertConfig_def confirms_def Let_def split: sum.split intro!: answered_set)

lemma saveAlertProperties_answered: "status < 400 \<Longrightarrow> answered env c (saveAlertProperties env status item c)"
  by (auto simp: saveAlertProperties_def confirms_def Let_def split: sum.split intro!: answered_set)

lemmas answered_rules =
  answered_decode answered_match answered_reading saveConnection_answered saveAddress_answered
  acknowledgeAlert_answered saveAlertConfig_answered saveAlertProperties_answered read_rules

lemma write_requests:
  assumes "\<not> is_read req"
  shows "answered env c (serve env req c)"
  using assms
  by (cases req)
    (auto simp: is_read_def serve_def createConnection_def updateConnection_def disableConnection_def
      createAddress_def updateAddress_def disableAddress_def createAlertConfig_def updateAlertConfig_def
      disableAlertConfig_def createAlertProperties_def updateAlertProperties_def StatusOK_def StatusCreated_def
      intro!: answered_rules)

section \<open>Reading back\<close>

text \<open>encoding/json reads back what it writes, into the structs it was written from.\<close>

definition faithful_json :: "designer_env \<Rightarrow> bool" where
  "faithful_json env \<longleftrightarrow>
     (\<forall>d s. json_of_descriptor (dn_json env) d = Some s \<longrightarrow> json_descriptor (dn_json env) s = Some d) \<and>
     (\<forall>d s. json_of_connection (dn_json env) d = Some s \<longrightarrow> json_connection (dn_json env) s = Some d) \<and>
     (\<forall>a s. dn_of_address_config env a = Some s \<longrightarrow> mb_address_config (dn_modbus env) s = Some a) \<and>
     (\<forall>a s. dn_of_connection_config env a = Some s \<longrightarrow> mb_connection_config (dn_modbus env) s = Some a) \<and>
     (\<forall>x s. encode_config (dn_alert env) x = Some s \<longrightarrow> decode_config (dn_alert env) s = Some x) \<and>
     (\<forall>x s. encode_properties (dn_alert env) x = Some s \<longrightarrow> decode_properties (dn_alert env) s = Some x) \<and>
     (\<forall>x s. encode_state (dn_alert env) x = Some s \<longrightarrow> decode_state (dn_alert env) s = Some x)"

lemma get_stored:
  assumes "stored env c c' subject raw" and "sc_bus c' = new @ sc_bus c"
    and "proto_round_trip (dn_stream env)"
    and "answered_by (dn_stream env) (sc_calls c') (sc_system c) (deliver_bus (dn_stream env) new sr)"
  obtains c'' where "store_Get env subject c' = (c'', Inr raw)"
proof -
  obtain c1 where c1: "untouched c c1" "set_value (dn_stream env) subject (StringValue raw) c1 = (c', Inr ())"
    using assms(1) by (auto simp: stored_def store_Set_def)
  have "sc_bus c' = new @ sc_bus c1" "sc_system c1 = sc_system c"
    using assms(2) c1(1) by (simp_all add: untouched_def sc_system_def)
  then have "snd (get_value (dn_stream env) KindString subject c') = Inr (StringValue raw)"
    using get_after_set [OF c1(2) _ assms(3), of new sr] assms(4) by (simp add: kind_of_def encodeValue_def)
  then show ?thesis
    using that by (cases "get_value (dn_stream env) KindString subject c'") (simp add: store_Get_def)
qed

text \<open>What loading the record of a response returns: the record, with nothing counted.\<close>

definition loads_as :: "designer_env \<Rightarrow> response_body \<Rightarrow> stream_client \<Rightarrow> bool" where
  "loads_as env body c \<longleftrightarrow>
     (case body of
        ConnectionBody r \<Rightarrow> snd (loadConnection env (cr_subject r) c) = Inr (r\<lparr>cr_address_count := 0\<rparr>)
      | AddressBody r \<Rightarrow> snd (loadAddress env (ar_subject r) c) = Inr r
      | AlertConfigBody r \<Rightarrow> snd (loadAlertConfig env (ak_subject r) c) = Inr r
      | AlertPropertiesBody r \<Rightarrow> snd (loadAlertProperties env (ap_subject r) c) = Inr (r\<lparr>ap_references := 0\<rparr>)
      | _ \<Rightarrow> False)"

lemma loadWith_stored: "store_Get env subject c = (c1, Inr raw) \<Longrightarrow> loadWith env decode subject c = (c1, decode subject raw)"
  by (simp add: loadWith_def)

lemma validateConnection_facts:
  assumes "validateConnection env r = Inr (raw, r)"
  obtains cfg conn where "dn_of_connection_config env (cr_config r) = Some cfg"
    and "ok (validate_hw_connection (dn_json env) (connection_descriptor r cfg))"
    and "json_of_connection (dn_json env) (connection_descriptor r cfg) = Some raw"
    and "ParseConnection (dn_modbus env) (connection_descriptor r cfg) = Inr conn"
proof -
  have "normalizeConnection r = r"
    using assms by (auto simp: validateConnection_def Let_def split: option.splits sum.splits)
  then show ?thesis
    using assms that
    by (auto simp: validateConnection_def Let_def marshal_hw_connection_def unit_case_Inr_iff split: option.splits sum.splits)
qed

lemma validateAddress_facts:
  assumes "validateAddress env r = Inr (raw, r)"
  obtains cfg p where "dn_of_address_config env (ar_config r) = Some cfg"
    and "ok (validateSubjectSuffix (ar_subject r) ''.address'')"
    and "ok (validate_descriptor (dn_json env) (address_descriptor r cfg))"
    and "json_of_descriptor (dn_json env) (address_descriptor r cfg) = Some raw"
    and "ParsePoint (dn_modbus env) (address_descriptor r cfg) zero_connection = Inr p"
    and "ar_telemetry r = trim_suffix (ar_subject r) ''.address''"
proof -
  have "normalizeAddress r = r" using assms by (auto simp: validateAddress_def Let_def split: option.splits sum.splits)
  then have "ar_telemetry r = trim_suffix (ar_subject r) ''.address''"
    by (metis normalizeAddress_telemetry)
  then show ?thesis
    using assms that \<open>normalizeAddress r = r\<close>
    by (auto simp: validateAddress_def Let_def marshal_descriptor_def unit_case_Inr_iff split: option.splits sum.splits)
qed

lemma stored_record_loads:
  assumes "stored env c c' subject raw" and "confirms env body subject raw" and "\<And>r. body \<noteq> AlertBody r"
    and bus: "sc_bus c' = new @ sc_bus c" and "proto_round_trip (dn_stream env)"
    and "answered_by (dn_stream env) (sc_calls c') (sc_system c) (deliver_bus (dn_stream env) new sr)"
    and json: "faithful_json env"
  shows "loads_as env body c'"
proof -
  obtain c'' where "store_Get env subject c' = (c'', Inr raw)"
    by (rule get_stored [OF assms(1) bus assms(5,6)])
  note load = loadWith_stored [OF this]
  show ?thesis
  proof (cases body)
    case (ConnectionBody r)
    then have subject: "cr_subject r = subject" and "validateConnection env r = Inr (raw, r)"
      using assms(2) by (simp_all add: confirms_def)
    from validateConnection_facts [OF this(2)] obtain cfg conn where
      facts: "dn_of_connection_config env (cr_config r) = Some cfg"
        "ok (validate_hw_connection (dn_json env) (connection_descriptor r cfg))"
        "json_of_connection (dn_json env) (connection_descriptor r cfg) = Some raw"
        "ParseConnection (dn_modbus env) (connection_descriptor r cfg) = Inr conn" .
    then have "json_connection (dn_json env) raw = Some (connection_descriptor r cfg)"
      "mb_connection_config (dn_modbus env) cfg = Some (cr_config r)"
      using json by (simp_all add: faithful_json_def)
    then have "parse_hw_connection (dn_json env) raw = Inr (connection_descriptor r cfg)"
      "decodeConfig (mb_connection_config (dn_modbus env)) (cr_driver r) cfg = Inr (cr_config r)"
      using facts(2) by (simp_all add: parse_hw_connection_Inr decodeConfig_def)
    then show ?thesis
      using facts(4) subject
      by (simp add: ConnectionBody loads_as_def loadConnection_def connection_of_value_def load)
        (simp add: connection_descriptor_def)
  next
    case (AddressBody r)
    then have subject: "ar_subject r = subject" and "validateAddress env r = Inr (raw, r)"
      using assms(2) by (simp_all add: confirms_def)
    from validateAddress_facts [OF this(2)] obtain cfg p where
      facts: "dn_of_address_config env (ar_config r) = Some cfg"
        "ok (validate_descriptor (dn_json env) (address_descriptor r cfg))"
        "json_of_descriptor (dn_json env) (address_descriptor r cfg) = Some raw"
        "ParsePoint (dn_modbus env) (address_descriptor r cfg) zero_connection = Inr p"
        "ar_telemetry r = trim_suffix (ar_subject r) ''.address''" .
    then have "json_descriptor (dn_json env) raw = Some (address_descriptor r cfg)"
      "mb_address_config (dn_modbus env) cfg = Some (ar_config r)"
      using json by (simp_all add: faithful_json_def)
    then have "parse_descriptor (dn_json env) raw = Inr (address_descriptor r cfg)"
      "decodeConfig (mb_address_config (dn_modbus env)) (ar_driver r) cfg = Inr (ar_config r)"
      using facts(2) by (simp_all add: parse_descriptor_Inr decodeConfig_def)
    then show ?thesis
      using facts(4,5) subject
      by (simp add: AddressBody loads_as_def loadAddress_def address_of_value_def load) (simp add: address_descriptor_def)
  next
    case (AlertConfigBody r)
    then show ?thesis
      using assms(2) json
      by (auto simp: load confirms_def loads_as_def loadAlertConfig_def alert_config_of_value_def MarshalConfig_def
          ParseConfig_def unit_case_Inr_iff faithful_json_def value_or_empty_def ValidateForSubject_def OutputSubject_def
          split: option.splits sum.splits)
  next
    case (AlertPropertiesBody r)
    then show ?thesis
      using assms(2) json
      by (auto simp: load confirms_def loads_as_def loadAlertProperties_def MarshalProperties_def ParseProperties_def
          unit_case_Inr_iff faithful_json_def split: option.splits sum.splits)
  qed (use assms(2,3) in \<open>simp_all add: confirms_def\<close>)
qed

end
