(* ===== verification/Designer_Live.thy ===== *)
theory Designer_Live
  imports Designer_Spec
begin

text \<open>
  \<open>designer/live.go\<close>: one websocket session. Subscriptions are pointers, shared by the table of the session
  and by the callbacks of the bus, so the session keeps them in a store, numbered as they are opened; the
  table holds numbers. A command of the browser, a message of the bus and the retained value of a new
  subscription are the steps of a session, in any order. Events are recorded, newest first, without their
  timestamps.
\<close>

section \<open>The session\<close>

datatype live_event =
    LiveError string go_error
  | LiveAlert string state
  | LiveValue string string telemetry_value

text \<open>What the callback of a subscription does with a value.\<close>

datatype live_handler = AlertHandler string | ValueHandler string string

record live_subscription =
  ls_handler :: live_handler
  ls_kind :: value_kind
  ls_sub :: subscription

record live_session =
  lv_opened :: "live_subscription list"
  lv_subscriptions :: "(string \<times> nat) list"
  lv_sent :: "live_event list"

definition new_session :: live_session where
  "new_session = \<lparr>lv_opened = [], lv_subscriptions = [], lv_sent = []\<rparr>"

definition live_send :: "live_event \<Rightarrow> live_session \<Rightarrow> live_session" where
  "live_send ev lv = lv\<lparr>lv_sent := ev # lv_sent lv\<rparr>"

definition live_stop :: "nat \<Rightarrow> live_session \<Rightarrow> live_session" where
  "live_stop i lv =
     lv\<lparr>lv_opened := (lv_opened lv)[i := (lv_opened lv ! i)\<lparr>ls_sub := stop_subscription (ls_sub (lv_opened lv ! i))\<rparr>]\<rparr>"

text \<open>\<open>if previous := subscriptions[subject]; previous != nil\<close>\<close>

definition live_drop :: "string \<Rightarrow> live_session \<Rightarrow> live_session" where
  "live_drop subject lv =
     (case map_of (lv_subscriptions lv) subject of
        None \<Rightarrow> lv
      | Some i \<Rightarrow> (live_stop i lv)\<lparr>lv_subscriptions := AList.delete subject (lv_subscriptions lv)\<rparr>)"

definition live_open :: "string \<Rightarrow> live_handler \<Rightarrow> value_kind \<Rightarrow> subscription \<Rightarrow> live_session \<Rightarrow> live_session" where
  "live_open subject h k sub lv =
     lv\<lparr>lv_opened := lv_opened lv @ [\<lparr>ls_handler = h, ls_kind = k, ls_sub = sub\<rparr>],
        lv_subscriptions := AList.update subject (length (lv_opened lv)) (lv_subscriptions lv)\<rparr>"

section \<open>Commands\<close>

definition live_subscribe ::
    "designer_env \<Rightarrow> (string \<Rightarrow> bool) \<Rightarrow> bool \<Rightarrow> string \<Rightarrow> stream_client \<times> live_session \<Rightarrow>
     stream_client \<times> live_session" where
  "live_subscribe env subscribes isAlert subject = (\<lambda>(c, lv0).
     (let lv = live_drop subject lv0
      in if isAlert
         then (case store_SubscribeString subscribes subject c of
                 Inl e \<Rightarrow> (c, live_send (LiveError subject e) lv)
               | Inr (k, sub) \<Rightarrow> (c, live_open subject (AlertHandler subject) k sub lv))
         else (case loadAddress env subject c of
                 (c1, Inl e) \<Rightarrow> (c1, live_send (LiveError subject (wrapf ''load address: %v'' [] e)) lv)
               | (c1, Inr item) \<Rightarrow>
                   (let telemetrySubject = ar_telemetry item
                    in case store_Subscribe subscribes telemetrySubject (ar_value_type item) c1 of
                         Inl e \<Rightarrow> (c1, live_send (LiveError subject e) lv)
                       | Inr (k, sub) \<Rightarrow>
                           (c1, live_open subject (ValueHandler subject telemetrySubject) k sub lv)))))"

definition live_command ::
    "designer_env \<Rightarrow> (string \<Rightarrow> bool) \<Rightarrow> string \<Rightarrow> string \<Rightarrow> stream_client \<times> live_session \<Rightarrow>
     stream_client \<times> live_session" where
  "live_command env subscribes action rawSubject = (\<lambda>(c, lv).
     (let subject = trim_space rawSubject;
          isAlert = has_suffix subject ''.alert'';
          suf = (if isAlert then ''.alert'' else ''.address'')
      in case validateSubjectSuffix subject suf of
           Inl e \<Rightarrow> (c, live_send (LiveError subject e) lv)
         | Inr _ \<Rightarrow>
             if action = ''subscribe'' then live_subscribe env subscribes isAlert subject (c, lv)
             else if action = ''unsubscribe'' then (c, live_drop subject lv)
             else (c, live_send (LiveError subject (errors_new ''action must be subscribe or unsubscribe'')) lv)))"

section \<open>Deliveries\<close>

definition live_event_of :: "designer_env \<Rightarrow> live_handler \<Rightarrow> telemetry_value \<Rightarrow> live_event" where
  "live_event_of env h v =
     (case h of
        AlertHandler subject \<Rightarrow>
          (case ParseState (dn_alert env) (case v of StringValue s \<Rightarrow> s | _ \<Rightarrow> []) of
             Inl e \<Rightarrow> LiveError subject (wrapf ''parse alert state: %v'' [] e)
           | Inr st \<Rightarrow> LiveAlert subject st)
      | ValueHandler subject telemetrySubject \<Rightarrow> LiveValue subject telemetrySubject v)"

text \<open>The callback returns no error. It runs for every value the subscription hands on.\<close>

definition live_deliver ::
    "designer_env \<Rightarrow> nat \<Rightarrow> (subscription \<Rightarrow> subscription) \<Rightarrow> live_session \<Rightarrow> live_session" where
  "live_deliver env i delivery lv =
     (let ls = lv_opened lv ! i;
          sub = delivery (ls_sub ls);
          fresh = take (length (sb_handled sub) - length (sb_handled (ls_sub ls))) (sb_handled sub)
      in lv\<lparr>lv_opened := (lv_opened lv)[i := ls\<lparr>ls_sub := sub\<rparr>],
            lv_sent := map (\<lambda>(_, v). live_event_of env (ls_handler ls) v) fresh @ lv_sent lv\<rparr>)"

definition live_message ::
    "designer_env \<Rightarrow> nat \<Rightarrow> payload \<Rightarrow> stream_client \<times> live_session \<Rightarrow> stream_client \<times> live_session" where
  "live_message env i data = (\<lambda>(c, lv).
     if i < length (lv_opened lv)
     then (c, live_deliver env i
                (\<lambda>sub. liveMessage (dn_stream env) (ls_kind (lv_opened lv ! i)) (\<lambda>_ _. None) c (sb_filter sub) data sub) lv)
     else (c, lv))"

text \<open>The retained value of a subscription, unless it was stopped before.\<close>

definition live_retained ::
    "designer_env \<Rightarrow> nat \<Rightarrow> stream_client \<times> live_session \<Rightarrow> stream_client \<times> live_session" where
  "live_retained env i = (\<lambda>(c, lv).
     if i < length (lv_opened lv) \<and> \<not> sb_stopped (ls_sub (lv_opened lv ! i))
     then (let out = catchUp (dn_stream env) (ls_kind (lv_opened lv ! i)) (\<lambda>_ _. None) (c, ls_sub (lv_opened lv ! i))
           in (fst out, live_deliver env i (\<lambda>_. snd out) lv))
     else (c, lv))"

datatype live_step = LiveCommand string string | LiveMessage nat payload | LiveRetained nat

definition live_next ::
    "designer_env \<Rightarrow> (string \<Rightarrow> bool) \<Rightarrow> live_step \<Rightarrow> stream_client \<times> live_session \<Rightarrow> stream_client \<times> live_session" where
  "live_next env subscribes step =
     (case step of
        LiveCommand action subject \<Rightarrow> live_command env subscribes action subject
      | LiveMessage i data \<Rightarrow> live_message env i data
      | LiveRetained i \<Rightarrow> live_retained env i)"

text \<open>The deferred function: every subscription of the table is stopped.\<close>

definition live_close :: "live_session \<Rightarrow> live_session" where
  "live_close lv = fold live_stop (map snd (lv_subscriptions lv)) lv"

text \<open>A session: the browser connects, the steps follow, the connection ends.\<close>

definition live_steps ::
    "designer_env \<Rightarrow> (string \<Rightarrow> bool) \<Rightarrow> live_step list \<Rightarrow> stream_client \<Rightarrow> stream_client \<times> live_session" where
  "live_steps env subscribes steps c = fold (live_next env subscribes) steps (c, new_session)"

text \<open>The whole session, closed at its end.\<close>

definition live ::
    "designer_env \<Rightarrow> (string \<Rightarrow> bool) \<Rightarrow> live_step list \<Rightarrow> stream_client \<Rightarrow> stream_client \<times> live_session" where
  "live env subscribes steps c = (case live_steps env subscribes steps c of (c1, lv) \<Rightarrow> (c1, live_close lv))"

section \<open>Deliveries are typed\<close>

text \<open>What a delivery of values of one kind does to a subscription, whether live or retained.\<close>

definition delivers :: "value_kind \<Rightarrow> subscription \<Rightarrow> subscription \<Rightarrow> bool" where
  "delivers k sub sub' \<longleftrightarrow>
     sb_stopped sub' = sb_stopped sub \<and> sb_kind sub' = sb_kind sub \<and>
     (\<exists>new. sb_handled sub' = new @ sb_handled sub \<and> (\<forall>(s, v)\<in>set new. kind_of v = k))"

lemma delivers_refl [simp]: "delivers k sub sub"
  by (simp add: delivers_def)

locale typed_delivery =
  fixes kind :: value_kind and delivery :: "subscription \<Rightarrow> subscription"
  assumes delivers: "delivers kind sub (delivery sub)"
begin

lemma new_values:
  "set (take (length (sb_handled (delivery sub)) - length (sb_handled sub)) (sb_handled (delivery sub)))
     \<subseteq> {(s, v). kind_of v = kind}"
  using delivers [of sub] by (auto simp: delivers_def)

lemma keeps: "sb_stopped (delivery sub) = sb_stopped sub" "sb_kind (delivery sub) = sb_kind sub"
  using delivers [of sub] by (simp_all add: delivers_def)

end

lemma decodeValue_kind: "decodeValue k v = Inr x \<Longrightarrow> kind_of x = k"
  by (auto simp: decodeValue_def split: sum.splits if_splits)

lemma sb_report_keeps [simp]: "sb_stopped (sb_report e sub) = sb_stopped sub" "sb_kind (sb_report e sub) = sb_kind sub"
  by (simp_all add: sb_report_def)

lemma deliverValue_delivers: "delivers k sub (deliverValue env k handler full subject data sub)"
  unfolding delivers_def deliverValue_effect
  by (auto simp: deliverValue_def Let_def decodeValue_kind split: option.split prod.split bool.split sum.split)

interpretation value_delivery: typed_delivery k "deliverValue env k handler full subject data"
  for env k handler full subject data
  by unfold_locales (rule deliverValue_delivers)

interpretation message_delivery: typed_delivery k "liveMessage env k handler c full data"
  for env k handler c full data
  by unfold_locales (simp add: liveMessage_def deliverValue_delivers split: option.split)

interpretation retained_delivery: typed_delivery k "\<lambda>sub. snd (catchUpSubject env k handler full subject (c, sub))"
  for env k handler full subject c
  by unfold_locales
    (auto simp: catchUpSubject_def deliverValue_delivers delivers_def [where sub' = "sb_report _ _"]
      split: prod.split sum.split)

section \<open>The invariant of a session\<close>

fun handler_subject :: "live_handler \<Rightarrow> string" where
  "handler_subject (AlertHandler subject) = subject"
| "handler_subject (ValueHandler subject _) = subject"

definition live_subject :: "live_session \<Rightarrow> nat \<Rightarrow> string" where
  "live_subject lv i = handler_subject (ls_handler (lv_opened lv ! i))"

definition is_open :: "live_session \<Rightarrow> nat \<Rightarrow> bool" where
  "is_open lv i \<longleftrightarrow> i < length (lv_opened lv) \<and> \<not> sb_stopped (ls_sub (lv_opened lv ! i))"

text \<open>The open subscriptions are those of the table, each under the subject of its handler.\<close>

definition live_sound :: "live_session \<Rightarrow> bool" where
  "live_sound lv \<longleftrightarrow>
     distinct (map fst (lv_subscriptions lv)) \<and>
     (\<forall>s i. map_of (lv_subscriptions lv) s = Some i \<longleftrightarrow> is_open lv i \<and> live_subject lv i = s)"

text \<open>Subscriptions have the kind their handler expects, and events come from them.\<close>

definition live_handlers :: "live_session \<Rightarrow> (live_handler \<times> value_kind) list" where
  "live_handlers lv = map (\<lambda>ls. (ls_handler ls, ls_kind ls)) (lv_opened lv)"

definition typed_handler :: "live_handler \<times> value_kind \<Rightarrow> bool" where
  "typed_handler hk \<longleftrightarrow>
     (case hk of
        (AlertHandler _, k) \<Rightarrow> k = KindString
      | (ValueHandler subject telemetrySubject, k) \<Rightarrow>
          telemetrySubject = trim_suffix subject ''.address'' \<and> k \<in> {KindBool, KindInt, KindFloat})"

definition typed_event :: "(live_handler \<times> value_kind) list \<Rightarrow> live_event \<Rightarrow> bool" where
  "typed_event hks ev \<longleftrightarrow>
     (case ev of
        LiveError _ _ \<Rightarrow> True
      | LiveAlert subject st \<Rightarrow> ok (validate_state st) \<and> (AlertHandler subject, KindString) \<in> set hks
      | LiveValue subject telemetrySubject v \<Rightarrow> (ValueHandler subject telemetrySubject, kind_of v) \<in> set hks)"

definition live_typed :: "live_session \<Rightarrow> bool" where
  "live_typed lv \<longleftrightarrow>
     (\<forall>hk\<in>set (live_handlers lv). typed_handler hk) \<and>
     (\<forall>ls\<in>set (lv_opened lv). \<exists>full. sb_kind (ls_sub ls) = ExactSubject full) \<and>
     (\<forall>ev\<in>set (lv_sent lv). typed_event (live_handlers lv) ev)"

lemma typed_event_more: "typed_event hks ev \<Longrightarrow> set hks \<subseteq> set hks' \<Longrightarrow> typed_event hks' ev"
  by (auto simp: typed_event_def split: live_event.splits)

lemma new_session_ok: "live_sound new_session" "live_typed new_session"
  by (simp_all add: live_sound_def live_typed_def new_session_def is_open_def live_handlers_def)

lemma same_opened:
  assumes "lv_opened lv' = lv_opened lv"
  shows "is_open lv' = is_open lv" "live_subject lv' = live_subject lv" "live_handlers lv' = live_handlers lv"
  using assms by (simp_all add: is_open_def live_subject_def live_handlers_def fun_eq_iff)

lemma live_send_sound: "live_sound lv \<Longrightarrow> live_sound (live_send ev lv)"
  using same_opened [of "live_send ev lv" lv] by (simp add: live_send_def live_sound_def)

lemma live_send_typed: "live_typed lv \<Longrightarrow> typed_event (live_handlers lv) ev \<Longrightarrow> live_typed (live_send ev lv)"
  by (simp add: live_send_def live_typed_def live_handlers_def)

lemma live_error_typed: "live_typed lv \<Longrightarrow> live_typed (live_send (LiveError subject e) lv)"
  by (rule live_send_typed) (simp_all add: typed_event_def)

text \<open>Changing the subscription of an entry leaves its handler alone.\<close>

lemma update_sub:
  assumes "lv_opened lv' = (lv_opened lv)[i := (lv_opened lv ! i)\<lparr>ls_sub := sub\<rparr>]"
  shows "live_handlers lv' = live_handlers lv"
    and "live_subject lv' = live_subject lv"
    and "is_open lv' j \<longleftrightarrow> (if j = i then i < length (lv_opened lv) \<and> \<not> sb_stopped sub else is_open lv j)"
proof -
  have same: "ls_handler (lv_opened lv' ! j) = ls_handler (lv_opened lv ! j)" for j
    by (cases "j = i"; cases "i < length (lv_opened lv)") (simp_all add: assms list_update_beyond)
  show "live_subject lv' = live_subject lv" by (simp add: fun_eq_iff live_subject_def same)
  show "live_handlers lv' = live_handlers lv"
    by (cases "i < length (lv_opened lv)") (simp_all add: assms live_handlers_def map_update list_update_beyond
      list_update_same_conv)
  show "is_open lv' j \<longleftrightarrow> (if j = i then i < length (lv_opened lv) \<and> \<not> sb_stopped sub else is_open lv j)"
    by (cases "j = i") (auto simp: assms is_open_def)
qed

lemmas live_stop_effect =
  update_sub [of "live_stop i lv" lv i "stop_subscription (ls_sub (lv_opened lv ! i))" for i lv]

lemma live_stop_open: "is_open (live_stop i lv) j \<longleftrightarrow> j \<noteq> i \<and> is_open lv j"
  by (subst live_stop_effect(3)) (simp_all add: live_stop_def stop_subscription_def)

lemma live_stop_subject [simp]: "live_subject (live_stop i lv) = live_subject lv"
  and live_stop_handlers [simp]: "live_handlers (live_stop i lv) = live_handlers lv"
  by (rule live_stop_effect; simp add: live_stop_def)+

lemma live_stop_keeps [simp]:
  "lv_sent (live_stop i lv) = lv_sent lv" "length (lv_opened (live_stop i lv)) = length (lv_opened lv)"
  by (simp_all add: live_stop_def)

lemma live_stop_typed: "live_typed lv \<Longrightarrow> live_typed (live_stop i lv)"
  unfolding live_typed_def live_stop_handlers
  by (cases "i < length (lv_opened lv)")
    (auto simp: live_stop_def stop_subscription_def list_update_beyond dest!: set_update_subset_insert [THEN subsetD])

lemma live_drop_sound:
  assumes "live_sound lv"
  shows "live_sound (live_drop subject lv)" and "map_of (lv_subscriptions (live_drop subject lv)) subject = None"
proof -
  show "map_of (lv_subscriptions (live_drop subject lv)) subject = None"
    by (simp add: live_drop_def split: option.split)
  show "live_sound (live_drop subject lv)"
  proof (cases "map_of (lv_subscriptions lv) subject")
    case (Some i)
    let ?lv = "live_drop subject lv"
    have old: "map_of (lv_subscriptions lv) s = Some j \<longleftrightarrow> is_open lv j \<and> live_subject lv j = s" for s j
      using assms by (simp add: live_sound_def)
    note same = same_opened [of ?lv "live_stop i lv"]
    have op: "is_open ?lv j \<longleftrightarrow> j \<noteq> i \<and> is_open lv j" and sub: "live_subject ?lv = live_subject lv" for j
      using same by (simp_all add: live_drop_def Some live_stop_open)
    have subs: "map_of (lv_subscriptions ?lv) = (map_of (lv_subscriptions lv))(subject := None)"
      and keys: "distinct (map fst (lv_subscriptions ?lv))"
      using assms by (simp_all add: live_drop_def Some live_sound_def)
    have "map_of (lv_subscriptions ?lv) s = Some j \<longleftrightarrow> is_open ?lv j \<and> live_subject ?lv j = s" for s j
      using old [of s j] old [of subject i] old [of subject j] Some unfolding subs op sub by auto
    then show ?thesis using keys by (simp add: live_sound_def)
  qed (use assms in \<open>simp add: live_drop_def\<close>)
qed

lemma live_drop_typed: "live_typed lv \<Longrightarrow> live_typed (live_drop subject lv)"
  using live_stop_typed [of lv]
  by (auto simp: live_drop_def live_typed_def live_handlers_def split: option.split)

lemma live_open_sound:
  assumes "live_sound lv" and "map_of (lv_subscriptions lv) subject = None"
    and "handler_subject h = subject" and "\<not> sb_stopped sub"
  shows "live_sound (live_open subject h k sub lv)"
proof -
  let ?n = "length (lv_opened lv)" and ?lv = "live_open subject h k sub lv"
  have subs: "map_of (lv_subscriptions ?lv) = (map_of (lv_subscriptions lv))(subject \<mapsto> ?n)"
    and keys: "distinct (map fst (lv_subscriptions ?lv))"
    using assms(1) by (simp_all add: live_open_def live_sound_def)
  have op: "is_open ?lv j \<longleftrightarrow> j = ?n \<or> is_open lv j" for j
    using assms(4) by (auto simp: is_open_def live_open_def nth_append)
  have sub: "live_subject ?lv j = (if j = ?n then subject else live_subject lv j)" if "is_open ?lv j" for j
    using assms(3) that by (auto simp: live_subject_def live_open_def nth_append is_open_def)
  have old: "map_of (lv_subscriptions lv) s = Some i \<longleftrightarrow> is_open lv i \<and> live_subject lv i = s" for s i
    using assms(1) by (simp add: live_sound_def)
  have new: "\<not> is_open lv ?n" by (simp add: is_open_def)
  have "map_of (lv_subscriptions ?lv) s = Some i \<longleftrightarrow> is_open ?lv i \<and> live_subject ?lv i = s" for s i
  proof (cases "is_open ?lv i")
    case True
    show ?thesis using assms(2) old [of s i] old [of subject i] op [of i] new True by (auto simp: subs sub [OF True])
  next
    case False
    then show ?thesis using old [of s i] op [of i] op [of ?n] by (auto simp: subs split: if_splits)
  qed
  then show ?thesis using keys by (simp add: live_sound_def)
qed

lemma live_open_typed:
  assumes "live_typed lv" and "typed_handler (h, k)" and "sb_kind sub = ExactSubject full"
  shows "live_typed (live_open subject h k sub lv)"
proof -
  have hs: "live_handlers (live_open subject h k sub lv) = live_handlers lv @ [(h, k)]"
    by (simp add: live_handlers_def live_open_def)
  show ?thesis
    using assms typed_event_more [of "live_handlers lv" _ "live_handlers lv @ [(h, k)]"]
    unfolding live_typed_def hs by (auto simp: live_open_def)
qed

lemma Subscribe_fresh:
  "Subscribe subscribes c subject = Inr sub \<Longrightarrow> \<not> sb_stopped sub \<and> (\<exists>full. sb_kind sub = ExactSubject full)"
  by (auto simp: Subscribe_def startSubscription_def split: sum.splits if_splits)

lemma store_Subscribe_fresh:
  "store_Subscribe subscribes subject ty c = Inr (k, sub) \<Longrightarrow>
     \<not> sb_stopped sub \<and> (\<exists>full. sb_kind sub = ExactSubject full) \<and> k \<in> {KindBool, KindInt, KindFloat}"
  by (auto simp: store_Subscribe_def Let_def dest!: Subscribe_fresh split: hw_type.splits sum.splits)

lemma loadAddress_telemetry:
  "loadAddress env subject c = (c1, Inr item) \<Longrightarrow> ar_telemetry item = trim_suffix subject ''.address''"
  by (auto simp: loadAddress_def loadWith_def address_of_value_def split: sum.splits prod.splits)

lemma live_subscribe_ok:
  assumes "live_sound lv" and "live_typed lv"
  shows "live_sound (snd (live_subscribe env subscribes isAlert subject (c, lv))) \<and>
    live_typed (snd (live_subscribe env subscribes isAlert subject (c, lv)))"
proof -
  let ?lv = "live_drop subject lv"
  note dropped = live_drop_sound [OF assms(1), of subject] live_drop_typed [OF assms(2), of subject]
  have opened: "live_sound (live_open subject h k sub ?lv) \<and> live_typed (live_open subject h k sub ?lv)"
    if "handler_subject h = subject" "typed_handler (h, k)" "\<not> sb_stopped sub" "sb_kind sub = ExactSubject full"
    for h k sub full
    using live_open_sound [OF dropped(1,2) that(1,3)] live_open_typed [OF dropped(3) that(2,4)] by simp
  have failed: "live_sound (live_send (LiveError subject e) ?lv) \<and> live_typed (live_send (LiveError subject e) ?lv)" for e
    using dropped by (simp add: live_send_sound live_error_typed)
  show ?thesis
  proof (cases isAlert)
    case True
    then show ?thesis
      by (auto simp: live_subscribe_def Let_def failed store_SubscribeString_def typed_handler_def
          split: sum.split dest!: Subscribe_fresh intro: opened [THEN conjunct1] opened [THEN conjunct2])
  next
    case False
    obtain c1 r where load: "loadAddress env subject c = (c1, r)" by fastforce
    show ?thesis
    proof (cases r)
      case (Inr item)
      with load have tele: "ar_telemetry item = trim_suffix subject ''.address''" using loadAddress_telemetry by simp
      show ?thesis
      proof (cases "store_Subscribe subscribes (ar_telemetry item) (ar_value_type item) c1")
        case ks: (Inr ks)
        obtain k sub where "ks = (k, sub)" by fastforce
        with ks store_Subscribe_fresh obtain full where
          fresh: "store_Subscribe subscribes (ar_telemetry item) (ar_value_type item) c1 = Inr (k, sub)"
            "\<not> sb_stopped sub" "sb_kind sub = ExactSubject full" "k \<in> {KindBool, KindInt, KindFloat}" by blast
        have "typed_handler (ValueHandler subject (ar_telemetry item), k)" using fresh(4) tele by (auto simp: typed_handler_def)
        then show ?thesis
          using opened [of "ValueHandler subject (ar_telemetry item)", OF _ _ fresh(2,3)] False load Inr fresh(1)
          by (simp add: live_subscribe_def Let_def)
      qed (use False load Inr failed in \<open>simp add: live_subscribe_def Let_def\<close>)
    qed (use False load failed in \<open>simp add: live_subscribe_def Let_def\<close>)
  qed
qed

lemma live_command_ok:
  assumes "live_sound lv" and "live_typed lv"
  shows "live_sound (snd (live_command env subscribes action subject (c, lv))) \<and>
    live_typed (snd (live_command env subscribes action subject (c, lv)))"
  using assms
  by (auto simp: live_command_def Let_def live_send_sound live_error_typed live_drop_sound live_drop_typed
      live_subscribe_ok split: sum.split)

section \<open>Deliveries keep the invariant\<close>

fun event_subject :: "live_event \<Rightarrow> string" where
  "event_subject (LiveError subject _) = subject"
| "event_subject (LiveAlert subject _) = subject"
| "event_subject (LiveValue subject _ _) = subject"

lemma live_event_of_subject: "event_subject (live_event_of env h v) = handler_subject h"
  by (cases h) (simp_all add: live_event_of_def split: sum.split)

lemma parsed_state_valid: "ParseState cd raw = Inr st \<Longrightarrow> ok (validate_state st)"
  by (auto simp: ParseState_def unit_case_Inr_iff split: sum.splits)

lemma live_event_of_typed:
  "(h, k) \<in> set hks \<Longrightarrow> typed_handler (h, k) \<Longrightarrow> kind_of v = k \<Longrightarrow> typed_event hks (live_event_of env h v)"
  by (cases h)
    (auto simp: live_event_of_def typed_event_def typed_handler_def dest: parsed_state_valid split: sum.split)

lemma live_deliver_ok:
  assumes inv: "live_sound lv" "live_typed lv" and i: "i < length (lv_opened lv)"
    and step: "delivers (ls_kind (lv_opened lv ! i)) (ls_sub (lv_opened lv ! i)) (delivery (ls_sub (lv_opened lv ! i)))"
  shows "live_sound (live_deliver env i delivery lv) \<and> live_typed (live_deliver env i delivery lv)"
    and "\<exists>new. lv_sent (live_deliver env i delivery lv) = new @ lv_sent lv \<and>
      (\<forall>ev\<in>set new. event_subject ev = live_subject lv i)"
proof -
  let ?ls = "lv_opened lv ! i" and ?lv = "live_deliver env i delivery lv"
  let ?sub = "delivery (ls_sub ?ls)"
  obtain new where new: "sb_handled ?sub = new @ sb_handled (ls_sub ?ls)" "\<forall>(s, v)\<in>set new. kind_of v = ls_kind ?ls"
    and keeps: "sb_stopped ?sub = sb_stopped (ls_sub ?ls)" "sb_kind ?sub = sb_kind (ls_sub ?ls)"
    using step by (auto simp: delivers_def)
  let ?events = "map (\<lambda>(_, v). live_event_of env (ls_handler ?ls) v) new"
  have sent: "lv_sent ?lv = ?events @ lv_sent lv" by (simp add: live_deliver_def Let_def new(1))
  have opened: "lv_opened ?lv = (lv_opened lv)[i := ?ls\<lparr>ls_sub := ?sub\<rparr>]" by (simp add: live_deliver_def Let_def)
  note effect = update_sub [OF opened]
  have "is_open ?lv j = is_open lv j" for j unfolding effect(3) using i keeps(1) by (auto simp: is_open_def)
  then have "live_sound ?lv" using inv(1) by (simp add: live_sound_def effect(2)) (simp add: live_deliver_def Let_def)
  moreover have "live_typed ?lv"
  proof -
    have hk: "(ls_handler ?ls, ls_kind ?ls) \<in> set (live_handlers lv)" using i by (auto simp: live_handlers_def)
    then have "typed_event (live_handlers lv) ev" if "ev \<in> set ?events" for ev
      using that new(2) inv(2) live_event_of_typed [OF hk] by (auto simp: live_typed_def)
    moreover have "\<exists>full. sb_kind (ls_sub ls) = ExactSubject full" if "ls \<in> set (lv_opened ?lv)" for ls
      using that inv(2) keeps(2) i by (auto simp: opened live_typed_def dest!: set_update_subset_insert [THEN subsetD])
    ultimately show ?thesis using inv(2) by (auto simp: live_typed_def effect(1) sent)
  qed
  ultimately show "live_sound ?lv \<and> live_typed ?lv" by simp
  show "\<exists>new. lv_sent ?lv = new @ lv_sent lv \<and> (\<forall>ev\<in>set new. event_subject ev = live_subject lv i)"
    using sent by (auto simp: live_subject_def live_event_of_subject)
qed

lemma live_message_ok:
  assumes "live_sound lv" "live_typed lv"
  shows "live_sound (snd (live_message env i data (c, lv))) \<and> live_typed (snd (live_message env i data (c, lv)))"
    and "i < length (lv_opened lv) \<Longrightarrow>
      \<exists>new. lv_sent (snd (live_message env i data (c, lv))) = new @ lv_sent lv \<and>
        (\<forall>ev\<in>set new. event_subject ev = live_subject lv i)"
proof -
  let ?k = "ls_kind (lv_opened lv ! i)"
  let ?delivery = "\<lambda>sub. liveMessage (dn_stream env) ?k (\<lambda>_ _. None) c (sb_filter sub) data sub"
  have "delivers ?k (ls_sub (lv_opened lv ! i)) (?delivery (ls_sub (lv_opened lv ! i)))"
    by (rule message_delivery.delivers)
  note delivered = live_deliver_ok [where delivery = ?delivery, OF assms _ this]
  show "live_sound (snd (live_message env i data (c, lv))) \<and> live_typed (snd (live_message env i data (c, lv)))"
    using assms delivered(1) by (simp add: live_message_def)
  show "i < length (lv_opened lv) \<Longrightarrow>
      \<exists>new. lv_sent (snd (live_message env i data (c, lv))) = new @ lv_sent lv \<and>
        (\<forall>ev\<in>set new. event_subject ev = live_subject lv i)"
    using delivered(2) [of env] by (simp add: live_message_def)
qed

lemma live_retained_ok:
  assumes "live_sound lv" "live_typed lv"
  shows "live_sound (snd (live_retained env i (c, lv))) \<and> live_typed (snd (live_retained env i (c, lv)))"
proof (cases "i < length (lv_opened lv)")
  case True
  have "\<forall>ls\<in>set (lv_opened lv). \<exists>full. sb_kind (ls_sub ls) = ExactSubject full"
    using assms(2) by (simp add: live_typed_def)
  then obtain full where "sb_kind (ls_sub (lv_opened lv ! i)) = ExactSubject full"
    using nth_mem [OF True] by blast
  then have caught: "catchUp (dn_stream env) k h (c, ls_sub (lv_opened lv ! i)) =
      catchUpSubject (dn_stream env) k h full full (c, ls_sub (lv_opened lv ! i))" for k h
    by (simp add: catchUp_def)
  let ?k = "ls_kind (lv_opened lv ! i)"
  let ?sub = "snd (catchUp (dn_stream env) ?k (\<lambda>_ _. None) (c, ls_sub (lv_opened lv ! i)))"
  have "delivers ?k (ls_sub (lv_opened lv ! i)) ?sub" unfolding caught by (rule retained_delivery.delivers)
  note live_deliver_ok(1) [where delivery = "\<lambda>_. ?sub" and env = env, OF assms True this]
  then show ?thesis using assms by (simp add: live_retained_def Let_def)
qed (use assms in \<open>simp add: live_retained_def\<close>)

lemma live_next_ok:
  "live_sound lv \<Longrightarrow> live_typed lv \<Longrightarrow>
     live_sound (snd (live_next env subscribes step (c, lv))) \<and> live_typed (snd (live_next env subscribes step (c, lv)))"
  by (cases step) (simp_all add: live_next_def live_command_ok live_message_ok live_retained_ok)

lemma live_steps_ok:
  "live_sound (snd (live_steps env subscribes steps c)) \<and> live_typed (snd (live_steps env subscribes steps c))"
proof (induction steps rule: rev_induct)
  case (snoc step steps)
  then show ?case
    using live_next_ok [of "snd (live_steps env subscribes steps c)" env subscribes step "fst (live_steps env subscribes steps c)"]
    by (simp add: live_steps_def)
qed (simp add: live_steps_def new_session_ok)

lemma live_close_open: "is_open (live_close lv) i \<longleftrightarrow> is_open lv i \<and> i \<notin> snd ` set (lv_subscriptions lv)"
proof -
  have "is_open (fold live_stop is lv) i \<longleftrightarrow> is_open lv i \<and> i \<notin> set is" for "is"
    by (induction "is" arbitrary: lv) (auto simp: live_stop_open)
  then show ?thesis by (simp add: live_close_def)
qed

text \<open>Stopping subscriptions sends nothing and opens nothing.\<close>

lemma live_close_keeps:
  "lv_sent (live_close lv) = lv_sent lv" "length (lv_opened (live_close lv)) = length (lv_opened lv)"
  "live_handlers (live_close lv) = live_handlers lv"
proof -
  have "lv_sent (fold live_stop is lv) = lv_sent lv \<and> length (lv_opened (fold live_stop is lv)) = length (lv_opened lv) \<and>
      live_handlers (fold live_stop is lv) = live_handlers lv" for "is"
    by (induction "is" arbitrary: lv) simp_all
  then show "lv_sent (live_close lv) = lv_sent lv" "length (lv_opened (live_close lv)) = length (lv_opened lv)"
    "live_handlers (live_close lv) = live_handlers lv"
    by (simp_all add: live_close_def)
qed

lemma live_sound_all_stopped:
  assumes "live_sound lv"
  shows "\<not> is_open (live_close lv) i"
proof -
  have "i \<in> snd ` set (lv_subscriptions lv)" if "is_open lv i"
  proof -
    have "map_of (lv_subscriptions lv) (live_subject lv i) = Some i"
      using assms that unfolding live_sound_def by blast
    then show ?thesis by (metis map_of_SomeD image_eqI snd_conv)
  qed
  then show ?thesis by (auto simp: live_close_open)
qed

lemma live_message_subject:
  assumes "live_sound lv" "live_typed lv"
  obtains new where "lv_sent (snd (live_message env i data (c, lv))) = new @ lv_sent lv"
    and "\<forall>ev\<in>set new. map_of (lv_subscriptions lv) (event_subject ev) = Some i"
proof (cases "is_open lv i")
  case True
  then have i: "i < length (lv_opened lv)" and sub: "map_of (lv_subscriptions lv) (live_subject lv i) = Some i"
    using assms(1) by (auto simp: is_open_def live_sound_def)
  show ?thesis using live_message_ok(2) [OF assms i, of env data c] sub that by force
next
  case False
  then have "lv_sent (snd (live_message env i data (c, lv))) = lv_sent lv"
    by (auto simp: live_message_def is_open_def live_deliver_def liveMessage_def Let_def)
  then show ?thesis using that [of "[]"] by simp
qed

end
