(* ===== verification/Designer_Composed.thy ===== *)
theory Designer_Composed
  imports Designer_Live Modbus_Service_Inv Alert_Service_Spec
begin

text \<open>
  What the writes of the designer come to in the services that read them: a saved address is polled by the
  Modbus service, an acknowledgement is carried out by the alert service, and nobody else can read it.
\<close>

section \<open>Addresses and the Modbus service\<close>

text \<open>The connection only lends its parameters to a point.\<close>

lemma ParsePoint_connection:
  assumes "ParsePoint cd d conn = Inr p"
  shows "ParsePoint cd d conn' = Inr (p\<lparr>pt_url := mc_url conn', pt_unit_id := mc_unit_id conn',
    pt_byte_order := mc_byte_order conn', pt_word_order := mc_word_order conn', pt_timeout := mc_timeout conn',
    pt_poll_interval := mc_poll_interval conn'\<rparr>)"
  using assms by (auto simp: ParsePoint_def Let_def split: if_splits sum.splits)

lemma ParsePoint_config:
  assumes "ParsePoint cd d conn = Inr p" and "mb_address_config cd (ds_config d) = Some a"
  shows "pt_register p = ac_register a" "pt_address p = ac_address a" "pt_encoding p = ac_encoding a"
    "pt_url p = mc_url conn" "pt_unit_id p = mc_unit_id conn"
  using assms by (auto simp: ParsePoint_def decodeConfig_def Let_def split: if_splits sum.splits)

lemma validateSubjectSuffix_target:
  assumes "ok (validateSubjectSuffix subject ''.address'')"
  shows "targetSubject subject = Some (trim_suffix subject ''.address'')"
proof -
  have "has_suffix subject ''.address''" "\<not> has_prefix subject ''.''"
    using assms by (auto simp: validateSubjectSuffix_def split: if_splits)
  then obtain base where base: "subject = base @ ''.address''" by (auto simp: has_suffix_def suffix_def)
  moreover have "base \<noteq> []" using \<open>\<not> has_prefix subject ''.''\<close> base by (auto simp: has_prefix_def)
  ultimately show ?thesis by (simp add: targetSubject_def AddressSuffix_def trim_suffix_def has_suffix_def suffix_def)
qed

lemma saveAddress_granted:
  assumes "saveAddress env status item c = (c', status', AddressBody r)"
  obtains raw where "stored env c c' (ar_subject r) raw" "validateAddress env r = Inr (raw, r)"
proof -
  obtain raw n where valid: "validateAddress env item = Inr (raw, n)"
    using assms by (cases "validateAddress env item") (auto simp: saveAddress_def writeValidationError_def)
  obtain c1 g where get: "store_Get env (ar_connection n) c = (c1, g)" by fastforce
  have read: "untouched c c1" using store_get_reads.reads [of c env "ar_connection n"] by (simp add: get)
  obtain craw where "g = Inr craw" "checkAddressConnection env raw craw = None"
    using assms by (cases g)
      (auto simp: saveAddress_def valid get writeValidationError_def checkAddressConnection_def Let_def split: sum.splits)
  then have "store_Set env (ar_subject n) raw c1 = (c', Inr ()) \<and> n = r"
    using assms by (auto simp: saveAddress_def valid get writeStoreError_def split: sum.splits prod.splits)
  then show ?thesis
    using that read validateAddress_normal [OF valid] by (auto simp: stored_def)
qed

lemma accepted_saved_address:
  assumes "validateAddress env r = Inr (raw, r)" and "faithful_json env"
    and "mv_json menv = dn_json env" and "mv_codec menv = dn_modbus env"
  obtains d p where "accepted_point menv raw = (if ar_enabled r then Some \<lparr>pd_raw = raw, pd_descriptor = d\<rparr> else None)"
    and "ds_connection d = ar_connection r" "ds_driver d = ''modbus''" "ds_publish_on_change d = ar_publish_on_change r"
    and "mb_address_config (mv_codec menv) (ds_config d) = Some (ar_config r)"
    and "ParsePoint (mv_codec menv) d zero_connection = Inr p"
    and "targetSubject (ar_subject r) = Some (ar_telemetry r)"
proof -
  from validateAddress_facts [OF assms(1)] obtain cfg p where
    facts: "dn_of_address_config env (ar_config r) = Some cfg"
      "ok (validateSubjectSuffix (ar_subject r) ''.address'')"
      "ok (validate_descriptor (dn_json env) (address_descriptor r cfg))"
      "json_of_descriptor (dn_json env) (address_descriptor r cfg) = Some raw"
      "ParsePoint (dn_modbus env) (address_descriptor r cfg) zero_connection = Inr p"
      "ar_telemetry r = trim_suffix (ar_subject r) ''.address''" .
  let ?d = "address_descriptor r cfg"
  have parsed: "parse_descriptor (mv_json menv) raw = Inr ?d"
    using facts(3,4) assms(2,3) by (simp add: parse_descriptor_Inr faithful_json_def)
  have driver: "ds_driver ?d = ''modbus''" using facts(5) by (auto simp: ParsePoint_def split: if_splits)
  have "accepted_point menv raw = (if ar_enabled r then Some \<lparr>pd_raw = raw, pd_descriptor = ?d\<rparr> else None)"
    using parsed driver by (simp add: accepted_point_def address_descriptor_def)
  moreover have "mb_address_config (mv_codec menv) (ds_config ?d) = Some (ar_config r)"
    using facts(1) assms(2,4) by (simp add: faithful_json_def address_descriptor_def)
  moreover have "targetSubject (ar_subject r) = Some (ar_telemetry r)"
    using validateSubjectSuffix_target [OF facts(2)] facts(6) by simp
  ultimately show ?thesis
    using that [of ?d p] facts(5) assms(4) driver by (simp add: address_descriptor_def)
qed

lemma set_map_filter: "set (List.map_filter f xs) = {y. \<exists>x\<in>set xs. f x = Some y}"
  by (induction xs) (auto simp: List.map_filter_simps split: option.split)

lemma reconcileAddress_started: "ms_started (reconcileAddress menv s raw sv) = ms_started sv"
  by (simp add: reconcileAddress_def removePoint_def forgetPublished_def Let_def split: sum.split option.split)

lemma usable_driver: "usable_connection menv raw = Some conn \<Longrightarrow> hc_driver (cd_descriptor conn) = ''modbus''"
  by (auto simp: usable_connection_def split: sum.splits if_splits)

lemma wanted_point:
  assumes "modbus_sound menv sv" and "map_of (ms_points sv) k = Some d" and "pollPoint menv s conn k d = Some p"
  shows "p \<in> set (wanted_points menv s conn sv)"
proof -
  have "(k, d) \<in> set (ms_points sv)" using assms(2) by (rule map_of_SomeD)
  then show ?thesis using assms(3) by (force simp: wanted_points_def set_map_filter)
qed

lemma wanted_point_of:
  assumes "modbus_sound menv sv" and "p \<in> set (wanted_points menv s conn sv)"
  obtains k d where "map_of (ms_points sv) k = Some d" "targetSubject k = Some (pp_subject p)"
proof -
  obtain k d where kd: "(k, d) \<in> set (ms_points sv)" "pollPoint menv s conn k d = Some p"
    using assms(2) by (auto simp: wanted_points_def set_map_filter)
  then have "targetSubject k = Some (pp_subject p)" by (auto simp: pollPoint_def split: if_splits sum.splits option.splits)
  moreover have "map_of (ms_points sv) k = Some d" using kd(1) soundD(1) [OF assms(1)] by simp
  ultimately show ?thesis using that by blast
qed

lemma targetSubject_inj: "targetSubject a = Some t \<Longrightarrow> targetSubject b = Some t \<Longrightarrow> a = b"
  by (auto simp: targetSubject_def Let_def split: if_splits) (metis append_take_drop_id)

text \<open>A worker has exactly the wanted points of its connection.\<close>

lemma worker_wanted:
  assumes "worker_current menv sv s" and "map_of (ms_connections sv) s = Some conn"
    and "p \<in> set (wanted_points menv s conn sv)"
  obtains w where "map_of (ms_workers sv) s = Some w" "wk_connection w = cd_connection conn" "p \<in> set (wk_points w)"
  using assms by (auto simp: worker_current_def split: option.splits dest: mset_eq_setD)

lemma worker_only_wanted:
  assumes "worker_current menv sv s" and "map_of (ms_workers sv) s = Some w" and "p \<in> set (wk_points w)"
  obtains conn where "p \<in> set (wanted_points menv s conn sv)"
  using assms by (auto simp: worker_current_def split: option.splits dest: mset_eq_setD)

lemma saved_address_polled:
  assumes saved: "saveAddress env status item c = (c', status', AddressBody r)"
    and json: "faithful_json env" "mv_json menv = dn_json env" "mv_codec menv = dn_modbus env"
    and sv: "fair_order menv" "modbus_sound menv sv" "ms_started sv"
    and conn: "map_of (ms_connections sv) (ar_connection r) = Some conn"
  obtains raw where "published c c' (ar_subject r) raw"
    and "ar_enabled r \<Longrightarrow> \<exists>w p. map_of (ms_workers (reconcileAddress menv (ar_subject r) raw sv)) (ar_connection r) = Some w \<and>
      wk_connection w = cd_connection conn \<and> p \<in> set (wk_points w) \<and> pp_subject p = ar_telemetry r \<and>
      pp_publish_on_change p = ar_publish_on_change r \<and>
      pt_register (pp_point p) = ac_register (ar_config r) \<and> pt_address (pp_point p) = ac_address (ar_config r) \<and>
      pt_encoding (pp_point p) = ac_encoding (ar_config r) \<and> pt_url (pp_point p) = mc_url (cd_connection conn)"
    and "\<not> ar_enabled r \<Longrightarrow> \<forall>s w p. map_of (ms_workers (reconcileAddress menv (ar_subject r) raw sv)) s = Some w \<longrightarrow>
      p \<in> set (wk_points w) \<longrightarrow> pp_subject p \<noteq> ar_telemetry r"
proof -
  obtain raw where raw: "stored env c c' (ar_subject r) raw" "validateAddress env r = Inr (raw, r)"
    by (rule saveAddress_granted [OF saved])
  from accepted_saved_address [OF raw(2) json] obtain d q where
    d: "accepted_point menv raw = (if ar_enabled r then Some \<lparr>pd_raw = raw, pd_descriptor = d\<rparr> else None)"
      "ds_connection d = ar_connection r" "ds_driver d = ''modbus''" "ds_publish_on_change d = ar_publish_on_change r"
      "mb_address_config (mv_codec menv) (ds_config d) = Some (ar_config r)"
      "ParsePoint (mv_codec menv) d zero_connection = Inr q" "targetSubject (ar_subject r) = Some (ar_telemetry r)" .
  let ?sv = "reconcileAddress menv (ar_subject r) raw sv"
  note after = reconcileAddress_effect [OF sv(1,2), of "ar_subject r" raw]
  have started: "ms_started ?sv" using sv(3) reconcileAddress_started by simp
  have current: "worker_current menv ?sv s" for s by (rule soundD(4) [OF after(1) started])
  show ?thesis
  proof (rule that)
    show "published c c' (ar_subject r) raw" by (rule stored_published [OF raw(1)])
    assume "\<not> ar_enabled r"
    then have gone: "map_of (ms_points ?sv) (ar_subject r) = None" using after(2) d(1) by simp
    show "\<forall>s w p. map_of (ms_workers ?sv) s = Some w \<longrightarrow> p \<in> set (wk_points w) \<longrightarrow> pp_subject p \<noteq> ar_telemetry r"
    proof (intro allI impI notI)
      fix s w p
      assume "map_of (ms_workers ?sv) s = Some w" "p \<in> set (wk_points w)" and p: "pp_subject p = ar_telemetry r"
      then obtain conn where "p \<in> set (wanted_points menv s conn ?sv)" using worker_only_wanted [OF current] by metis
      from wanted_point_of [OF after(1) this] obtain k e where
        "map_of (ms_points ?sv) k = Some e" "targetSubject k = Some (ar_telemetry r)" using p by metis
      then show False using gone targetSubject_inj [OF _ d(7)] by auto
    qed
  next
    assume enabled: "ar_enabled r"
    have usable: "hc_driver (cd_descriptor conn) = ''modbus''"
      using soundD(2) [OF sv(2) conn] by (rule usable_driver)
    define q' where "q' = q\<lparr>pt_url := mc_url (cd_connection conn), pt_unit_id := mc_unit_id (cd_connection conn),
      pt_byte_order := mc_byte_order (cd_connection conn), pt_word_order := mc_word_order (cd_connection conn),
      pt_timeout := mc_timeout (cd_connection conn), pt_poll_interval := mc_poll_interval (cd_connection conn)\<rparr>"
    have q': "ParsePoint (mv_codec menv) d (cd_connection conn) = Inr q'"
      unfolding q'_def by (rule ParsePoint_connection [OF d(6)])
    let ?d = "\<lparr>pd_raw = raw, pd_descriptor = d\<rparr>"
    let ?p = "\<lparr>pp_subject = ar_telemetry r, pp_point = q', pp_publish_on_change = ar_publish_on_change r\<rparr>"
    have "map_of (ms_points ?sv) (ar_subject r) = Some ?d" using after(2) d(1) enabled by simp
    moreover have "pollPoint menv (ar_connection r) conn (ar_subject r) ?d = Some ?p"
      using d usable q' by (simp add: pollPoint_def)
    ultimately have "?p \<in> set (wanted_points menv (ar_connection r) conn ?sv)" by (rule wanted_point [OF after(1)])
    moreover have "map_of (ms_connections ?sv) (ar_connection r) = Some conn" using conn after(3) by simp
    ultimately obtain w where "map_of (ms_workers ?sv) (ar_connection r) = Some w"
      "wk_connection w = cd_connection conn" "?p \<in> set (wk_points w)"
      using worker_wanted [OF current] by metis
    then show "\<exists>w p. map_of (ms_workers ?sv) (ar_connection r) = Some w \<and>
      wk_connection w = cd_connection conn \<and> p \<in> set (wk_points w) \<and> pp_subject p = ar_telemetry r \<and>
      pp_publish_on_change p = ar_publish_on_change r \<and>
      pt_register (pp_point p) = ac_register (ar_config r) \<and> pt_address (pp_point p) = ac_address (ar_config r) \<and>
      pt_encoding (pp_point p) = ac_encoding (ar_config r) \<and> pt_url (pp_point p) = mc_url (cd_connection conn)"
      using ParsePoint_config [OF q' d(5)] by (intro exI [of _ w] exI [of _ ?p]) simp
  qed
qed

section \<open>Acknowledgements and the alert service\<close>

lemma acknowledgeAlert_granted:
  assumes "acknowledgeAlert env x c = (c', status, AlertBody r)"
  obtains raw where "stored env c c' x raw" "encode_state (dn_alert env) (al_state r) = Some raw"
    "st_pending (al_state r)" "st_acknowledged (al_state r)" "al_subject r = x"
proof -
  obtain c1 g where load: "loadAlert env x c = (c1, g)" by fastforce
  have read: "untouched c c1" using alert_reads.reads [of c env x] by (simp add: load)
  have valid: "ok (validateSubjectSuffix x ''.alert'')"
    using assms by (cases "validateSubjectSuffix x ''.alert''") (auto simp: acknowledgeAlert_def writeValidationError_def)
  then obtain u where u: "validateSubjectSuffix x ''.alert'' = Inr u" by (auto simp: ok_iff)
  obtain item where item: "g = Inr item"
    using assms by (cases g) (auto simp: acknowledgeAlert_def u load writeStoreError_def)
  then have subject: "al_subject item = x"
    using load by (auto simp: loadAlert_def loadWith_def split: sum.splits prod.splits)
  have pending: "st_pending (al_state item)"
    using assms by (auto simp: acknowledgeAlert_def u load item writeValidationError_def split: if_splits)
  let ?item = "item\<lparr>al_state := (al_state item)\<lparr>st_acknowledged := True\<rparr>\<rparr>"
  obtain raw where raw: "encode_state (dn_alert env) (al_state ?item) = Some raw"
    using assms by (cases "encode_state (dn_alert env) (al_state ?item)")
      (auto simp: acknowledgeAlert_def u load item pending writeValidationError_def Let_def)
  then have "store_Set env x raw c1 = (c', Inr ()) \<and> r = ?item"
    using assms by (auto simp: acknowledgeAlert_def u load item pending Let_def writeStoreError_def
        split: sum.splits prod.splits)
  then show ?thesis
    using that [of raw] read raw pending subject by (auto simp: stored_def)
qed

definition acknowledged_at :: "gotime \<Rightarrow> state \<Rightarrow> state" where
  "acknowledged_at t s = s\<lparr>st_pending := False, st_acknowledged := True, st_ack := Some (utc t)\<rparr>"

lemma Acknowledge_acknowledged:
  "ok (validate_state s) \<Longrightarrow> st_pending s \<Longrightarrow> st_episode s \<noteq> [] \<Longrightarrow>
     Acknowledge s (st_episode s) t = Inr (acknowledged_at t s)"
  by (simp add: Acknowledge_iff acknowledged_at_def)

lemma acknowledgeOne_pending:
  assumes "dependable aenv" and "map_of (sv_states sv) x = Some s" and "st_pending s" and "ok (validate_state s)"
    and "st_episode s \<noteq> []"
  shows "map_of (sv_states (acknowledgeOneLocked aenv x sv)) x = Some (acknowledged_at (en_now aenv (sv_calls sv)) s)"
proof -
  note ack = Acknowledge_acknowledged [OF assms(4,3,5)]
  have "ok (MarshalState (en_codec aenv) (acknowledged_at t s))" for t
    by (rule dependable_marshal [OF assms(1) Acknowledge_valid [OF ack]])
  then show ?thesis using assms(2,3) ack by (simp add: acknowledgeOneLocked_def states_storeAndPublish)
qed

lemma acknowledgeTree_pending:
  assumes "dependable aenv" and "map_of (sv_states sv) x = Some s" and "st_pending s" and "ok (validate_state s)"
    and "st_episode s \<noteq> []"
  shows "\<exists>t. map_of (sv_states (acknowledgeTreeLocked aenv x {} sv)) x = Some (acknowledged_at t s)"
proof -
  let ?sv = "acknowledgeMembers aenv (members_of sv x) {x} sv"
  have tree: "acknowledgeTreeLocked aenv x {} sv = acknowledgeOneLocked aenv x ?sv" by simp
  have "kept_or_acknowledged (Some s) (map_of (sv_states ?sv) x)"
    using kept_acknowledge(2) [of sv x aenv "members_of sv x" "{x}"] assms(2) by simp
  then consider "map_of (sv_states ?sv) x = Some s"
    | t where "map_of (sv_states ?sv) x = Some (acknowledged_at t s)"
    by (auto simp: kept_or_acknowledged_def Acknowledge_iff acknowledged_at_def)
  then show ?thesis
  proof cases
    case 1
    then show ?thesis unfolding tree using acknowledgeOne_pending [OF assms(1) 1 assms(3-5)] by blast
  next
    case 2
    then have "acknowledgeOneLocked aenv x ?sv = ?sv" by (simp add: acknowledgeOneLocked_def acknowledged_at_def)
    then show ?thesis unfolding tree using 2 by metis
  qed
qed

lemma acknowledgement_applied:
  assumes dep: "dependable aenv" and sound: "sound aenv sv" and owned: "map_of (sv_by_output sv) x = Some c"
    and s: "map_of (sv_states sv) x = Some s" "st_pending s" "st_episode s \<noteq> []"
    and raw: "parseStateUnchecked (en_codec aenv) raw = Inr incoming" "st_pending incoming" "st_acknowledged incoming"
      "st_episode incoming = st_episode s"
  shows "\<exists>t. map_of (sv_states (reconcileStateLocked aenv x raw sv)) x = Some (acknowledged_at t s)"
proof -
  have valid: "ok (validate_state s)" using sound s(1) by (auto simp: sound_def states_valid_def)
  then have "s \<noteq> incoming" using raw(2,3) s(2) by (auto simp: validate_state_ok)
  have anc: "map_of (sv_states (evaluateAncestors aenv x sv')) x = map_of (sv_states sv') x"
    if "static_part sv' = static_part sv" for sv'
    using that sound wired_static [OF that] definitions_static [OF that]
    by (intro states_evaluateAncestors_other) (auto simp: sound_def acyclic_def)
  show ?thesis
  proof (cases "case definitionForOutputLocked sv x of None \<Rightarrow> False | Some d \<Rightarrow> is_summary d")
    case True
    then have "reconcileStateLocked aenv x raw sv = evaluateAncestors aenv x (acknowledgeTreeLocked aenv x {} sv)"
      using owned s raw \<open>s \<noteq> incoming\<close> by (simp add: reconcileStateLocked_def Let_def del: acknowledgeTreeLocked.simps)
    then show ?thesis
      using acknowledgeTree_pending [OF dep s(1,2) valid s(3)] anc [OF tree_op.static]
      by (simp del: acknowledgeTreeLocked.simps)
  next
    case False
    then have "reconcileStateLocked aenv x raw sv = evaluateAncestors aenv x (acknowledgeOneLocked aenv x sv)"
      using owned s raw \<open>s \<noteq> incoming\<close> by (simp add: reconcileStateLocked_def Let_def)
    then show ?thesis
      using acknowledgeOne_pending [OF dep s(1,2) valid s(3)] anc [OF static_acknowledgeOneLocked] by auto
  qed
qed

section \<open>Acknowledgements and everybody else\<close>

text \<open>The state the designer writes is pending and acknowledged, which \<open>ParseState\<close> refuses.\<close>

lemma acknowledgement_invalid:
  assumes "st_pending st" and "st_acknowledged st"
  shows "\<exists>e. validate_state st = Inl e"
proof -
  have "\<not> ok (validate_state st)" using assms by (simp add: validate_state_ok)
  then show ?thesis by (cases "validate_state st") auto
qed

lemma acknowledgement_refused:
  assumes "st_pending st" and "st_acknowledged st" and "decode_state cd raw = Some st"
  obtains e where "ParseState cd raw = Inl e"
  using acknowledgement_invalid [OF assms(1,2)] assms(3)
  by (auto simp: ParseState_def parseStateUnchecked_def)

lemma loadItems_error:
  assumes "subject \<in> set ss" and "\<And>c. \<exists>e. snd (fetch subject c) = Inl e"
  shows "\<exists>c' e. loadItems fetch ss items c = (c', Inl e)"
  using assms(1)
proof (induction ss arbitrary: items c)
  case (Cons s ss)
  obtain c1 g where load: "fetch s c = (c1, g)" by fastforce
  show ?case
  proof (cases g)
    case (Inr item)
    then have "s \<noteq> subject" using assms(2) [of c] load by auto
    then show ?thesis using Cons load Inr by simp
  qed (simp add: load)
qed simp

lemma listAlerts_refused:
  assumes "store_ListSubjects env ''.alert'' c = (c1, Inr ss)" and "x \<in> set ss"
    and "\<And>c. \<exists>c'. store_Get env x c = (c', Inr raw)" and "ParseState (dn_alert env) raw = Inl e"
  shows "fst (snd (listAlerts env c)) = StatusBadGateway"
proof -
  have "\<exists>e. snd (loadAlert env x c) = Inl e" for c
  proof (cases "validateSubjectSuffix x ''.alert''")
    case (Inr u)
    obtain c' where "store_Get env x c = (c', Inr raw)" using assms(3) by blast
    then show ?thesis by (simp add: loadAlert_def Inr loadWith_def assms(4))
  qed (simp add: loadAlert_def)
  from loadItems_error [OF assms(2), of "loadAlert env", OF this] obtain c' e' where
    "loadItems (loadAlert env) ss [] c1 = (c', Inl e')" by metis
  then show ?thesis by (simp add: listAlerts_def listItems_def assms(1) writeStoreError_def)
qed

end
