(* ===== verification/Designer_Properties.thy ===== *)
theory Designer_Properties
  imports Designer_Composed Modbus_Properties Alert_Properties Bus_Properties
begin

text \<open>
  The properties of the designer: what it does to the bus, what its writes come to in the services that
  read them, and its live sessions, each with a witness where it has hypotheses.
\<close>

section \<open>A concrete designer\<close>

text \<open>Every Get is answered with the same string, the payload 7 is the integer 7.\<close>

definition demo_stream :: "string \<Rightarrow> stream_env" where
  "demo_stream reply =
     demo_bus0\<lparr>se_request := (\<lambda>_ _ _. Inr \<lparr>rp_header = [], rp_data = Some (2 # bytes_of_string reply)\<rparr>),
       se_unmarshal := (\<lambda>p. if p = Some [7]
          then Some \<lparr>tm_sequence = 0, tm_value = Some (IntValue 7), tm_observed = None, tm_source = [],
                     tm_id = [], tm_expires = None\<rparr>
          else se_unmarshal demo_bus0 p)\<rparr>"

definition demo_acked :: state where "demo_acked = demo_pending\<lparr>st_acknowledged := True\<rparr>"

definition demo_alert_codec :: codec where
  "demo_alert_codec =
     \<lparr>decode_properties = map_of [(''ack'', demo_properties True)], decode_config = (\<lambda>_. None),
      decode_state = map_of [(''acked'', demo_acked), (''pending'', demo_pending)],
      encode_properties = (\<lambda>p. if p = demo_properties True then Some ''ack'' else None),
      encode_config = (\<lambda>_. None), encode_state = (\<lambda>s. if s = demo_acked then Some ''acked'' else None)\<rparr>"

definition demo_designer :: "stream_env \<Rightarrow> designer_env" where
  "demo_designer stream =
     \<lparr>dn_stream = stream, dn_alert = demo_alert_codec, dn_json = demo_json, dn_modbus = demo_modbus_codec,
      dn_of_connection_config = (\<lambda>_. None),
      dn_of_address_config =
        (\<lambda>a. if a = demo_address_config RegisterHoldingRegister 10 EncodingInt16 then Some ''h10'' else None)\<rparr>"

definition demo_address_record :: address_record where
  "demo_address_record =
     \<lparr>ar_subject = ''S.address'', ar_version = 0, ar_driver = [], ar_value_type = HwOther [], ar_enabled = True,
      ar_connection = ''L.config'', ar_publish_on_change = True,
      ar_config = demo_address_config RegisterHoldingRegister 10 EncodingInt16, ar_telemetry = []\<rparr>"

lemma demo_designer_faithful: "faithful_json (demo_designer stream)"
  by (simp add: faithful_json_def demo_designer_def demo_json_def demo_modbus_codec_def demo_alert_codec_def)

section \<open>Requests\<close>

text \<open>C29. A request that reads or is refused publishes nothing. A request that is granted publishes one
  value, for the subject of the record in the response: the encoding of that record, which has passed all
  checks.\<close>

theorem designer_confirms_what_it_publishes:
  "case serve env req c of (c', status, body) \<Rightarrow>
     if is_read req \<or> 400 \<le> status then sc_bus c' = sc_bus c
     else \<exists>subject raw. published c c' subject raw \<and> confirms env body subject raw"
proof (cases "is_read req")
  case True
  then show ?thesis using read_requests [OF True, of c env] by (auto simp: untouched_def split: prod.split)
next
  case False
  then show ?thesis
    using write_requests [OF False, of env c] stored_published
    by (fastforce simp: answered_def split: prod.splits if_splits)
qed

text \<open>C30. A saved connection, address, alert configuration or set of alert properties is loaded as it was
  confirmed, as soon as the retain server has received what the designer published.\<close>

theorem saved_record_is_loaded:
  assumes "serve env req c = (c', status, body)" and "\<not> is_read req" and "status < 400"
    and "\<forall>r. body \<noteq> AlertBody r" and "sc_bus c' = new @ sc_bus c" and "faithful_json env"
    and "proto_round_trip (dn_stream env)"
    and "answered_by (dn_stream env) (sc_calls c') (sc_system c) (deliver_bus (dn_stream env) new sr)"
  shows "loads_as env body c'"
proof -
  have "answered env c (c', status, body)" using write_requests [OF assms(2), of env c] assms(1) by simp
  then obtain subject raw where "stored env c c' subject raw" "confirms env body subject raw"
    using assms(3) by (auto simp: answered_def)
  then show ?thesis using stored_record_loads assms(4-8) by blast
qed

definition demo_properties_record :: alert_properties_record where
  "demo_properties_record =
     \<lparr>ap_subject = demo_property, ap_properties = demo_properties True, ap_references = 7\<rparr>"

definition demo_saved_client :: stream_client where
  "demo_saved_client = fst (store_Set (demo_designer demo_bus0) demo_property ''ack'' demo_client)"

definition demo_saved_bus :: stream_env where "demo_saved_bus = demo_retained (sc_bus demo_saved_client)"

lemma demo_saved_properties:
  "serve (demo_designer demo_saved_bus) (PostAlertProperties (Inr demo_properties_record, True)) demo_client =
     (demo_saved_client, StatusCreated, AlertPropertiesBody demo_properties_record)"
proof -
  have full: "validateOperation demo_client demo_property = Inr (''s.'' @ demo_property)"
    unfolding demo_client_def by code_simp
  have "snd (store_Set (demo_designer demo_bus0) demo_property ''ack'' demo_client) = Inr ()"
    unfolding demo_client_def by code_simp
  then have "store_Set (demo_designer demo_saved_bus) demo_property ''ack'' demo_client = (demo_saved_client, Inr ())"
    using demo_retained_set [OF full]
    by (simp add: store_Set_def demo_saved_bus_def demo_designer_def demo_saved_client_def prod_eq_iff)
  moreover have "ValidatePropertiesSubject demo_property = Inr ()" by code_simp
  moreover have "MarshalProperties demo_alert_codec (demo_properties True) = Inr ''ack''" by code_simp
  moreover have "pr_version (demo_properties True) = 1" by code_simp
  ultimately show ?thesis
    by (simp add: serve_def createAlertProperties_def decodeRequest_def saveAlertProperties_def demo_properties_record_def)
      (simp add: demo_designer_def)
qed

theorem saved_record_is_loaded_witness:
  "snd (loadAlertProperties (demo_designer demo_saved_bus) demo_property demo_saved_client) =
     Inr (demo_properties_record\<lparr>ap_references := 0\<rparr>)"
proof -
  have calls: "sc_calls demo_saved_client = 5"
    unfolding demo_saved_client_def demo_client_def by code_simp
  have stream: "dn_stream (demo_designer e) = e" for e by (simp add: demo_designer_def)
  have bus: "sc_bus demo_saved_client = sc_bus demo_saved_client @ sc_bus demo_client" by (simp add: demo_client_fields)
  have proto: "proto_round_trip (dn_stream (demo_designer demo_saved_bus))"
    and answers: "answered_by (dn_stream (demo_designer demo_saved_bus)) (sc_calls demo_saved_client) (sc_system demo_client)
      (deliver_bus (dn_stream (demo_designer demo_saved_bus)) (sc_bus demo_saved_client) demo_server)"
    unfolding stream calls demo_saved_bus_def by (rule demo_proto, rule demo_retained_answers)
  have "loads_as (demo_designer demo_saved_bus) (AlertPropertiesBody demo_properties_record) demo_saved_client"
    by (rule saved_record_is_loaded [OF demo_saved_properties _ _ _ bus demo_designer_faithful proto answers])
      (simp_all add: is_read_def StatusCreated_def)
  then show ?thesis by (simp add: loads_as_def) (simp add: demo_properties_record_def)
qed

text \<open>C31. An address saved by the designer is what the Modbus service does: when the descriptor arrives at a
  running service that has the connection, the worker of the connection polls a point for the telemetry
  subject, with the table, register and encoding of the record; and when the record is disabled, no worker
  publishes on that subject any more.\<close>

theorem saved_address_is_polled:
  assumes "saveAddress env status item c = (c', status', AddressBody r)"
    and "faithful_json env" and "mv_json menv = dn_json env" and "mv_codec menv = dn_modbus env"
    and "fair_order menv" and "modbus_reachable menv sv" and "ms_started sv"
    and "map_of (ms_connections sv) (ar_connection r) = Some conn"
  shows "\<exists>raw. published c c' (ar_subject r) raw \<and>
    (let workers = map_of (ms_workers (reconcileAddress menv (ar_subject r) raw sv))
     in if ar_enabled r
        then \<exists>w p. workers (ar_connection r) = Some w \<and> wk_connection w = cd_connection conn \<and> p \<in> set (wk_points w) \<and>
          pp_subject p = ar_telemetry r \<and> pp_publish_on_change p = ar_publish_on_change r \<and>
          pt_register (pp_point p) = ac_register (ar_config r) \<and> pt_address (pp_point p) = ac_address (ar_config r) \<and>
          pt_encoding (pp_point p) = ac_encoding (ar_config r) \<and> pt_url (pp_point p) = mc_url (cd_connection conn)
        else \<forall>s w p. workers s = Some w \<longrightarrow> p \<in> set (wk_points w) \<longrightarrow> pp_subject p \<noteq> ar_telemetry r)"
  by (rule saved_address_polled [OF assms(1-5) modbus_reachable_sound [OF assms(5,6)] assms(7,8)])
    (intro exI conjI, assumption, simp add: Let_def)

lemma demo_saved:
  "snd (saveAddress (demo_designer (demo_stream ''old'')) 201 demo_address_record demo_client) =
     (201, AddressBody (demo_address_record\<lparr>ar_version := 1, ar_driver := ''modbus'', ar_value_type := HwInt64,
        ar_telemetry := ''S''\<rparr>))"
  unfolding demo_client_def by code_simp

theorem saved_address_is_polled_witness:
  "\<exists>raw w p. map_of (ms_workers (reconcileAddress demo_modbus ''S.address'' raw demo_started)) ''L.config'' = Some w \<and>
     p \<in> set (wk_points w) \<and> pp_subject p = ''S'' \<and> pt_address (pp_point p) = 10"
proof -
  let ?r = "demo_address_record\<lparr>ar_version := 1, ar_driver := ''modbus'', ar_value_type := HwInt64, ar_telemetry := ''S''\<rparr>"
  let ?env = "demo_designer (demo_stream ''old'')"
  obtain c' where saved: "saveAddress ?env 201 demo_address_record demo_client = (c', 201, AddressBody ?r)"
    using demo_saved by (metis prod.collapse)
  have env: "mv_json demo_modbus = dn_json ?env" "mv_codec demo_modbus = dn_modbus ?env"
    by (simp_all add: demo_modbus_def demo_designer_def)
  have started: "ms_started demo_started" by code_simp
  have "ar_connection ?r = ''L.config''" by (simp add: demo_address_record_def)
  moreover obtain conn where "map_of (ms_connections demo_started) ''L.config'' = Some conn"
    using demo_worker soundD(4) [OF demo_sound started, of "''L.config''"] by (auto simp: worker_current_def)
  ultimately show ?thesis
    using saved_address_is_polled [OF saved demo_designer_faithful env demo_fair demo_reachable started, of conn]
    by (auto simp: Let_def demo_address_record_def demo_address_config_def)
qed

section \<open>Acknowledgements\<close>

text \<open>C32. When the alert service owns an alert that is pending in the episode the designer has read, the value
  the designer publishes acknowledges it: afterwards the state is the one it had, acknowledged at the time of
  the service.\<close>

theorem acknowledgement_reaches_the_alert:
  assumes "acknowledgeAlert env x c0 = (c1, status, AlertBody r)"
    and "dependable aenv" and "sound aenv sv" and "map_of (sv_by_output sv) x = Some c"
    and "map_of (sv_states sv) x = Some s" and "st_pending s" and "st_episode s \<noteq> []"
    and "st_episode (al_state r) = st_episode s"
    and "\<forall>raw. encode_state (dn_alert env) (al_state r) = Some raw \<longrightarrow>
      decode_state (en_codec aenv) raw = Some (al_state r)"
  shows "\<exists>raw t. published c0 c1 x raw \<and>
    map_of (sv_states (reconcileStateLocked aenv x raw sv)) x =
      Some (s\<lparr>st_pending := False, st_acknowledged := True, st_ack := Some (utc t)\<rparr>)"
proof -
  obtain raw where raw: "stored env c0 c1 x raw" "encode_state (dn_alert env) (al_state r) = Some raw"
    "st_pending (al_state r)" "st_acknowledged (al_state r)"
    using acknowledgeAlert_granted [OF assms(1)] by metis
  then have "parseStateUnchecked (en_codec aenv) raw = Inr (al_state r)"
    using assms(9) by (simp add: parseStateUnchecked_def)
  from acknowledgement_applied [OF assms(2-7) this raw(3,4) assms(8)]
  show ?thesis using stored_published [OF raw(1)] by (auto simp: acknowledged_at_def)
qed

lemma demo_acknowledged:
  "snd (acknowledgeAlert (demo_designer (demo_stream ''pending'')) ''A.alert'' demo_client) =
     (200, AlertBody \<lparr>al_subject = ''A.alert'', al_state = demo_acked\<rparr>)"
  unfolding demo_client_def by code_simp

text \<open>The alert service of the demonstration, with a codec that reads acknowledgements.\<close>

definition demo_ack_env :: env where
  "demo_ack_env = demo_env\<lparr>en_codec := demo_codec\<lparr>decode_state := map_of [(''acked'', demo_acked)]\<rparr>\<rparr>"

definition demo_ack_service :: service where
  "demo_ack_service =
     fold (handle demo_ack_env) (one_alert @ [InputValue [''A.alert_config''] ''A'' (VBool True)])
       (fst (Run demo_ack_env (\<lambda>_. []) (\<lambda>_. []) newService))"

lemma demo_ack_service:
  "sound demo_ack_env demo_ack_service" "dependable demo_ack_env"
  "sv_by_output demo_ack_service = [(''A.alert'', ''A.alert_config'')]"
  "sv_states demo_ack_service = [(''A.alert'', demo_pending)]"
proof -
  show "sound demo_ack_env demo_ack_service"
    unfolding demo_ack_service_def by (intro reachable_sound reachable_fold reachable.run reachable.new)
  show "dependable demo_ack_env" by (simp add: dependable_def demo_ack_env_def demo_env_def demo_codec_def)
  show "sv_by_output demo_ack_service = [(''A.alert'', ''A.alert_config'')]" by code_simp
  show "sv_states demo_ack_service = [(''A.alert'', demo_pending)]" by code_simp
qed

theorem acknowledgement_reaches_the_alert_witness:
  "\<exists>raw t. map_of (sv_states (reconcileStateLocked demo_ack_env ''A.alert'' raw demo_ack_service)) ''A.alert'' =
     Some (demo_pending\<lparr>st_pending := False, st_acknowledged := True, st_ack := Some (utc t)\<rparr>)"
proof -
  let ?env = "demo_designer (demo_stream ''pending'')"
  obtain c1 where ack: "acknowledgeAlert ?env ''A.alert'' demo_client =
      (c1, 200, AlertBody \<lparr>al_subject = ''A.alert'', al_state = demo_acked\<rparr>)"
    using demo_acknowledged by (metis prod.collapse)
  show ?thesis
    using acknowledgement_reaches_the_alert [OF ack demo_ack_service(2,1), of "''A.alert_config''" demo_pending]
    by (auto simp: demo_ack_service(3,4) demo_pending_def demo_acked_def demo_designer_def demo_alert_codec_def
        demo_ack_env_def)
qed

text \<open>C33. But what the designer publishes then is a state that is pending and acknowledged, which the program
  itself takes for invalid. Until the alert service answers, the browsers that follow the alert get an error
  instead of a state, and the list of all alerts cannot be read. When no service owns the alert any more, it
  is ignored and nothing ever replaces it.\<close>

theorem acknowledgement_is_unreadable:
  assumes "acknowledgeAlert env x c = (c', status, AlertBody r)" and "faithful_json env"
  shows "\<exists>raw e. published c c' x raw \<and> ParseState (dn_alert env) raw = Inl e \<and>
    live_event_of env (AlertHandler x) (StringValue raw) = LiveError x (wrapf ''parse alert state: %v'' [] e) \<and>
    (\<forall>c1 c2 ss. store_ListSubjects env ''.alert'' c1 = (c2, Inr ss) \<longrightarrow> x \<in> set ss \<longrightarrow>
       (\<forall>c3. \<exists>c4. store_Get env x c3 = (c4, Inr raw)) \<longrightarrow> fst (snd (listAlerts env c1)) = StatusBadGateway) \<and>
    (\<forall>aenv sv. en_codec aenv = dn_alert env \<longrightarrow> map_of (sv_by_output sv) x = None \<longrightarrow>
       reconcileStateLocked aenv x raw sv = sv)"
proof -
  obtain raw where raw: "stored env c c' x raw" "encode_state (dn_alert env) (al_state r) = Some raw"
    "st_pending (al_state r)" "st_acknowledged (al_state r)"
    using acknowledgeAlert_granted [OF assms(1)] by metis
  have decoded: "decode_state (dn_alert env) raw = Some (al_state r)" using assms(2) raw(2) by (simp add: faithful_json_def)
  obtain e where e: "ParseState (dn_alert env) raw = Inl e" by (rule acknowledgement_refused [OF raw(3,4) decoded])
  have "reconcileStateLocked aenv x raw sv = sv"
    if "en_codec aenv = dn_alert env" "map_of (sv_by_output sv) x = None" for aenv sv
    using that acknowledgement_invalid [OF raw(3,4)] decoded
    by (auto simp: reconcileStateLocked_def Let_def parseStateUnchecked_def split: option.split)
  then show ?thesis
    using stored_published [OF raw(1)] e listAlerts_refused [OF _ _ _ e]
    by (intro exI [of _ raw] exI [of _ e]) (auto simp: live_event_of_def)
qed

theorem acknowledgement_is_unreadable_witness:
  "\<exists>raw e. ParseState (dn_alert (demo_designer (demo_stream ''pending''))) raw = Inl e"
proof -
  obtain c1 where "acknowledgeAlert (demo_designer (demo_stream ''pending'')) ''A.alert'' demo_client =
      (c1, 200, AlertBody \<lparr>al_subject = ''A.alert'', al_state = demo_acked\<rparr>)"
    using demo_acknowledged by (metis prod.collapse)
  from acknowledgement_is_unreadable [OF this demo_designer_faithful] show ?thesis by blast
qed

section \<open>Live sessions\<close>


definition demo_live :: "stream_client \<times> live_session" where
  "demo_live = live_steps (demo_designer (demo_stream ''speed'')) (\<lambda>_. True)
     [LiveCommand ''subscribe'' '' S.address'', LiveMessage 0 (Some [7])] demo_client"

lemma demo_live: "lv_subscriptions (snd demo_live) = [(''S.address'', 0)]" "lv_sent (snd demo_live) = [LiveValue ''S.address'' ''S'' (IntValue 7)]"
  unfolding demo_live_def demo_client_def by code_simp+


text \<open>C35. The events of a session are typed: a value event carries a Boolean, an integer or a number for the
  telemetry subject of its address, and an alert event carries a valid state.\<close>

theorem live_events_are_typed:
  assumes "ev \<in> set (lv_sent (snd (live env subscribes steps c)))"
  shows "case ev of
      LiveError _ _ \<Rightarrow> True
    | LiveAlert subject st \<Rightarrow> ok (validate_state st)
    | LiveValue subject telemetrySubject v \<Rightarrow>
        telemetrySubject = trim_suffix subject ''.address'' \<and> kind_of v \<in> {KindBool, KindInt, KindFloat}"
proof -
  let ?lv = "snd (live_steps env subscribes steps c)"
  have "live_typed ?lv" using live_steps_ok by blast
  moreover have "ev \<in> set (lv_sent ?lv)"
    using assms by (simp add: live_def live_close_keeps split: prod.splits)
  ultimately show ?thesis
    by (auto simp: live_typed_def typed_event_def split: live_event.split)
      (auto simp: typed_handler_def dest!: bspec)
qed

theorem live_events_are_typed_witness:
  "kind_of (IntValue 7) \<in> {KindBool, KindInt, KindFloat} \<and> trim_suffix ''S.address'' ''.address'' = ''S''"
proof -
  have sent: "lv_sent (snd (live env subscribes steps c)) = lv_sent (snd (live_steps env subscribes steps c))"
    for env subscribes steps c
    by (cases "live_steps env subscribes steps c") (simp add: live_def live_close_keeps)
  have "LiveValue ''S.address'' ''S'' (IntValue 7) \<in> set (lv_sent (snd (live (demo_designer (demo_stream ''speed''))
      (\<lambda>_. True) [LiveCommand ''subscribe'' '' S.address'', LiveMessage 0 (Some [7])] demo_client)))"
    unfolding sent using demo_live(2) by (simp add: demo_live_def)
  from live_events_are_typed [OF this] show ?thesis by simp
qed

end
