(* ===== verification/Simulator.thy ===== *)
theory Simulator
  imports Modbus_Config Stream_Set
begin

text \<open>
  The seeding of the simulator: \<open>simulator/main.go\<close> reads a manifest of descriptors, checks it, and sets every
  entry on the bus; \<open>simulator/replicate.go\<close> first stamps copies of the plant, each on its own block of
  registers. A value decoded into \<open>any\<close> is the datatype \<open>go_any\<close>; an object lists its members in the order in
  which \<open>range\<close> happens to visit them. The copy made by a replica is a fresh value, so its updates in place are a
  new value here. encoding/json is the record \<open>simulator_env\<close>, with the descriptor codecs; the conversion of
  a \<open>float64\<close> outside the range of \<open>int\<close> is left to the implementation by the language, so it is a function too.
  A failure that ends the process (\<open>log.Fatalf\<close>) is an error.
\<close>

section \<open>Values and environment\<close>

datatype go_any =
    AnyNil | AnyBool bool | AnyFloat f64 | AnyInt int | AnyNumber string | AnyString string
  | AnyArray "go_any list" | AnyObject "(string \<times> go_any) list"

record manifest_entry =
  me_subject :: string
  me_value :: string

text \<open>What a second \<open>Decode\<close> finds behind the manifest.\<close>

datatype trailing = TrailingEOF | TrailingValue | TrailingError go_error

record simulator_env =
  sm_json :: address_json
  sm_modbus :: modbus_codec
  sm_stream :: stream_env
  sm_manifest :: "string \<Rightarrow> manifest_entry list option"
  sm_trailing :: "string \<Rightarrow> trailing"
  sm_unmarshal :: "string \<Rightarrow> go_any option"
  sm_marshal :: "go_any \<Rightarrow> string option"
  sm_convert :: "f64 \<Rightarrow> int"

section \<open>Integers\<close>

text \<open>The integral part of a finite float.\<close>

definition f64_trunc :: "f64 \<Rightarrow> int" where
  "f64_trunc w =
     (let e = f64_mag w div 2 ^ 52;
          m = f64_mag w mod 2 ^ 52 + (if e = 0 then 0 else 2 ^ 52);
          k = max e 1 - 1075;
          n = (if 0 \<le> k then m * 2 ^ nat k else m div 2 ^ nat (- k))
      in if f64_neg w then - n else n)"

definition fits_int :: "int \<Rightarrow> bool" where
  "fits_int n \<longleftrightarrow> - (2 ^ 63) \<le> n \<and> n < 2 ^ 63"

text \<open>\<open>int(f)\<close>\<close>

definition int_of_float :: "simulator_env \<Rightarrow> f64 \<Rightarrow> int" where
  "int_of_float env w =
     (if f64_nan w \<or> f64_inf w \<or> \<not> fits_int (f64_trunc w) then sm_convert env w else f64_trunc w)"

text \<open>Arithmetic on \<open>int\<close> wraps.\<close>

definition wrap_int :: "int \<Rightarrow> int" where
  "wrap_int n = (n + 2 ^ 63) mod 2 ^ 64 - 2 ^ 63"

definition jsonInt :: "simulator_env \<Rightarrow> go_any \<Rightarrow> go_error + int" where
  "jsonInt env v =
     (case v of
        AnyFloat w \<Rightarrow> Inr (int_of_float env w)
      | AnyInt n \<Rightarrow> Inr n
      | AnyNumber s \<Rightarrow> (case parse_int64 s of None \<Rightarrow> Inl (errors_new ''strconv.ParseInt'') | Some n \<Rightarrow> Inr n)
      | _ \<Rightarrow> Inl (errors_new ''expected a number''))"

section \<open>Replicas\<close>

definition maxReplicas :: int where "maxReplicas = 999"

definition replicaStrides :: "(string \<times> (string \<times> int) list) list" where
  "replicaStrides =
     [(''Modbus.SimulatorTank.config'',
       [(''input'', 20), (''holding'', 20), (''discrete_input'', 3), (''coil'', 2)]),
      (''Modbus.SimulatorPumps.config'',
       [(''input'', 28), (''holding'', 28), (''discrete_input'', 4)]),
      (''Modbus.SimulatorUtility.config'',
       [(''input'', 16), (''holding'', 16), (''discrete_input'', 2), (''coil'', 1)])]"

definition replicaStride :: "string \<Rightarrow> string \<Rightarrow> go_error + int" where
  "replicaStride conn register =
     (case map_of replicaStrides conn of
        None \<Rightarrow> Inl (errorf ''no replica stride for connection %q'' [FStr conn])
      | Some byRegister \<Rightarrow>
          (case map_of byRegister register of
             None \<Rightarrow> Inl (errorf ''no replica stride for %s register %q'' [FStr conn, FStr register])
           | Some stride \<Rightarrow> Inr stride))"

definition isSharedReplicaSubject :: "string \<Rightarrow> bool" where
  "isSharedReplicaSubject subject \<longleftrightarrow>
     has_prefix subject ''AlertProperties.'' \<or> has_prefix subject ''Modbus.'' \<and> has_suffix subject ''.config''"

definition rewriteSubject :: "string \<Rightarrow> string \<Rightarrow> go_error + string" where
  "rewriteSubject subject replica =
     (if isSharedReplicaSubject subject then Inr subject
      else if has_prefix subject ''plant.''
      then Inr (''plant.'' @ replica @ ''.'' @ trim_prefix subject ''plant.'')
      else Inl (errorf ''cannot replicate subject %q'' [FStr subject]))"

text \<open>\<open>strings.Replace(text, old, new, 1)\<close>\<close>

fun replace_first :: "string \<Rightarrow> string \<Rightarrow> string \<Rightarrow> string" where
  "replace_first [] old new = (if old = [] then new else [])"
| "replace_first (c # cs) old new =
     (if has_prefix (c # cs) old then new @ drop (length old) (c # cs) else c # replace_first cs old new)"

text \<open>The string behind a type assertion whose failure is ignored.\<close>

definition any_string :: "go_any option \<Rightarrow> string" where
  "any_string v = (case v of Some (AnyString s) \<Rightarrow> s | _ \<Rightarrow> [])"

fun rewriteValue :: "string \<Rightarrow> go_any \<Rightarrow> go_error + go_any"
  and rewriteMembers :: "string \<Rightarrow> (string \<times> go_any) list \<Rightarrow> go_error + (string \<times> go_any) list"
  and rewriteElements :: "string \<Rightarrow> go_any list \<Rightarrow> go_error + go_any list" where
  "rewriteValue replica (AnyObject ms) =
     (case rewriteMembers replica ms of Inl e \<Rightarrow> Inl e | Inr ms' \<Rightarrow> Inr (AnyObject ms'))"
| "rewriteValue replica (AnyArray vs) =
     (case rewriteElements replica vs of Inl e \<Rightarrow> Inl e | Inr vs' \<Rightarrow> Inr (AnyArray vs'))"
| "rewriteValue replica v = Inr v"
| "rewriteMembers replica [] = Inr []"
| "rewriteMembers replica ((key, child) # ms) =
     (case (if key = ''text''
            then (case child of
                    AnyString text \<Rightarrow> Inr (AnyString (replace_first text ''Plant '' (''Plant '' @ replica @ '' '')))
                  | _ \<Rightarrow> Inl (errors_new ''text must be a string''))
            else rewriteValue replica child) of
        Inl e \<Rightarrow> Inl e
      | Inr child' \<Rightarrow>
          (case rewriteMembers replica ms of Inl e \<Rightarrow> Inl e | Inr ms' \<Rightarrow> Inr ((key, child') # ms')))"
| "rewriteElements replica [] = Inr []"
| "rewriteElements replica (child # vs) =
     (case (case child of
              AnyString text \<Rightarrow>
                (case rewriteSubject text replica of Inl e \<Rightarrow> Inl e | Inr rewritten \<Rightarrow> Inr (AnyString rewritten))
            | _ \<Rightarrow> rewriteValue replica child) of
        Inl e \<Rightarrow> Inl e
      | Inr child' \<Rightarrow>
          (case rewriteElements replica vs of Inl e \<Rightarrow> Inl e | Inr vs' \<Rightarrow> Inr (child' # vs')))"

definition offsetReplicaAddress :: "simulator_env \<Rightarrow> go_any \<Rightarrow> int \<Rightarrow> go_error + go_any" where
  "offsetReplicaAddress env v instance_no =
     (if instance_no = 0 then Inr v
      else (case v of
              AnyObject typed \<Rightarrow>
                (let conn = any_string (map_of typed ''connection'')
                 in case map_of typed ''config'' of
                      Some (AnyObject cfg) \<Rightarrow>
                        (let register = any_string (map_of cfg ''register'')
                         in case replicaStride conn register of
                              Inl e \<Rightarrow> Inl e
                            | Inr stride \<Rightarrow>
                                (case jsonInt env (case map_of cfg ''address'' of None \<Rightarrow> AnyNil | Some a \<Rightarrow> a) of
                                   Inl e \<Rightarrow> Inl (wrapf ''address: %w'' [] e)
                                 | Inr address \<Rightarrow>
                                     (let next = wrap_int (address + instance_no * stride)
                                      in if next > 0xffff
                                         then Inl (errorf ''address %d exceeds the register range'' [FInt next])
                                         else Inr (AnyObject (AList.update ''config''
                                                (AnyObject (AList.update ''address'' (AnyInt next) cfg)) typed)))))
                    | _ \<Rightarrow> Inl (errors_new ''address config must be an object''))
            | _ \<Rightarrow> Inl (errors_new ''address value must be an object'')))"

definition cloneReplica ::
    "simulator_env \<Rightarrow> manifest_entry \<Rightarrow> string \<Rightarrow> int \<Rightarrow> go_error + manifest_entry" where
  "cloneReplica env entry replica instance_no =
     (case rewriteSubject (me_subject entry) replica of
        Inl e \<Rightarrow> Inl e
      | Inr subject \<Rightarrow>
          (case sm_unmarshal env (me_value entry) of
             None \<Rightarrow> Inl (errorf ''decode %s'' [FStr (me_subject entry)])
           | Some v0 \<Rightarrow>
               (case rewriteValue replica v0 of
                  Inl e \<Rightarrow> Inl (wrapf ''rewrite %s: %w'' [FStr (me_subject entry)] e)
                | Inr v1 \<Rightarrow>
                    (case (if has_suffix (me_subject entry) ''.address''
                           then offsetReplicaAddress env v1 instance_no else Inr v1) of
                       Inl e \<Rightarrow> Inl (wrapf ''offset %s: %w'' [FStr (me_subject entry)] e)
                     | Inr v2 \<Rightarrow>
                         (case sm_marshal env v2 of
                            None \<Rightarrow> Inl (errorf ''encode %s'' [FStr subject])
                          | Some encoded \<Rightarrow> Inr \<lparr>me_subject = subject, me_value = encoded\<rparr>)))))"

section \<open>The manifest\<close>

text \<open>
  The first loop of \<open>validateManifest\<close>: the entries with their subjects trimmed, which the caller's slice holds
  afterwards, and the connections.
\<close>

fun checkEntries ::
    "simulator_env \<Rightarrow> nat \<Rightarrow> string list \<Rightarrow> (string \<times> connection) list \<Rightarrow> manifest_entry list \<Rightarrow>
     go_error + (manifest_entry list \<times> (string \<times> connection) list)" where
  "checkEntries env index subjects connections [] = Inr ([], connections)"
| "checkEntries env index subjects connections (entry0 # rest) =
     (let entry = entry0\<lparr>me_subject := trim_space (me_subject entry0)\<rparr>;
          subject = me_subject entry;
          continue = (\<lambda>conns.
            (case checkEntries env (Suc index) (subject # subjects) conns rest of
               Inl e \<Rightarrow> Inl e | Inr (entries, conns') \<Rightarrow> Inr (entry # entries, conns')))
      in if subject = [] then Inl (errorf ''entry %d has an empty subject'' [FInt (int index)])
         else if subject \<in> set subjects then Inl (errorf ''duplicate subject %q'' [FStr subject])
         else if trim_space (me_value entry) = [] \<or> \<not> json_valid (sm_json env) (me_value entry)
         then Inl (errorf ''subject %q has invalid JSON'' [FStr subject])
         else if \<not> has_suffix subject ''.config'' then continue connections
         else (case parse_hw_connection (sm_json env) (me_value entry) of
                 Inl e \<Rightarrow> Inl (wrapf ''%s: %w'' [FStr subject] e)
               | Inr envelope \<Rightarrow>
                   (case ParseConnection (sm_modbus env) envelope of
                      Inl e \<Rightarrow> Inl (wrapf ''%s: %w'' [FStr subject] e)
                    | Inr conn \<Rightarrow> continue (AList.update subject conn connections))))"

text \<open>One turn of the second loop.\<close>

definition checkAddress :: "simulator_env \<Rightarrow> (string \<times> connection) list \<Rightarrow> manifest_entry \<Rightarrow> go_error + unit" where
  "checkAddress env connections entry =
     (if \<not> has_suffix (me_subject entry) ''.address'' then Inr ()
      else (case parse_descriptor (sm_json env) (me_value entry) of
              Inl e \<Rightarrow> Inl (wrapf ''%s: %w'' [FStr (me_subject entry)] e)
            | Inr envelope \<Rightarrow>
                (case map_of connections (ds_connection envelope) of
                   None \<Rightarrow> Inl (errorf ''%s references unknown connection %q''
                                [FStr (me_subject entry), FStr (ds_connection envelope)])
                 | Some conn \<Rightarrow>
                     (case ParsePoint (sm_modbus env) envelope conn of
                        Inl e \<Rightarrow> Inl (wrapf ''%s: %w'' [FStr (me_subject entry)] e)
                      | Inr _ \<Rightarrow> Inr ()))))"

definition validateManifest :: "simulator_env \<Rightarrow> manifest_entry list \<Rightarrow> go_error + manifest_entry list" where
  "validateManifest env entries =
     (case checkEntries env 0 [] [] entries of
        Inl e \<Rightarrow> Inl e
      | Inr (trimmed, connections) \<Rightarrow>
          (case check_all (checkAddress env connections) trimmed of Inl e \<Rightarrow> Inl e | Inr _ \<Rightarrow> Inr trimmed))"

definition parseManifest :: "simulator_env \<Rightarrow> string \<Rightarrow> go_error + manifest_entry list" where
  "parseManifest env data =
     (case sm_manifest env data of
        None \<Rightarrow> Inl (errors_new ''decode manifest'')
      | Some entries \<Rightarrow>
          (case sm_trailing env data of
             TrailingValue \<Rightarrow> Inl (errors_new ''manifest contains multiple JSON values'')
           | TrailingError e \<Rightarrow> Inl (wrapf ''finish manifest: %w'' [] e)
           | TrailingEOF \<Rightarrow> validateManifest env entries))"

text \<open>\<open>fmt.Sprintf("%03d", index)\<close>\<close>

definition replica_id :: "nat \<Rightarrow> string" where
  "replica_id index = (let ds = decimal index in replicate (3 - length ds) (CHR ''0'') @ ds)"

fun cloneEntries ::
    "simulator_env \<Rightarrow> string \<Rightarrow> int \<Rightarrow> manifest_entry list \<Rightarrow> go_error + manifest_entry list" where
  "cloneEntries env replica instance_no [] = Inr []"
| "cloneEntries env replica instance_no (entry # rest) =
     (if isSharedReplicaSubject (me_subject entry) then cloneEntries env replica instance_no rest
      else (case cloneReplica env entry replica instance_no of
              Inl e \<Rightarrow> Inl (wrapf ''replica %s: %w'' [FStr replica] e)
            | Inr cloned \<Rightarrow>
                (case cloneEntries env replica instance_no rest of
                   Inl e \<Rightarrow> Inl e | Inr clones \<Rightarrow> Inr (cloned # clones))))"

text \<open>The replicas \<open>index\<close>, \<open>index + 1\<close> and so on, \<open>n\<close> of them.\<close>

fun cloneReplicas ::
    "simulator_env \<Rightarrow> manifest_entry list \<Rightarrow> nat \<Rightarrow> nat \<Rightarrow> go_error + manifest_entry list" where
  "cloneReplicas env template index 0 = Inr []"
| "cloneReplicas env template index (Suc n) =
     (case cloneEntries env (replica_id index) (int index - 1) template of
        Inl e \<Rightarrow> Inl e
      | Inr clones \<Rightarrow>
          (case cloneReplicas env template (Suc index) n of
             Inl e \<Rightarrow> Inl e | Inr others \<Rightarrow> Inr (clones @ others)))"

definition expandReplicas ::
    "simulator_env \<Rightarrow> manifest_entry list \<Rightarrow> int \<Rightarrow> go_error + manifest_entry list" where
  "expandReplicas env template replicas =
     (if replicas < 0 then Inl (errors_new ''replicas must be >= 0'')
      else if replicas > maxReplicas then Inl (errorf ''replicas must be <= %d'' [FInt maxReplicas])
      else (case cloneReplicas env template 1 (nat replicas) of
              Inl e \<Rightarrow> Inl e
            | Inr clones \<Rightarrow> validateManifest env (template @ clones)))"

section \<open>Seeding\<close>

fun seedEntries :: "simulator_env \<Rightarrow> manifest_entry list \<Rightarrow> stream_client \<Rightarrow> stream_client \<times> (go_error + unit)" where
  "seedEntries env [] c = (c, Inr ())"
| "seedEntries env (entry # rest) c =
     (case set_value (sm_stream env) (me_subject entry) (StringValue (me_value entry)) c of
        (c1, Inl e) \<Rightarrow> (c1, Inl (wrapf ''seed %s: %v'' [FStr (me_subject entry)] e))
      | (c1, Inr _) \<Rightarrow> seedEntries env rest c1)"

definition seed_simulator ::
    "simulator_env \<Rightarrow> string \<Rightarrow> int \<Rightarrow> stream_client \<Rightarrow> stream_client \<times> (go_error + unit)" where
  "seed_simulator env data replicas c =
     (case parseManifest env data of
        Inl e \<Rightarrow> (c, Inl (wrapf ''validate simulator descriptors: %v'' [] e))
      | Inr template \<Rightarrow>
          (case expandReplicas env template replicas of
             Inl e \<Rightarrow> (c, Inl (wrapf ''expand simulator replicas: %v'' [] e))
           | Inr entries \<Rightarrow> seedEntries env entries c))"

end
