(* ===== verification/Simulator_Spec.thy ===== *)
theory Simulator_Spec
  imports Simulator Modbus_Service_Inv Designer_Spec
begin

text \<open>
  What the seeding of the simulator promises: which manifests are accepted, what a replica consists of, that
  the replicas read registers of their own, and that a seeded address is polled by the Modbus service.
\<close>

section \<open>Manifests\<close>

definition trimmed_entry :: "manifest_entry \<Rightarrow> manifest_entry" where
  "trimmed_entry e = e\<lparr>me_subject := trim_space (me_subject e)\<rparr>"

lemma trimmed_entry_fields [simp]:
  "me_subject (trimmed_entry e) = trim_space (me_subject e)" "me_value (trimmed_entry e) = me_value e"
  by (simp_all add: trimmed_entry_def)

text \<open>The connection an entry describes.\<close>

definition entry_connection :: "simulator_env \<Rightarrow> manifest_entry \<Rightarrow> go_error + connection" where
  "entry_connection env e =
     (case parse_hw_connection (sm_json env) (me_value e) of
        Inl err \<Rightarrow> Inl err | Inr envelope \<Rightarrow> ParseConnection (sm_modbus env) envelope)"

definition usable_entry :: "simulator_env \<Rightarrow> manifest_entry \<Rightarrow> bool" where
  "usable_entry env e \<longleftrightarrow>
     me_subject e \<noteq> [] \<and> trim_space (me_value e) \<noteq> [] \<and> json_valid (sm_json env) (me_value e) \<and>
     (has_suffix (me_subject e) ''.config'' \<longrightarrow> ok (entry_connection env e))"

text \<open>An address names a connection of the manifest and is a point of it.\<close>

definition usable_address :: "simulator_env \<Rightarrow> manifest_entry list \<Rightarrow> manifest_entry \<Rightarrow> bool" where
  "usable_address env es e \<longleftrightarrow>
     (\<exists>d k conn. parse_descriptor (sm_json env) (me_value e) = Inr d \<and> k \<in> set es \<and>
        me_subject k = ds_connection d \<and> has_suffix (me_subject k) ''.config'' \<and>
        entry_connection env k = Inr conn \<and> ok (ParsePoint (sm_modbus env) d conn))"

definition usable_manifest :: "simulator_env \<Rightarrow> manifest_entry list \<Rightarrow> bool" where
  "usable_manifest env es \<longleftrightarrow>
     distinct (map me_subject es) \<and> (\<forall>e\<in>set es. usable_entry env e) \<and>
     (\<forall>e\<in>set es. has_suffix (me_subject e) ''.address'' \<longrightarrow> usable_address env es e)"

text \<open>The connections the first loop collects from trimmed entries.\<close>

definition connections_of :: "simulator_env \<Rightarrow> manifest_entry list \<Rightarrow> (string \<rightharpoonup> connection)" where
  "connections_of env es s =
     (case find (\<lambda>e. me_subject e = s) es of
        None \<Rightarrow> None
      | Some e \<Rightarrow> if has_suffix s ''.config'' then (case entry_connection env e of Inl _ \<Rightarrow> None | Inr c \<Rightarrow> Some c)
                  else None)"

lemma find_SomeD: "find P xs = Some x \<Longrightarrow> x \<in> set xs \<and> P x"
  by (auto simp: find_Some_iff)

lemma connections_of_Nil [simp]: "connections_of env [] = Map.empty"
  by (simp add: connections_of_def fun_eq_iff)

lemma connections_of_Cons:
  "connections_of env (e # es) =
     (if has_suffix (me_subject e) ''.config''
      then (connections_of env es)(me_subject e := (case entry_connection env e of Inl _ \<Rightarrow> None | Inr c \<Rightarrow> Some c))
      else (connections_of env es)(me_subject e := None))"
  by (auto simp: connections_of_def fun_eq_iff)

lemma connections_of_fresh: "s \<notin> me_subject ` set es \<Longrightarrow> connections_of env es s = None"
  by (auto simp: connections_of_def find_None_iff split: option.split dest: find_SomeD)

lemma connections_of_entry:
  assumes "distinct (map me_subject es)" and "e \<in> set es"
  shows "connections_of env es (me_subject e) =
    (if has_suffix (me_subject e) ''.config'' then (case entry_connection env e of Inl _ \<Rightarrow> None | Inr c \<Rightarrow> Some c) else None)"
  using assms
proof (induction es)
  case (Cons a es)
  then have "e \<noteq> a \<Longrightarrow> e \<in> set es" "me_subject a \<notin> me_subject ` set es" by auto
  then have "e \<noteq> a \<Longrightarrow> me_subject e \<noteq> me_subject a" by (metis imageI)
  then show ?case using Cons by (cases "e = a") (auto simp: connections_of_Cons)
qed simp

text \<open>The first loop.\<close>

lemma checkEntries_step:
  "checkEntries env i seen conns (e # rest) = Inr (es', conns') \<longleftrightarrow>
     usable_entry env (trimmed_entry e) \<and> trim_space (me_subject e) \<notin> set seen \<and>
     (\<exists>es''. es' = trimmed_entry e # es'' \<and>
        checkEntries env (Suc i) (trim_space (me_subject e) # seen)
          (if has_suffix (trim_space (me_subject e)) ''.config''
           then AList.update (trim_space (me_subject e)) (projr (entry_connection env e)) conns else conns)
          rest = Inr (es'', conns'))"
  by (auto simp: Let_def usable_entry_def entry_connection_def trimmed_entry_def [symmetric] case_Inr_iff ok_iff
      split: sum.splits prod.splits)

declare checkEntries.simps(2) [simp del]

lemma entry_connection_trimmed [simp]: "entry_connection env (trimmed_entry e) = entry_connection env e"
  by (simp add: entry_connection_def)

lemma checkEntries_sound:
  assumes "checkEntries env i seen conns es = Inr (es', conns')"
  shows "es' = map trimmed_entry es \<and> distinct (map me_subject es') \<and> set seen \<inter> me_subject ` set es' = {} \<and>
    (\<forall>e\<in>set es'. usable_entry env e) \<and> map_of conns' = map_of conns ++ connections_of env es'"
  using assms
proof (induction es arbitrary: i seen conns es')
  case Nil
  then show ?case by simp
next
  case (Cons e es)
  from Cons.prems [unfolded checkEntries_step] obtain es'' where
    e: "usable_entry env (trimmed_entry e)" "trim_space (me_subject e) \<notin> set seen" "es' = trimmed_entry e # es''"
    and rest: "checkEntries env (Suc i) (trim_space (me_subject e) # seen)
          (if has_suffix (trim_space (me_subject e)) ''.config''
           then AList.update (trim_space (me_subject e)) (projr (entry_connection env e)) conns else conns)
          es = Inr (es'', conns')" by blast
  note IH = Cons.IH [OF rest]
  have "set (trim_space (me_subject e) # seen) \<inter> me_subject ` set es'' = {}" using IH by (elim conjE)
  then have fresh: "trim_space (me_subject e) \<notin> me_subject ` set es''" "set seen \<inter> me_subject ` set es'' = {}"
    by auto
  have "connections_of env es'' (trim_space (me_subject e)) = None"
    by (rule connections_of_fresh) (rule fresh(1))
  moreover have "\<exists>c. entry_connection env e = Inr c" if "has_suffix (trim_space (me_subject e)) ''.config''"
    using e(1) that by (auto simp: usable_entry_def ok_iff)
  ultimately have "map_of conns' = map_of conns ++ connections_of env es'"
    using IH e(3) by (auto simp: connections_of_Cons fun_eq_iff map_add_def split: option.split)
  moreover have "distinct (map me_subject es'')" using IH by (elim conjE)
  then have "distinct (map me_subject es')" "set seen \<inter> me_subject ` set es' = {}"
    using fresh e(2,3) by simp_all
  ultimately show ?case using IH e by simp
qed

lemma checkEntries_complete:
  assumes "\<forall>e\<in>set es. usable_entry env (trimmed_entry e)"
    and "distinct (map (me_subject \<circ> trimmed_entry) es)" and "set seen \<inter> (me_subject \<circ> trimmed_entry) ` set es = {}"
  shows "\<exists>conns'. checkEntries env i seen conns es = Inr (map trimmed_entry es, conns')"
  using assms
proof (induction es arbitrary: i seen conns)
  case Nil
  then show ?case by simp
next
  case (Cons e es)
  let ?s = "trim_space (me_subject e)"
  have "\<exists>conns'. checkEntries env (Suc i) (?s # seen)
      (if has_suffix ?s ''.config'' then AList.update ?s (projr (entry_connection env e)) conns else conns) es =
      Inr (map trimmed_entry es, conns')"
    by (rule Cons.IH) (use Cons.prems in auto)
  then show ?case using Cons.prems by (auto simp: checkEntries_step)
qed

lemma checkAddress_ok:
  assumes "distinct (map me_subject es)" and "\<forall>e\<in>set es. usable_entry env e"
    and "map_of conns = connections_of env es"
  shows "ok (checkAddress env conns e) \<longleftrightarrow> (has_suffix (me_subject e) ''.address'' \<longrightarrow> usable_address env es e)"
proof -
  have look: "map_of conns s = Some c \<longleftrightarrow>
      (\<exists>k\<in>set es. me_subject k = s \<and> has_suffix s ''.config'' \<and> entry_connection env k = Inr c)" for s c
  proof
    assume "map_of conns s = Some c"
    then have "connections_of env es s = Some c" using assms(3) by simp
    then show "\<exists>k\<in>set es. me_subject k = s \<and> has_suffix s ''.config'' \<and> entry_connection env k = Inr c"
      by (auto simp: connections_of_def split: option.splits if_splits sum.splits dest!: find_SomeD)
  next
    assume "\<exists>k\<in>set es. me_subject k = s \<and> has_suffix s ''.config'' \<and> entry_connection env k = Inr c"
    then show "map_of conns s = Some c" using connections_of_entry [OF assms(1)] assms(3) by auto
  qed
  show ?thesis
  proof (cases "parse_descriptor (sm_json env) (me_value e)")
    case (Inl err)
    then show ?thesis by (simp add: checkAddress_def usable_address_def)
  next
    case (Inr d)
    have "usable_address env es e \<longleftrightarrow>
        (\<exists>conn. map_of conns (ds_connection d) = Some conn \<and> ok (ParsePoint (sm_modbus env) d conn))"
      unfolding usable_address_def look using Inr by fastforce
    then show ?thesis
      using Inr by (cases "map_of conns (ds_connection d)") (auto simp: checkAddress_def ok_iff split: sum.splits)
  qed
qed

lemma validateManifest_exact:
  "validateManifest env es = Inr es' \<longleftrightarrow> es' = map trimmed_entry es \<and> usable_manifest env es'"
proof (cases "checkEntries env 0 [] [] es")
  case (Inl err)
  have "\<not> usable_manifest env (map trimmed_entry es)"
    using checkEntries_complete [of es env "[]" 0 "[]"] Inl by (auto simp: usable_manifest_def)
  then show ?thesis using Inl by (auto simp: validateManifest_def)
next
  case (Inr r)
  obtain es'' conns where r: "r = (es'', conns)" by fastforce
  note sound = checkEntries_sound [OF Inr [unfolded r]]
  have "ok (check_all (checkAddress env conns) es'') \<longleftrightarrow> usable_manifest env es''"
    using checkAddress_ok [of es'' env conns] sound by (auto simp: usable_manifest_def)
  then show ?thesis using sound by (auto simp: validateManifest_def Inr r unit_case_Inr_iff)
qed

lemma validateManifest_fixed: "validateManifest env es = Inr es' \<Longrightarrow> map trimmed_entry es' = es'"
  by (auto simp: validateManifest_exact trimmed_entry_def comp_def)

section \<open>What a replica consists of\<close>

definition replica_entries :: "simulator_env \<Rightarrow> manifest_entry list \<Rightarrow> nat \<Rightarrow> manifest_entry list" where
  "replica_entries env template i =
     (case cloneEntries env (replica_id i) (int i - 1) template of Inl _ \<Rightarrow> [] | Inr clones \<Rightarrow> clones)"

lemma cloneReplicas_Inr:
  assumes "cloneReplicas env template i n = Inr clones"
  shows "clones = concat (map (replica_entries env template) [i..<i + n]) \<and>
    (\<forall>j. i \<le> j \<longrightarrow> j < i + n \<longrightarrow> cloneEntries env (replica_id j) (int j - 1) template = Inr (replica_entries env template j))"
  using assms
proof (induction n arbitrary: i clones)
  case (Suc n)
  then obtain first others where first: "cloneEntries env (replica_id i) (int i - 1) template = Inr first"
    and others: "cloneReplicas env template (Suc i) n = Inr others" "clones = first @ others"
    by (auto simp: case_Inr_iff split: sum.splits)
  have "[i..<i + Suc n] = i # [Suc i..<Suc i + n]" by (simp add: upt_rec)
  then show ?case
    using Suc.IH [OF others(1)] first others(2) by (auto simp: replica_entries_def Suc_le_eq dest: le_neq_implies_less)
qed simp

lemma cloneEntries_Inr:
  "cloneEntries env replica k es = Inr clones \<Longrightarrow>
     list_all2 (\<lambda>e c. cloneReplica env e replica k = Inr c) (filter (\<lambda>e. \<not> isSharedReplicaSubject (me_subject e)) es) clones"
  by (induction es arbitrary: clones) (auto split: if_splits sum.splits)

text \<open>The subject of a copy.\<close>

definition replica_subject :: "nat \<Rightarrow> string \<Rightarrow> string" where
  "replica_subject i subject = ''plant.'' @ replica_id i @ ''.'' @ trim_prefix subject ''plant.''"

lemma cloneReplica_subject:
  assumes "cloneReplica env e (replica_id i) k = Inr c" and "\<not> isSharedReplicaSubject (me_subject e)"
  shows "me_subject c = replica_subject i (me_subject e)" and "has_prefix (me_subject e) ''plant.''"
  using assms by (auto simp: cloneReplica_def rewriteSubject_def replica_subject_def split: sum.splits option.splits if_splits)

lemma replica_entries_subjects:
  assumes "cloneEntries env (replica_id i) (int i - 1) template = Inr clones"
  shows "map me_subject clones =
    map (replica_subject i \<circ> me_subject) (filter (\<lambda>e. \<not> isSharedReplicaSubject (me_subject e)) template)"
proof -
  have "list_all2 (\<lambda>e c. me_subject c = (replica_subject i \<circ> me_subject) e)
      (filter (\<lambda>e. \<not> isSharedReplicaSubject (me_subject e)) template) clones"
    using cloneEntries_Inr [OF assms] by (rule list.rel_mono_strong) (auto dest: cloneReplica_subject(1))
  then show ?thesis
    by (simp add: list.rel_map list_all2_eq [where 'a = "char list"] eq_commute
        flip: list.rel_eq) (simp add: list_all2_map1 list_all2_map2 list_all2_conv_all_nth)
qed

lemma expandReplicas_Inr:
  assumes "expandReplicas env template replicas = Inr entries"
  shows "0 \<le> replicas \<and> replicas \<le> maxReplicas \<and> usable_manifest env entries \<and>
    entries = map trimmed_entry (template @ concat (map (replica_entries env template) [1..<Suc (nat replicas)])) \<and>
    (\<forall>i. 1 \<le> i \<longrightarrow> int i \<le> replicas \<longrightarrow>
       cloneEntries env (replica_id i) (int i - 1) template = Inr (replica_entries env template i))"
proof -
  have range: "0 \<le> replicas" "replicas \<le> maxReplicas"
    using assms by (auto simp: expandReplicas_def split: if_splits)
  then obtain clones where clones: "cloneReplicas env template 1 (nat replicas) = Inr clones"
    and valid: "validateManifest env (template @ clones) = Inr entries"
    using assms by (auto simp: expandReplicas_def split: sum.splits if_splits)
  note exact = iffD1 [OF validateManifest_exact valid]
  note whole = conjunct1 [OF exact] and usable = conjunct2 [OF exact]
  have bound: "i < 1 + nat replicas" if "int i \<le> replicas" for i using that by linarith
  have "entries = map trimmed_entry (template @ concat (map (replica_entries env template) [1..<Suc (nat replicas)]))"
    using whole cloneReplicas_Inr [OF clones] by (simp del: upt_Suc)
  then show ?thesis using range usable [folded whole] cloneReplicas_Inr [OF clones] bound by blast
qed

section \<open>The registers of a replica\<close>

text \<open>What the generic decoding shows of a point: connection, register, address and encoding.\<close>

definition any_config :: "simulator_env \<Rightarrow> (string \<times> go_any) list \<Rightarrow> (string \<times> int \<times> string) option" where
  "any_config env cfg =
     (case (map_of cfg ''register'', map_of cfg ''address'', map_of cfg ''encoding'') of
        (Some (AnyString register), Some a, Some (AnyString enc)) \<Rightarrow>
          (case jsonInt env a of Inl _ \<Rightarrow> None | Inr n \<Rightarrow> Some (register, n, enc))
      | _ \<Rightarrow> None)"

definition any_point :: "simulator_env \<Rightarrow> go_any \<Rightarrow> (string \<times> string \<times> int \<times> string) option" where
  "any_point env v =
     (case v of
        AnyObject ob \<Rightarrow>
          (case (map_of ob ''connection'', map_of ob ''config'') of
             (Some (AnyString conn), Some (AnyObject cfg)) \<Rightarrow> map_option (Pair conn) (any_config env cfg)
           | _ \<Rightarrow> None)
      | _ \<Rightarrow> None)"

lemma any_config_Some:
  "any_config env cfg = Some (register, n, enc) \<longleftrightarrow>
     map_of cfg ''register'' = Some (AnyString register) \<and> map_of cfg ''encoding'' = Some (AnyString enc) \<and>
     (\<exists>a. map_of cfg ''address'' = Some a \<and> jsonInt env a = Inr n)"
  by (auto simp: any_config_def split: option.splits go_any.splits sum.splits)

lemma any_point_Some:
  "any_point env v = Some (conn, register, n, enc) \<longleftrightarrow>
     (\<exists>ob cfg. v = AnyObject ob \<and> map_of ob ''connection'' = Some (AnyString conn) \<and>
        map_of ob ''config'' = Some (AnyObject cfg) \<and> any_config env cfg = Some (register, n, enc))"
  by (auto simp: any_point_def split: option.splits go_any.splits)

lemma rewriteMembers_Inr:
  assumes "rewriteMembers replica ms = Inr ms'" and "key \<noteq> ''text''" and "map_of ms key = Some v"
  shows "\<exists>v'. rewriteValue replica v = Inr v' \<and> map_of ms' key = Some v'"
  using assms
  by (induction ms arbitrary: ms') (auto simp: case_Inr_iff split: if_splits sum.splits go_any.splits)

lemma rewriteValue_string [simp]: "rewriteValue replica (AnyString s) = Inr (AnyString s)" by simp

lemma rewriteValue_int: "jsonInt env v = Inr n \<Longrightarrow> rewriteValue replica v = Inr v"
  by (cases v) (auto simp: jsonInt_def)

lemma rewriteValue_point:
  assumes "rewriteValue replica v = Inr v'" and "any_point env v = Some p"
  shows "any_point env v' = Some p"
proof -
  obtain conn register n enc where p: "p = (conn, register, n, enc)" by (cases p)
  then obtain ob cfg a where v: "v = AnyObject ob" "map_of ob ''connection'' = Some (AnyString conn)"
      "map_of ob ''config'' = Some (AnyObject cfg)"
    and cfg: "map_of cfg ''register'' = Some (AnyString register)" "map_of cfg ''encoding'' = Some (AnyString enc)"
      "map_of cfg ''address'' = Some a" "jsonInt env a = Inr n"
    using assms(2) by (auto simp: any_point_Some any_config_Some)
  obtain ob' where ob': "rewriteMembers replica ob = Inr ob'" "v' = AnyObject ob'"
    using assms(1) v(1) by (auto simp: case_Inr_iff split: sum.splits)
  obtain cfg' where cfg': "rewriteMembers replica cfg = Inr cfg'" "map_of ob' ''config'' = Some (AnyObject cfg')"
    using rewriteMembers_Inr [OF ob'(1) _ v(3)] by (auto simp: case_Inr_iff split: sum.splits)
  have "map_of ob' ''connection'' = Some (AnyString conn)" using rewriteMembers_Inr [OF ob'(1) _ v(2)] by simp
  moreover have "map_of cfg' ''register'' = Some (AnyString register)" "map_of cfg' ''encoding'' = Some (AnyString enc)"
      "map_of cfg' ''address'' = Some a"
    using rewriteMembers_Inr [OF cfg'(1) _ cfg(1)] rewriteMembers_Inr [OF cfg'(1) _ cfg(2)]
      rewriteMembers_Inr [OF cfg'(1) _ cfg(3)] rewriteValue_int [OF cfg(4)] by simp_all
  ultimately show ?thesis using p ob'(2) cfg'(2) cfg(4) by (auto simp: any_point_Some any_config_Some)
qed

definition stride_of :: "string \<Rightarrow> string \<Rightarrow> int" where
  "stride_of conn register = (case replicaStride conn register of Inl _ \<Rightarrow> 0 | Inr stride \<Rightarrow> stride)"

lemma replicaStride_bounds: "replicaStride conn register = Inr stride \<Longrightarrow> 0 < stride \<and> stride \<le> 28"
  by (auto simp: replicaStride_def replicaStrides_def split: option.splits if_splits)

lemma wrap_int_fits: "- (2 ^ 63) \<le> n \<Longrightarrow> n < 2 ^ 63 \<Longrightarrow> wrap_int n = n"
  by (simp add: wrap_int_def)

lemma offsetReplicaAddress_point:
  assumes "offsetReplicaAddress env v k = Inr v'" and "any_point env v = Some (conn, register, a, enc)"
    and "0 \<le> a" "a \<le> 0xffff" "0 \<le> k" "k < 999"
  shows "any_point env v' = Some (conn, register, a + k * stride_of conn register, enc) \<and>
    a + k * stride_of conn register \<le> 0xffff \<and> (k \<noteq> 0 \<longrightarrow> ok (replicaStride conn register))"
proof (cases "k = 0")
  case True
  then show ?thesis using assms by (simp add: offsetReplicaAddress_def)
next
  case False
  obtain ob cfg x where v: "v = AnyObject ob" "map_of ob ''connection'' = Some (AnyString conn)"
      "map_of ob ''config'' = Some (AnyObject cfg)"
    and cfg: "map_of cfg ''register'' = Some (AnyString register)" "map_of cfg ''encoding'' = Some (AnyString enc)"
      "map_of cfg ''address'' = Some x" "jsonInt env x = Inr a"
    using assms(2) by (auto simp: any_point_Some any_config_Some)
  obtain stride where stride: "replicaStride conn register = Inr stride"
    using assms(1) False v cfg by (auto simp: offsetReplicaAddress_def any_string_def split: sum.splits)
  have "0 \<le> k * stride" "k * stride \<le> 999 * 28"
    using replicaStride_bounds [OF stride] assms(5,6) mult_mono [of k 999 stride 28] by simp_all
  then have nowrap: "wrap_int (a + k * stride) = a + k * stride"
    using assms(3,4) by (intro wrap_int_fits) simp_all
  let ?n = "a + k * stride"
  have v': "?n \<le> 0xffff"
      "v' = AnyObject (AList.update ''config'' (AnyObject (AList.update ''address'' (AnyInt ?n) cfg)) ob)"
    using assms(1) False v cfg stride nowrap
    by (auto simp: offsetReplicaAddress_def any_string_def Let_def split: if_splits)
  have "any_config env (AList.update ''address'' (AnyInt ?n) cfg) = Some (register, ?n, enc)"
    unfolding any_config_Some using cfg by (simp add: jsonInt_def)
  then show ?thesis
    using v v' stride by (simp add: any_point_Some stride_of_def)
qed

text \<open>
  Decoding into the structs of the descriptors and into \<open>any\<close> show the same point, and encoding keeps the point.
\<close>

definition reads_alike :: "simulator_env \<Rightarrow> string \<Rightarrow> bool" where
  "reads_alike env raw \<longleftrightarrow>
     (\<forall>d a. parse_descriptor (sm_json env) raw = Inr d \<longrightarrow> mb_address_config (sm_modbus env) (ds_config d) = Some a \<longrightarrow>
        (\<exists>v. sm_unmarshal env raw = Some v \<and>
           any_point env v = Some (ds_connection d, register_name (ac_register a), uint (ac_address a),
             encoding_name (ac_encoding a))))"

definition marshals_alike :: "simulator_env \<Rightarrow> bool" where
  "marshals_alike env \<longleftrightarrow>
     (\<forall>v raw conn register n enc. sm_marshal env v = Some raw \<longrightarrow> any_point env v = Some (conn, register, n, enc) \<longrightarrow>
        0 \<le> n \<longrightarrow> n \<le> 0xffff \<longrightarrow>
        (\<exists>v'. sm_unmarshal env raw = Some v' \<and> any_point env v' = Some (conn, register, n, enc)))"

text \<open>A point of the manifest, as the Modbus service reads it.\<close>

definition manifest_point :: "simulator_env \<Rightarrow> manifest_entry list \<Rightarrow> manifest_entry \<Rightarrow> point \<Rightarrow> bool" where
  "manifest_point env es e p \<longleftrightarrow>
     has_suffix (me_subject e) ''.address'' \<and>
     (\<exists>d k conn. parse_descriptor (sm_json env) (me_value e) = Inr d \<and> k \<in> set es \<and> me_subject k = ds_connection d \<and>
        entry_connection env k = Inr conn \<and> ParsePoint (sm_modbus env) d conn = Inr p)"

lemma usable_address_point: "usable_address env es e \<Longrightarrow> has_suffix (me_subject e) ''.address'' \<Longrightarrow> \<exists>p. manifest_point env es e p"
  by (auto simp: usable_address_def manifest_point_def ok_iff)

lemma ParsePoint_fields:
  assumes "ParsePoint cd d conn = Inr p"
  shows "\<exists>a. mb_address_config cd (ds_config d) = Some a \<and> pt_connection_subject p = ds_connection d \<and>
    pt_register p = ac_register a \<and> pt_address p = ac_address a \<and> pt_encoding p = ac_encoding a \<and>
    ok (checkRegister (ac_register a) (ac_encoding a))"
  using assms by (auto simp: ParsePoint_def decodeConfig_def Let_def split: if_splits sum.splits option.splits)

lemma manifest_point_any:
  assumes "manifest_point env es e p" and "reads_alike env (me_value e)"
  shows "\<exists>v. sm_unmarshal env (me_value e) = Some v \<and>
    any_point env v = Some (pt_connection_subject p, register_name (pt_register p), uint (pt_address p), encoding_name (pt_encoding p))"
    and "ok (checkRegister (pt_register p) (pt_encoding p))"
  using assms by (auto simp: manifest_point_def reads_alike_def dest!: ParsePoint_fields)

lemma encoding_name_inj:
  assumes "ok (checkRegister r e)" and "ok (checkRegister r' e')" and "encoding_name e = encoding_name e'"
  shows "e = e'"
  using assms by (cases e; cases e') (auto simp: checkRegister_def encoding_name_def split: if_splits)

lemma register_name_inj:
  assumes "ok (checkRegister r e)" and "ok (checkRegister r' e')" and "register_name r = register_name r'"
  shows "r = r'"
  using assms by (cases r; cases r') (auto simp: checkRegister_def register_name_def split: if_splits)

lemma dotted_suffix: "has_suffix (x @ CHR ''.'' # y) ''.address'' \<longleftrightarrow> has_suffix (CHR ''.'' # y) ''.address''"
proof
  assume "has_suffix (x @ CHR ''.'' # y) ''.address''"
  then have "suffix ''.address'' (x @ CHR ''.'' # y)" by (simp only: has_suffix_def)
  then consider "suffix ''.address'' (CHR ''.'' # y)" | xs where "''.address'' = xs @ CHR ''.'' # y"
    unfolding suffix_append by blast
  then show "has_suffix (CHR ''.'' # y) ''.address''"
    by cases (auto simp: has_suffix_def Cons_eq_append_conv)
qed (auto simp: has_suffix_iff) 

lemma replica_subject_address:
  assumes "has_prefix subject ''plant.''"
  shows "has_suffix (replica_subject i subject) ''.address'' \<longleftrightarrow> has_suffix subject ''.address''"
proof -
  obtain rest where rest: "subject = ''plant'' @ CHR ''.'' # rest" using assms by (auto simp: has_prefix_iff)
  then have "replica_subject i subject = (''plant.'' @ replica_id i) @ CHR ''.'' # rest"
    using trim_prefix_append [of "''plant.''" rest] by (simp add: replica_subject_def)
  then show ?thesis by (simp only: rest dotted_suffix)
qed

text \<open>A copy is the original, its registers moved by whole blocks.\<close>

lemma cloneReplica_point:
  assumes "cloneReplica env t (replica_id i) k = Inr c" and "0 \<le> k" "k < 999"
    and "manifest_point env es t q" "reads_alike env (me_value t)"
    and "manifest_point env es' c p" "reads_alike env (me_value c)" "marshals_alike env"
  defines "stride \<equiv> stride_of (pt_connection_subject q) (register_name (pt_register q))"
  shows "pt_connection_subject p = pt_connection_subject q \<and> pt_register p = pt_register q \<and>
    pt_encoding p = pt_encoding q \<and> uint (pt_address p) = uint (pt_address q) + k * stride \<and>
    (k \<noteq> 0 \<longrightarrow> 0 < stride)"
proof -
  let ?conn = "pt_connection_subject q" and ?reg = "register_name (pt_register q)" and ?enc = "encoding_name (pt_encoding q)"
  obtain v where v: "sm_unmarshal env (me_value t) = Some v" "any_point env v = Some (?conn, ?reg, uint (pt_address q), ?enc)"
    using manifest_point_any(1) [OF assms(4,5)] by blast
  have address: "has_suffix (me_subject t) ''.address''" using assms(4) by (simp add: manifest_point_def)
  from assms(1) v(1) address obtain v1 v2 where v1: "rewriteValue (replica_id i) v = Inr v1"
    and v2: "offsetReplicaAddress env v1 k = Inr v2" "sm_marshal env v2 = Some (me_value c)"
    by (auto simp: cloneReplica_def split: sum.splits option.splits)
  have small: "0 \<le> uint (pt_address q)" "uint (pt_address q) \<le> 0xffff" using uint_lt2p [of "pt_address q"] by simp_all
  note moved = offsetReplicaAddress_point [OF v2(1) rewriteValue_point [OF v1 v(2)] small assms(2,3), folded stride_def]
  have "0 \<le> stride" using replicaStride_bounds by (force simp: stride_def stride_of_def split: sum.split)
  then have "0 \<le> uint (pt_address q) + k * stride" using small assms(2) by simp
  then obtain v3 where v3: "sm_unmarshal env (me_value c) = Some v3"
      "any_point env v3 = Some (?conn, ?reg, uint (pt_address q) + k * stride, ?enc)"
    using assms(8) v2(2) moved unfolding marshals_alike_def by blast
  have p: "?conn = pt_connection_subject p \<and> ?reg = register_name (pt_register p) \<and>
      uint (pt_address q) + k * stride = uint (pt_address p) \<and> ?enc = encoding_name (pt_encoding p)"
    using manifest_point_any(1) [OF assms(6,7)] v3 by auto
  note oks = manifest_point_any(2) [OF assms(6,7)] manifest_point_any(2) [OF assms(4,5)]
  have "k \<noteq> 0 \<Longrightarrow> 0 < stride" using moved replicaStride_bounds by (auto simp: stride_def stride_of_def ok_iff)
  then show ?thesis
    using p encoding_name_inj [OF oks] register_name_inj [OF oks] by simp
qed

text \<open>In an expansion whose template fits, a point of a replica lies in the block of that replica.\<close>

lemma replica_entries_origin:
  assumes "cloneEntries env replica k template = Inr clones" and "c \<in> set clones"
  obtains t where "t \<in> set template" "\<not> isSharedReplicaSubject (me_subject t)" "cloneReplica env t replica k = Inr c"
proof -
  have "\<exists>t\<in>set ts. cloneReplica env t replica k = Inr c"
    if "list_all2 (\<lambda>e c. cloneReplica env e replica k = Inr c) ts cs" "c \<in> set cs" for ts cs
    using that by (induction rule: list_all2_induct) auto
  from this [OF cloneEntries_Inr [OF assms(1)] assms(2)] show ?thesis using that by auto
qed

lemma replica_point:
  assumes "expandReplicas env template replicas = Inr entries" and "map trimmed_entry template = template"
    and "\<forall>e\<in>set entries. reads_alike env (me_value e)" and "marshals_alike env"
    and fits: "\<forall>t\<in>set template. \<forall>q. manifest_point env entries t q \<longrightarrow>
      uint (pt_address q) + uint (registerCount (pt_encoding q)) \<le>
        stride_of (pt_connection_subject q) (register_name (pt_register q))"
    and "1 \<le> i" "int i \<le> replicas" and c: "c \<in> set (replica_entries env template i)" "manifest_point env entries c p"
  shows "\<exists>a. uint (pt_address p) =
      a + (int i - 1) * stride_of (pt_connection_subject p) (register_name (pt_register p)) \<and> 0 \<le> a \<and>
    a + uint (registerCount (pt_encoding p)) \<le> stride_of (pt_connection_subject p) (register_name (pt_register p))"
proof -
  note whole = expandReplicas_Inr [OF assms(1)]
  then have "cloneEntries env (replica_id i) (int i - 1) template = Inr (replica_entries env template i)"
    using assms(6,7) by blast
  from replica_entries_origin [OF this c(1)] obtain t where t: "t \<in> set template"
      "\<not> isSharedReplicaSubject (me_subject t)" "cloneReplica env t (replica_id i) (int i - 1) = Inr c" .
  have entries: "map trimmed_entry template @ map trimmed_entry (concat (map (replica_entries env template) [1..<Suc (nat replicas)])) = entries"
    using whole by (simp del: upt_Suc)
  have "i \<in> set [1..<Suc (nat replicas)]" using assms(6,7) by auto
  then have "c \<in> set (concat (map (replica_entries env template) [1..<Suc (nat replicas)]))" using c(1) by fastforce
  then have members: "trimmed_entry c \<in> set entries" "t \<in> set entries"
    using t(1) assms(2) by (auto simp: entries [symmetric] simp del: upt_Suc set_concat)
  have usable: "usable_manifest env entries" using whole by blast
  have address: "has_suffix (me_subject t) ''.address''"
    using cloneReplica_subject [OF t(3,2)] replica_subject_address c(2) by (simp add: manifest_point_def)
  then have "usable_address env entries t" using usable members(2) by (simp add: usable_manifest_def)
  then obtain q where q: "manifest_point env entries t q" using usable_address_point address by blast
  have alike: "reads_alike env (me_value t)" "reads_alike env (me_value c)"
    using bspec [OF assms(3) members(2)] bspec [OF assms(3) members(1)] by simp_all
  have "0 \<le> int i - 1" "int i - 1 < 999" using assms(6,7) whole by (auto simp: maxReplicas_def)
  note moved = cloneReplica_point [OF t(3) this q alike(1) c(2) alike(2) assms(4)]
  then show ?thesis using fits t(1) q uint_ge_0 [of "pt_address q"] by metis
qed

lemma blocks_apart:
  fixes a b s :: int
  assumes "0 \<le> a" "a + m \<le> s" "0 \<le> b" "b + n \<le> s" and "i \<noteq> (j :: nat)"
  shows "{a + (int i - 1) * s..<a + (int i - 1) * s + m} \<inter> {b + (int j - 1) * s..<b + (int j - 1) * s + n} = {}"
proof -
  have apart: "x + (int k - 1) * s + l \<le> y + (int k' - 1) * s" if "k < k'" "x + l \<le> s" "0 \<le> y" "0 \<le> s" for x y l :: int and k k'
  proof -
    have "(int k - 1) * s + s \<le> (int k' - 1) * s"
      using mult_right_mono [of "int k" "int k' - 1" s] that by (simp add: algebra_simps)
    then show ?thesis using that by linarith
  qed
  show ?thesis
  proof (cases "0 \<le> s")
    case True
    then show ?thesis
      using apart [of i j a m b] apart [of j i b n a] assms by (cases "i < j") auto
  qed (use assms in auto)
qed

end
