(* ===== verification/Simulator_Properties.thy ===== *)
theory Simulator_Properties
  imports Simulator_Spec Designer_Composed Modbus_Scenarios Bus_Properties
begin

text \<open>
  The properties of the simulator's seeding, with a manifest of one connection and one analog input, of which
  two replicas are stamped.
\<close>

section \<open>Seeding and polling\<close>

lemma set_value_message:
  assumes "set_value env subject (StringValue raw) c = (c', Inr ())"
  shows "\<exists>m. (sc_system c @ ''.'' @ trim_space subject, m) \<in> set (sc_bus c') \<and> tm_value m = Some (StringValue raw)"
    and "set (sc_bus c) \<subseteq> set (sc_bus c')" and "sc_system c' = sc_system c"
  using set_value_bus [OF assms] set_value_config [of env subject "StringValue raw" c] assms
  by (auto simp: encodeValue_def sc_system_def)

lemma seedEntries_messages:
  assumes "seedEntries env es c = (c', Inr ())"
  shows "set (sc_bus c) \<subseteq> set (sc_bus c') \<and>
    (\<forall>e\<in>set es. \<exists>m. (sc_system c @ ''.'' @ trim_space (me_subject e), m) \<in> set (sc_bus c') \<and>
       tm_value m = Some (StringValue (me_value e)))"
  using assms
proof (induction es arbitrary: c)
  case (Cons e es)
  then obtain c1 where set: "set_value (sm_stream env) (me_subject e) (StringValue (me_value e)) c = (c1, Inr ())"
    and rest: "seedEntries env es c1 = (c', Inr ())"
    by (auto split: prod.splits sum.splits)
  show ?case using Cons.IH [OF rest] set_value_message [OF set] by (auto 0 3)
qed simp

text \<open>Events that leave every descriptor of the entries as the last one of its subject.\<close>

definition delivers :: "manifest_entry list \<Rightarrow> modbus_event list \<Rightarrow> bool" where
  "delivers es evs \<longleftrightarrow>
     (\<forall>e\<in>set es.
        (has_suffix (me_subject e) ''.config'' \<longrightarrow> latest connection_arrived (me_subject e) evs = Some (me_value e)) \<and>
        (has_suffix (me_subject e) ''.address'' \<longrightarrow> latest address_arrived (me_subject e) evs = Some (me_value e)))"

definition switched_on :: "simulator_env \<Rightarrow> manifest_entry list \<Rightarrow> descriptor \<Rightarrow> bool" where
  "switched_on env es d \<longleftrightarrow>
     ds_enabled d \<and>
     (\<forall>k\<in>set es. me_subject k = ds_connection d \<longrightarrow>
        (\<exists>hc. parse_hw_connection (sm_json env) (me_value k) = Inr hc \<and> hc_enabled hc))"

text \<open>A worker of the connection reads the point of a descriptor and publishes it under its telemetry subject.\<close>

definition polls :: "modbus_env \<Rightarrow> modbus_service \<Rightarrow> string \<Rightarrow> descriptor \<Rightarrow> bool" where
  "polls menv sv subject d \<longleftrightarrow>
     (\<exists>w p. map_of (ms_workers sv) (ds_connection d) = Some w \<and> p \<in> set (wk_points w) \<and>
        targetSubject subject = Some (pp_subject p) \<and>
        ParsePoint (mv_codec menv) d (wk_connection w) = Inr (pp_point p))"

lemma handle_started: "ms_started (modbus_handle menv ev sv) = ms_started sv"
proof (cases ev)
  case (TimerFired s)
  then show ?thesis
    using static_poll by (auto simp: modbus_handle_def modbus_static_def split: option.split)
qed (simp_all add: modbus_handle_def reconcileAddress_started reconcileConnection_def invalidateConnection_def
    installConnection_def stopWorker_def Let_def split: option.split)

lemma fold_started: "ms_started (fold (modbus_handle menv) evs sv) = ms_started sv"
  by (induction evs arbitrary: sv) (simp_all add: handle_started)

lemma fold_reachable: "modbus_reachable menv sv \<Longrightarrow> modbus_reachable menv (fold (modbus_handle menv) evs sv)"
  by (induction evs arbitrary: sv) (simp_all add: modbus_reachable.modbus_event)

lemma address_target: "has_suffix s ''.address'' \<Longrightarrow> s \<noteq> ''.address'' \<Longrightarrow> targetSubject s \<noteq> None"
  by (auto simp: targetSubject_def AddressSuffix_def has_suffix_iff)

lemma delivered_address_polled:
  assumes manifest: "usable_manifest env es" and json: "mv_json menv = sm_json env" "mv_codec menv = sm_modbus env"
    and sv: "fair_order menv" "modbus_reachable menv sv" "ms_started sv"
    and e: "e \<in> set es" "has_suffix (me_subject e) ''.address''" "me_subject e \<noteq> ''.address''"
    and d: "parse_descriptor (sm_json env) (me_value e) = Inr d" "switched_on env es d"
    and evs: "delivers es evs"
  shows "polls menv (fold (modbus_handle menv) evs sv) (me_subject e) d"
proof -
  let ?sv = "fold (modbus_handle menv) evs sv"
  have sound: "modbus_sound menv ?sv" by (rule modbus_reachable_sound [OF sv(1) fold_reachable [OF sv(2)]])
  note before = modbus_reachable_sound [OF sv(1,2)]
  have faithful: "connection_table.faithful menv sv" "point_table.faithful menv sv"
    using soundD(2,3) [OF before] by (auto simp: connection_table.faithful_def point_table.faithful_def)
  obtain k conn p where k: "k \<in> set es" "me_subject k = ds_connection d" "has_suffix (me_subject k) ''.config''"
      "entry_connection env k = Inr conn" and p: "ParsePoint (sm_modbus env) d conn = Inr p"
    using manifest e(1,2) d(1) by (auto simp: usable_manifest_def usable_address_def ok_iff)
  obtain hc where hc: "parse_hw_connection (sm_json env) (me_value k) = Inr hc" "hc_enabled hc"
    using d(2) k(1,2) by (auto simp: switched_on_def)
  let ?c = "\<lparr>cd_raw = me_value k, cd_descriptor = hc, cd_connection = conn\<rparr>"
    and ?d = "\<lparr>pd_raw = me_value e, pd_descriptor = d\<rparr>"
  have parsed: "ParseConnection (sm_modbus env) hc = Inr conn" using k(4) hc(1) by (simp add: entry_connection_def)
  then have driver: "hc_driver hc = ''modbus''" "ds_driver d = ''modbus''"
    using p by (auto simp: ParseConnection_def ParsePoint_def split: if_splits)
  have "usable_connection menv (me_value k) = Some ?c"
    using hc parsed driver json by (simp add: usable_connection_def)
  moreover have last_k: "latest connection_arrived (ds_connection d) evs = Some (me_value k)"
    using evs k(1-3) by (auto simp: delivers_def)
  ultimately have conn: "map_of (ms_connections ?sv) (ds_connection d) = Some ?c"
    using connection_table.table_history [OF faithful(1), of evs "ds_connection d"] last_k by simp
  have "accepted_point menv (me_value e) = Some ?d"
    using d driver json by (simp add: accepted_point_def switched_on_def)
  moreover have "latest address_arrived (me_subject e) evs = Some (me_value e)"
    using evs e(1,2) by (auto simp: delivers_def)
  ultimately have point: "map_of (ms_points ?sv) (me_subject e) = Some ?d"
    using point_table.table_history [OF faithful(2), of evs "me_subject e"] by simp
  obtain target where target: "targetSubject (me_subject e) = Some target" using address_target [OF e(2,3)] by blast
  let ?p = "\<lparr>pp_subject = target, pp_point = p, pp_publish_on_change = ds_publish_on_change d\<rparr>"
  have "pollPoint menv (ds_connection d) ?c (me_subject e) ?d = Some ?p"
    using p json target driver by (simp add: pollPoint_def)
  then have "?p \<in> set (wanted_points menv (ds_connection d) ?c ?sv)" by (rule wanted_point [OF sound point])
  moreover have "worker_current menv ?sv (ds_connection d)"
    by (rule soundD(4) [OF sound]) (simp add: fold_started sv(3))
  ultimately obtain w where "map_of (ms_workers ?sv) (ds_connection d) = Some w" "wk_connection w = conn" "?p \<in> set (wk_points w)"
    using worker_wanted [OF _ conn] by (metis connection_definition.select_convs(3))
  then show ?thesis using target p json(2) unfolding polls_def by (intro exI [of _ w] exI [of _ ?p]) simp
qed

section \<open>A manifest\<close>

definition demo_level :: "string \<Rightarrow> descriptor" where
  "demo_level cfg =
     \<lparr>ds_version = 1, ds_driver = ''modbus'', ds_value_type = HwFloat64, ds_enabled = True,
      ds_connection = ''Modbus.SimulatorTank.config'', ds_publish_on_change = True, ds_config = cfg\<rparr>"

definition demo_level_value :: "go_any \<Rightarrow> go_any" where
  "demo_level_value n =
     AnyObject [(''connection'', AnyString ''Modbus.SimulatorTank.config''),
       (''config'', AnyObject [(''register'', AnyString ''input''), (''address'', n), (''encoding'', AnyString ''float32'')])]"

definition demo_seed_json :: address_json where
  "demo_seed_json =
     \<lparr>json_descriptor = map_of [(''level 0'', demo_level ''input 0''), (''level 20'', demo_level ''input 20'')],
      json_connection = map_of [(''tank'', demo_hw_connection ''u1'')], json_valid = (\<lambda>_. True),
      json_of_descriptor = (\<lambda>_. None), json_of_connection = (\<lambda>_. None)\<rparr>"

definition demo_seed_codec :: modbus_codec where
  "demo_seed_codec = demo_modbus_codec\<lparr>mb_address_config :=
     map_of [(''input 0'', demo_address_config RegisterInputRegister 0 EncodingFloat32),
             (''input 20'', demo_address_config RegisterInputRegister 20 EncodingFloat32)]\<rparr>"

definition demo_template :: "manifest_entry list" where
  "demo_template =
     [\<lparr>me_subject = ''Modbus.SimulatorTank.config'', me_value = ''tank''\<rparr>,
      \<lparr>me_subject = ''plant.level.address'', me_value = ''level 0''\<rparr>]"

text \<open>The numbers \<open>0\<close> and \<open>20\<close> as floats; an encoded integer is decoded as a float.\<close>

definition demo_seed :: simulator_env where
  "demo_seed =
     \<lparr>sm_json = demo_seed_json, sm_modbus = demo_seed_codec, sm_stream = demo_bus0,
      sm_manifest = (\<lambda>_. Some demo_template), sm_trailing = (\<lambda>_. TrailingEOF),
      sm_unmarshal = map_of [(''level 0'', demo_level_value (AnyFloat 0)),
        (''level 20'', demo_level_value (AnyFloat 0x4034000000000000))],
      sm_marshal = map_of [(demo_level_value (AnyFloat 0), ''level 0''), (demo_level_value (AnyInt 20), ''level 20'')],
      sm_convert = (\<lambda>_. 0)\<rparr>"

definition demo_copy :: "string \<Rightarrow> string \<Rightarrow> manifest_entry" where
  "demo_copy number text = \<lparr>me_subject = ''plant.'' @ number @ ''.level.address'', me_value = text\<rparr>"

definition demo_seeded :: "manifest_entry list" where
  "demo_seeded = demo_template @ [demo_copy ''001'' ''level 0'', demo_copy ''002'' ''level 20'']"

lemma demo_expand: "expandReplicas demo_seed demo_template 2 = Inr demo_seeded"
  by code_simp

lemma demo_replicas:
  "replica_entries demo_seed demo_template 1 = [demo_copy ''001'' ''level 0'']"
  "replica_entries demo_seed demo_template 2 = [demo_copy ''002'' ''level 20'']"
  by code_simp+

lemma demo_manifest: "parseManifest demo_seed [] = Inr demo_template"
  by code_simp

lemma demo_seed_ok: "snd (seed_simulator demo_seed [] 2 demo_client) = Inr ()"
  unfolding demo_client_def by code_simp

lemma demo_marshals_alike: "marshals_alike demo_seed"
proof -
  have "any_point demo_seed (demo_level_value (AnyInt 20)) = any_point demo_seed (demo_level_value (AnyFloat 0x4034000000000000))"
    by code_simp
  then show ?thesis
    by (auto simp: marshals_alike_def demo_seed_def split: if_splits)
qed

lemma demo_reads_alike: "\<forall>e\<in>set demo_seeded. reads_alike demo_seed (me_value e)"
proof -
  have level: "any_point demo_seed (demo_level_value (AnyFloat 0)) =
      Some (''Modbus.SimulatorTank.config'', register_name RegisterInputRegister, 0, encoding_name EncodingFloat32)"
    "any_point demo_seed (demo_level_value (AnyFloat 0x4034000000000000)) =
      Some (''Modbus.SimulatorTank.config'', register_name RegisterInputRegister, 20, encoding_name EncodingFloat32)"
    by code_simp+
  have "reads_alike demo_seed ''tank''"
    by (simp add: reads_alike_def parse_descriptor_Inr demo_seed_def demo_seed_json_def)
  moreover have "reads_alike demo_seed ''level 0''" "reads_alike demo_seed ''level 20''"
    using level
    by (simp_all add: reads_alike_def parse_descriptor_Inr demo_seed_def demo_seed_json_def demo_seed_codec_def
        demo_level_def demo_address_config_def)
  ultimately show ?thesis by (simp add: demo_seeded_def demo_template_def demo_copy_def)
qed

text \<open>A service without descriptors that runs, and the descriptors of the entries, a late one first.\<close>

definition demo_seed_modbus :: modbus_env where
  "demo_seed_modbus = demo_modbus\<lparr>mv_json := demo_seed_json, mv_codec := demo_seed_codec, mv_list := (\<lambda>_ _. Some [])\<rparr>"

definition demo_seed_running :: modbus_service where
  "demo_seed_running = fst (modbus_Run demo_seed_modbus new_modbus_service)"

definition demo_seed_events :: "modbus_event list" where
  "demo_seed_events =
     [AddressArrived ''plant.002.level.address'' ''level 20'', ConnectionArrived ''Modbus.SimulatorTank.config'' ''tank'',
      TimerFired ''Modbus.SimulatorTank.config'', AddressArrived ''plant.level.address'' ''level 0'',
      AddressArrived ''plant.001.level.address'' ''level 0'']"

lemma demo_delivers: "delivers demo_seeded demo_seed_events"
  by (simp add: delivers_def demo_seeded_def demo_template_def demo_copy_def demo_seed_events_def connection_arrived_def
      address_arrived_def has_suffix_def suffix_to_prefix)

lemma demo_switched_on: "switched_on demo_seed demo_seeded (demo_level ''input 20'')"
proof -
  have "parse_hw_connection (sm_json demo_seed) ''tank'' = Inr (demo_hw_connection ''u1'')" by code_simp
  moreover have "hc_enabled (demo_hw_connection ''u1'')" by code_simp
  ultimately show ?thesis
    by (simp add: switched_on_def demo_seeded_def demo_template_def demo_copy_def demo_level_def)
qed

section \<open>The properties\<close>

text \<open>The manifest is accepted exactly when, with the subjects trimmed, they are distinct and not empty, every
  value is JSON, every connection descriptor is a Modbus connection, and every address names a connection of
  the manifest of which it is a point; what is accepted is the manifest with its subjects trimmed.\<close>

theorem manifest_accepted_exactly:
  "validateManifest env es = Inr es' \<longleftrightarrow> es' = map trimmed_entry es \<and> usable_manifest env es'"
  by (rule validateManifest_exact)

text \<open>An expansion that succeeds is the template followed by the replicas in order; each replica has one
  entry for every entry of the template that is not shared, under the subject of the plant with the number
  of the replica, and no subject occurs twice.\<close>

theorem replicas_expand_the_template:
  assumes "expandReplicas env template replicas = Inr es"
  shows "0 \<le> replicas \<and> replicas \<le> 999 \<and> distinct (map me_subject es) \<and>
    es = map trimmed_entry (template @ concat (map (replica_entries env template) [1..<Suc (nat replicas)])) \<and>
    (\<forall>i. 1 \<le> i \<and> int i \<le> replicas \<longrightarrow>
       map me_subject (replica_entries env template i) =
         map (replica_subject i) (filter (\<lambda>s. \<not> isSharedReplicaSubject s) (map me_subject template)))"
proof -
  note whole = expandReplicas_Inr [OF assms]
  have "map me_subject (replica_entries env template i) =
      map (replica_subject i) (filter (\<lambda>s. \<not> isSharedReplicaSubject s) (map me_subject template))"
    if "1 \<le> i" "int i \<le> replicas" for i
  proof -
    have "cloneEntries env (replica_id i) (int i - 1) template = Inr (replica_entries env template i)"
      using whole that by blast
    then show ?thesis using replica_entries_subjects by (simp add: filter_map comp_def)
  qed
  moreover have "distinct (map me_subject es)" "0 \<le> replicas" "replicas \<le> 999"
    using whole unfolding usable_manifest_def maxReplicas_def by blast+
  ultimately show ?thesis using whole by blast
qed

theorem replicas_expand_the_template_witness:
  "distinct (map me_subject demo_seeded) \<and>
   map me_subject (replica_entries demo_seed demo_template 2) = [''plant.002.level.address'']"
proof -
  have "map (replica_subject 2) (filter (\<lambda>s. \<not> isSharedReplicaSubject s) (map me_subject demo_template)) =
      [''plant.002.level.address'']" by code_simp
  then show ?thesis using replicas_expand_the_template [OF demo_expand] by simp
qed

text \<open>C37. With a template whose points fit into the blocks of their tables, points of different replicas on the
  same connection and table never share a register, provided the two ways of decoding a descriptor show the same point.\<close>

theorem replicas_read_their_own_registers:
  assumes "expandReplicas env template replicas = Inr es" and "map trimmed_entry template = template"
    and "\<forall>e\<in>set es. reads_alike env (me_value e)" and "marshals_alike env"
    and "\<forall>t\<in>set template. \<forall>q. manifest_point env es t q \<longrightarrow>
      uint (pt_address q) + uint (registerCount (pt_encoding q)) \<le>
        stride_of (pt_connection_subject q) (register_name (pt_register q))"
    and "1 \<le> i" "int i \<le> replicas" "1 \<le> j" "int j \<le> replicas" "i \<noteq> j"
    and "e \<in> set (replica_entries env template i)" "manifest_point env es e p"
    and "e' \<in> set (replica_entries env template j)" "manifest_point env es e' p'"
    and "pt_connection_subject p' = pt_connection_subject p" "pt_register p' = pt_register p"
  shows "{uint (pt_address p)..<uint (pt_address p) + uint (registerCount (pt_encoding p))} \<inter>
    {uint (pt_address p')..<uint (pt_address p') + uint (registerCount (pt_encoding p'))} = {}"
proof -
  let ?stride = "stride_of (pt_connection_subject p) (register_name (pt_register p))"
  note moved = replica_point [OF assms(1-5)]
  obtain a where a: "uint (pt_address p) = a + (int i - 1) * ?stride" "0 \<le> a"
      "a + uint (registerCount (pt_encoding p)) \<le> ?stride"
    using moved [OF assms(6,7,11,12)] by blast
  obtain b where b: "uint (pt_address p') = b + (int j - 1) * ?stride" "0 \<le> b"
      "b + uint (registerCount (pt_encoding p')) \<le> ?stride"
    using moved [OF assms(8,9,13,14)] unfolding assms(15,16) by blast
  show ?thesis using blocks_apart [OF a(2,3) b(2,3)] assms(10) by (simp add: a(1) b(1))
qed

lemma demo_manifest_point:
  assumes "parse_descriptor (sm_json demo_seed) (me_value e) = Inr (demo_level cfg)" and "has_suffix (me_subject e) ''.address''"
    and "ParsePoint (sm_modbus demo_seed) (demo_level cfg) demo_link = Inr p"
  shows "manifest_point demo_seed demo_seeded e p"
proof -
  have "entry_connection demo_seed (hd demo_seeded) = Inr demo_link" by code_simp
  moreover have "hd demo_seeded \<in> set demo_seeded" "me_subject (hd demo_seeded) = ds_connection (demo_level cfg)"
    by (simp_all add: demo_seeded_def demo_template_def demo_level_def)
  ultimately show ?thesis using assms by (auto simp: manifest_point_def)
qed

lemma demo_fits:
  assumes "t \<in> set demo_template" and "manifest_point demo_seed demo_seeded t q"
  shows "uint (pt_address q) + uint (registerCount (pt_encoding q)) \<le>
    stride_of (pt_connection_subject q) (register_name (pt_register q))"
proof -
  have "me_value t = ''level 0''"
    using assms by (auto simp: demo_template_def manifest_point_def has_suffix_def suffix_to_prefix)
  then obtain conn where "ParsePoint demo_seed_codec (demo_level ''input 0'') conn = Inr q"
    using assms(2) by (auto simp: manifest_point_def demo_seed_def demo_seed_json_def parse_descriptor_Inr)
  from ParsePoint_fields [OF this]
  have "pt_connection_subject q = ''Modbus.SimulatorTank.config''" "pt_register q = RegisterInputRegister"
      "pt_address q = 0" "pt_encoding q = EncodingFloat32"
    by (auto simp: demo_level_def demo_seed_codec_def demo_address_config_def)
  moreover have "stride_of ''Modbus.SimulatorTank.config'' (register_name RegisterInputRegister) = 20" by code_simp
  ultimately show ?thesis by (simp add: registerCount_def)
qed

theorem replicas_read_their_own_registers_witness:
  "\<exists>p p'. manifest_point demo_seed demo_seeded (demo_copy ''001'' ''level 0'') p \<and> pt_address p = 0 \<and>
     manifest_point demo_seed demo_seeded (demo_copy ''002'' ''level 20'') p' \<and> pt_address p' = 20 \<and>
     {uint (pt_address p)..<uint (pt_address p) + uint (registerCount (pt_encoding p))} \<inter>
     {uint (pt_address p')..<uint (pt_address p') + uint (registerCount (pt_encoding p'))} = {}"
proof -
  define p p' where "p = projr (ParsePoint (sm_modbus demo_seed) (demo_level ''input 0'') demo_link)"
    and "p' = projr (ParsePoint (sm_modbus demo_seed) (demo_level ''input 20'') demo_link)"
  have p: "ParsePoint (sm_modbus demo_seed) (demo_level ''input 0'') demo_link = Inr p"
      "ParsePoint (sm_modbus demo_seed) (demo_level ''input 20'') demo_link = Inr p'"
    unfolding p_def p'_def by code_simp+
  have parsed: "parse_descriptor (sm_json demo_seed) ''level 0'' = Inr (demo_level ''input 0'')"
      "parse_descriptor (sm_json demo_seed) ''level 20'' = Inr (demo_level ''input 20'')" by code_simp+
  have points: "manifest_point demo_seed demo_seeded (demo_copy ''001'' ''level 0'') p"
      "manifest_point demo_seed demo_seeded (demo_copy ''002'' ''level 20'') p'"
    using demo_manifest_point [OF _ _ p(1)] demo_manifest_point [OF _ _ p(2)] parsed
    by (simp_all add: demo_copy_def has_suffix_def suffix_to_prefix)
  have fields: "pt_connection_subject p' = pt_connection_subject p" "pt_register p' = pt_register p"
      "pt_address p = 0" "pt_address p' = 20"
    unfolding p_def p'_def by code_simp+
  have "map trimmed_entry demo_template = demo_template" by code_simp
  from replicas_read_their_own_registers [OF demo_expand this demo_reads_alike demo_marshals_alike _ _ _ _ _ _ _ points(1) _ points(2)
      fields(1,2), of 1 2] demo_fits demo_replicas
  show ?thesis using points fields by (intro exI [of _ p] exI [of _ p']) simp
qed

text \<open>C36. After a seeding that succeeded, every entry is on the bus, and a Modbus service that has received the
  descriptors of the seeded entries last, in any order and among other events, polls every enabled
  address of an enabled connection, through the connection it names.\<close>

theorem seeded_plant_is_polled:
  assumes "seed_simulator env data replicas c = (c', Inr ())"
    and "mv_json menv = sm_json env" "mv_codec menv = sm_modbus env"
    and "fair_order menv" "modbus_reachable menv sv" "ms_started sv"
  shows "\<exists>template es. parseManifest env data = Inr template \<and> expandReplicas env template replicas = Inr es \<and>
    (\<forall>e\<in>set es. \<exists>m. (sc_system c @ ''.'' @ me_subject e, m) \<in> set (sc_bus c') \<and>
       tm_value m = Some (StringValue (me_value e))) \<and>
    (\<forall>e\<in>set es. \<forall>d evs. has_suffix (me_subject e) ''.address'' \<and> me_subject e \<noteq> ''.address'' \<and>
       parse_descriptor (sm_json env) (me_value e) = Inr d \<and> switched_on env es d \<and> delivers es evs \<longrightarrow>
       polls menv (fold (modbus_handle menv) evs sv) (me_subject e) d)"
proof -
  obtain template es where parsed: "parseManifest env data = Inr template"
    and expanded: "expandReplicas env template replicas = Inr es"
    and seeded: "seedEntries env es c = (c', Inr ())"
    using assms(1) by (auto simp: seed_simulator_def split: sum.splits)
  note whole = expandReplicas_Inr [OF expanded]
  have usable: "usable_manifest env es" using whole by blast
  have "es = map trimmed_entry (template @ concat (map (replica_entries env template) [1..<Suc (nat replicas)]))"
    using whole by blast
  then have "trim_space (me_subject e) = me_subject e" if "e \<in> set es" for e
    using that by (auto simp del: upt_Suc set_concat)
  then have seeded': "\<forall>e\<in>set es. \<exists>m. (sc_system c @ ''.'' @ me_subject e, m) \<in> set (sc_bus c') \<and>
      tm_value m = Some (StringValue (me_value e))"
    using seedEntries_messages [OF seeded] by simp
  show ?thesis
    using parsed expanded seeded' delivered_address_polled [OF usable assms(2-6)] by blast
qed

theorem seeded_plant_is_polled_witness:
  "polls demo_seed_modbus (fold (modbus_handle demo_seed_modbus) demo_seed_events demo_seed_running)
     ''plant.002.level.address'' (demo_level ''input 20'')"
proof -
  obtain c' where seeded: "seed_simulator demo_seed [] 2 demo_client = (c', Inr ())"
    using demo_seed_ok by (metis prod.collapse)
  have menv: "mv_json demo_seed_modbus = sm_json demo_seed" "mv_codec demo_seed_modbus = sm_modbus demo_seed"
    "fair_order demo_seed_modbus"
    by (simp_all add: demo_seed_modbus_def demo_seed_def demo_modbus_def fair_order_def)
  have running: "modbus_reachable demo_seed_modbus demo_seed_running"
    unfolding demo_seed_running_def by (rule modbus_Run_reachable) (rule modbus_new)
  have started: "ms_started demo_seed_running" by code_simp
  have e: "demo_copy ''002'' ''level 20'' \<in> set demo_seeded" by (simp add: demo_seeded_def)
  have parsed: "parse_descriptor (sm_json demo_seed) ''level 20'' = Inr (demo_level ''input 20'')" by code_simp
  show ?thesis
    using seeded_plant_is_polled [OF seeded menv running started] demo_manifest demo_expand e parsed
      demo_delivers demo_switched_on
    by (auto simp: demo_copy_def has_suffix_iff)
qed

end
