(* ===== verification/Go_Text.thy ===== *)
theory Go_Text
  imports Stream_Set
begin

text \<open>
  What the command line takes from Go's library to read and print single values: \<open>strconv.ParseBool\<close>,
  \<open>strconv.ParseFloat\<close> in all its notations, \<open>base64.StdEncoding\<close>, and the parsing of string flags by the package
  \<open>flag\<close>. Errors of the library have no positions here.
\<close>

section \<open>Booleans\<close>

definition ParseBool :: "string \<Rightarrow> bool option" where
  "ParseBool s =
     (if s \<in> {''1'', ''t'', ''T'', ''TRUE'', ''true'', ''True''} then Some True
      else if s \<in> {''0'', ''f'', ''F'', ''FALSE'', ''false'', ''False''} then Some False
      else None)"

definition format_bool :: "bool \<Rightarrow> string" where
  "format_bool b = (if b then ''true'' else ''false'')"

section \<open>Floats\<close>

definition char_code :: "char \<Rightarrow> nat" where "char_code c = of_char c"

definition lower_char :: "char \<Rightarrow> char" where
  "lower_char c = (if 65 \<le> char_code c \<and> char_code c \<le> 90 then char_of (char_code c + 32) else c)"

definition is_hex_letter :: "char \<Rightarrow> bool" where
  "is_hex_letter c \<longleftrightarrow> 97 \<le> char_code (lower_char c) \<and> char_code (lower_char c) \<le> 102"

definition hex_digit_val :: "char \<Rightarrow> int" where
  "hex_digit_val c = (if is_digit c then digit_val c else int (char_code (lower_char c)) - 87)"

definition hex_digits_val :: "string \<Rightarrow> int" where
  "hex_digits_val s = foldl (\<lambda>acc c. 16 * acc + hex_digit_val c) 0 s"

text \<open>The digits before and after the point, underscores left out, and the rest.\<close>

fun float_digits :: "bool \<Rightarrow> bool \<Rightarrow> string \<Rightarrow> string \<times> string \<times> string" where
  "float_digits hex dot [] = ([], [], [])"
| "float_digits hex dot (c # cs) =
     (if c = CHR ''_'' then float_digits hex dot cs
      else if c = CHR ''.'' then (if dot then ([], [], c # cs) else float_digits hex True cs)
      else if is_digit c \<or> hex \<and> is_hex_letter c
      then (case float_digits hex dot cs of
              (ip, fp, r) \<Rightarrow> if dot then (ip, c # fp, r) else (c # ip, fp, r))
      else ([], [], c # cs))"

text \<open>The exponent, which stops growing beyond 10000, and the rest.\<close>

fun exponent_digits :: "int \<Rightarrow> string \<Rightarrow> int \<times> string" where
  "exponent_digits e [] = (e, [])"
| "exponent_digits e (c # cs) =
     (if c = CHR ''_'' then exponent_digits e cs
      else if is_digit c then exponent_digits (if e < 10000 then e * 10 + digit_val c else e) cs
      else (e, c # cs))"

text \<open>Underscores stand between digits, or between the prefix of a base and a digit.\<close>

fun underscores_between :: "bool \<Rightarrow> char \<Rightarrow> string \<Rightarrow> bool" where
  "underscores_between hex seen [] = (seen \<noteq> CHR ''_'')"
| "underscores_between hex seen (c # cs) =
     (if is_digit c \<or> hex \<and> is_hex_letter c then underscores_between hex (CHR ''0'') cs
      else if c = CHR ''_'' then seen = CHR ''0'' \<and> underscores_between hex (CHR ''_'') cs
      else seen \<noteq> CHR ''_'' \<and> underscores_between hex (CHR ''!'') cs)"

definition underscoreOK :: "string \<Rightarrow> bool" where
  "underscoreOK s =
     (let r = snd (split_sign s);
          based = (2 \<le> length r \<and> hd r = CHR ''0'' \<and> lower_char (r ! 1) \<in> {CHR ''b'', CHR ''o'', CHR ''x''})
      in if based then underscores_between (lower_char (r ! 1) = CHR ''x'') (CHR ''0'') (drop 2 r)
         else underscores_between False (CHR ''^'') r)"

definition special_float :: "string \<Rightarrow> f64 option" where
  "special_float s =
     (let (neg, r) = split_sign s
      in if map lower_char r \<in> {''inf'', ''infinity''} then Some (if neg then 0xFFF0000000000000 else 0x7FF0000000000000)
         else if map lower_char s = ''nan'' then Some 0x7FF8000000000001
         else None)"

definition f64_of_binary :: "bool \<Rightarrow> int \<Rightarrow> int \<Rightarrow> f64 option" where
  "f64_of_binary neg m e2 =
     (case (if m = 0 then Some 0
            else if 0 \<le> e2 then f64_round (m * 2 ^ nat e2) 1
            else f64_round m (2 ^ nat (- e2)))
      of None \<Rightarrow> None
       | Some bits \<Rightarrow> Some (word_of_int (if neg then bits + 2 ^ 63 else bits)))"

definition ParseFloat :: "string \<Rightarrow> f64 option" where
  "ParseFloat s =
     (case special_float s of
        Some w \<Rightarrow> Some w
      | None \<Rightarrow>
          (let (neg, r) = split_sign s;
               hex = (2 < length r \<and> hd r = CHR ''0'' \<and> lower_char (r ! 1) = CHR ''x'');
               (ip, fp, r1) = float_digits hex False (if hex then drop 2 r else r);
               exponent =
                 (case r1 of
                    [] \<Rightarrow> if hex then None else Some 0
                  | c # r2 \<Rightarrow>
                      if lower_char c \<noteq> (if hex then CHR ''p'' else CHR ''e'') then None
                      else (let (eneg, r3) = split_sign r2
                            in if r3 = [] \<or> \<not> is_digit (hd r3) then None
                               else (case exponent_digits 0 r3 of
                                       (e, rest) \<Rightarrow> if rest = [] then Some (if eneg then - e else e) else None)))
           in if ip @ fp = [] then None
              else (case exponent of
                      None \<Rightarrow> None
                    | Some e \<Rightarrow>
                        if CHR ''_'' \<in> set s \<and> \<not> underscoreOK s then None
                        else if hex then f64_of_binary neg (hex_digits_val (ip @ fp)) (e - 4 * int (length fp))
                        else f64_of_decimal neg (digits_val (ip @ fp)) (e - int (length fp)))))"

section \<open>Base 64\<close>

definition base64_alphabet :: string where
  "base64_alphabet = ''ABCDEFGHIJKLMNOPQRSTUVWXYZabcdefghijklmnopqrstuvwxyz0123456789+/''"

definition base64_char :: "nat \<Rightarrow> char" where "base64_char n = base64_alphabet ! n"

definition base64_val :: "char \<Rightarrow> nat option" where
  "base64_val c = map_of (zip base64_alphabet [0..<64]) c"

fun base64_encode :: "8 word list \<Rightarrow> string" where
  "base64_encode [] = []"
| "base64_encode [a] =
     (let x = unat a * 16 in [base64_char (x div 64), base64_char (x mod 64), CHR ''='', CHR ''=''])"
| "base64_encode [a, b] =
     (let x = (unat a * 256 + unat b) * 4
      in [base64_char (x div 4096), base64_char (x div 64 mod 64), base64_char (x mod 64), CHR ''=''])"
| "base64_encode (a # b # c # r) =
     (let x = (unat a * 256 + unat b) * 256 + unat c
      in [base64_char (x div 262144), base64_char (x div 4096 mod 64), base64_char (x div 64 mod 64), base64_char (x mod 64)]
         @ base64_encode r)"

text \<open>Decoding in quanta of four characters, once the line breaks are gone; bits behind the last byte are ignored.\<close>

fun base64_quanta :: "string \<Rightarrow> 8 word list option" where
  "base64_quanta [] = Some []"
| "base64_quanta (p # q # r # s # rest) =
     (case (base64_val p, base64_val q) of
        (Some i, Some j) \<Rightarrow>
          (case base64_val r of
             None \<Rightarrow> if r = CHR ''='' \<and> s = CHR ''='' \<and> rest = [] then Some [of_nat ((i * 64 + j) div 16)] else None
           | Some k \<Rightarrow>
               (case base64_val s of
                  None \<Rightarrow>
                    if s = CHR ''='' \<and> rest = []
                    then (let x = ((i * 64 + j) * 64 + k) div 4 in Some [of_nat (x div 256), of_nat (x mod 256)])
                    else None
                | Some l \<Rightarrow>
                    (let x = ((i * 64 + j) * 64 + k) * 64 + l
                     in map_option (append [of_nat (x div 65536), of_nat (x div 256 mod 256), of_nat (x mod 256)])
                          (base64_quanta rest))))
      | _ \<Rightarrow> None)"
| "base64_quanta _ = None"

definition base64_decode :: "string \<Rightarrow> 8 word list option" where
  "base64_decode s = base64_quanta (filter (\<lambda>c. c \<noteq> CHR 0x0A \<and> c \<noteq> CHR 0x0D) s)"

section \<open>Flags\<close>

text \<open>
  \<open>FlagSet.Parse\<close> with string flags: the values set so far, the arguments left from the first that is no
  flag, or the text of the error.
\<close>

fun parse_flags ::
    "string list \<Rightarrow> (string \<times> string) list \<Rightarrow> string list \<Rightarrow> string + ((string \<times> string) list \<times> string list)" where
  "parse_flags formal vals [] = Inr (vals, [])"
| "parse_flags formal vals (s # rest) =
     (if length s < 2 \<or> hd s \<noteq> CHR ''-'' then Inr (vals, s # rest)
      else if s = ''--'' then Inr (vals, rest)
      else (let name0 = drop (if s ! 1 = CHR ''-'' then 2 else 1) s;
                name = hd name0 # takeWhile (\<lambda>c. c \<noteq> CHR ''='') (tl name0);
                behind = drop (length name) name0
            in if hd name0 = CHR ''-'' \<or> hd name0 = CHR ''='' then Inl (''bad flag syntax: '' @ s)
               else if name \<notin> set formal
               then (if name = ''help'' \<or> name = ''h'' then Inl ''flag: help requested''
                     else Inl (''flag provided but not defined: -'' @ name))
               else if behind \<noteq> [] then parse_flags formal (AList.update name (tl behind) vals) rest
               else (case rest of
                       [] \<Rightarrow> Inl (''flag needs an argument: -'' @ name)
                     | v # rest' \<Rightarrow> parse_flags formal (AList.update name v vals) rest')))"

section \<open>Reading back what was printed\<close>

lemma ParseBool_format: "ParseBool (format_bool b) = Some b"
  by (simp add: ParseBool_def format_bool_def)

lemma digit_chars: "n < 10 \<Longrightarrow> is_digit (digit_char n) \<and> digit_val (digit_char n) = int n"
proof -
  have "list_all (\<lambda>n. is_digit (digit_char n) \<and> digit_val (digit_char n) = int n) [0..<10]" by code_simp
  then show "n < 10 \<Longrightarrow> is_digit (digit_char n) \<and> digit_val (digit_char n) = int n" by (simp add: list_all_iff)
qed

lemma digits_val_snoc: "digits_val (s @ [c]) = 10 * digits_val s + digit_val c"
  by (simp add: digits_val_def)

lemma decimal_digits: "list_all is_digit (decimal n) \<and> digits_val (decimal n) = int n"
proof (induction n rule: decimal.induct)
  case (1 n)
  show ?case
  proof (cases "n < 10")
    case True
    then show ?thesis using digit_chars [of n] by (simp add: decimal.simps [of n] digits_val_def)
  next
    case False
    have "int n = 10 * int (n div 10) + int (n mod 10)" by presburger
    then show ?thesis
      using False 1 digit_chars [of "n mod 10"] by (simp add: decimal.simps [of n] digits_val_snoc)
  qed
qed

lemma split_sign_digits: "s \<noteq> [] \<Longrightarrow> is_digit (hd s) \<Longrightarrow> split_sign s = (False, s)"
  by (cases s) (auto simp: split_sign_def is_digit_def)

lemma parse_decimal:
  assumes "- (2 ^ 63) \<le> i" and "i < 2 ^ 63"
  shows "parse_int64 (decimal_int i) = Some i"
proof -
  have ds: "decimal n \<noteq> []" "list_all is_digit (decimal n)" "digits_val (decimal n) = int n" for n
    using decimal_not_Nil decimal_digits by auto
  then have "is_digit (hd (decimal n))" for n by (cases "decimal n") (auto simp: list_all_iff, metis list.set_intros(1))
  then have "split_sign (decimal n) = (False, decimal n)" for n using split_sign_digits ds(1) by blast
  moreover have "split_sign (''-'' @ decimal n) = (True, decimal n)" for n by (simp add: split_sign_def)
  ultimately show ?thesis
    using assms ds by (auto simp: parse_int64_def decimal_int_def Let_def)
qed

lemma base64_char_facts:
  assumes "n < 64"
  shows "base64_val (base64_char n) = Some n" "base64_char n \<noteq> CHR 0x0A" "base64_char n \<noteq> CHR 0x0D"
proof -
  have "list_all (\<lambda>n. base64_val (base64_char n) = Some n \<and> base64_char n \<noteq> CHR 0x0A \<and> base64_char n \<noteq> CHR 0x0D) [0..<64]"
    by code_simp
  then show "base64_val (base64_char n) = Some n" "base64_char n \<noteq> CHR 0x0A" "base64_char n \<noteq> CHR 0x0D"
    using assms by (simp_all add: list_all_iff)
qed

lemma base64_pad: "base64_val (CHR ''='') = None"
  by code_simp

lemma packed_bytes: "c \<le> 255 \<Longrightarrow> (y * 256 + c) div 256 = y" "c \<le> 255 \<Longrightarrow> (y * 256 + c) mod 256 = c" for c y :: nat
  by simp_all

lemma packed:
  fixes a b c :: nat
  assumes "a \<le> 255" "b \<le> 255" "c \<le> 255"
  shows "(a * 256 + b) * 4 < 262144" "(a * 256 + b) * 256 + c < 16777216"
  using assms by auto

text \<open>Sextets and bytes of a number.\<close>

lemma sextets: "(y :: nat) div 64 * 64 + y mod 64 = y"
  by simp

lemma byte_bound: "unat (a :: 8 word) \<le> 255"
proof -
  have "unat a < 2 ^ LENGTH(8)" by (rule unsigned_less)
  then show ?thesis by simp
qed

lemma byte_of: "of_nat (unat a) = (a :: 8 word)"
  by simp

lemma base64_three:
  fixes a b c :: "8 word"
  defines "x \<equiv> (unat a * 256 + unat b) * 256 + unat c"
  shows "x div 262144 < 64" "((x div 262144 * 64 + x div 4096 mod 64) * 64 + x div 64 mod 64) * 64 + x mod 64 = x"
    "x div 65536 = unat a" "x div 256 mod 256 = unat b" "x mod 256 = unat c"
proof -
  have bounds: "unat a \<le> 255" "unat b \<le> 255" "unat c \<le> 255" by (rule byte_bound)+
  then have "x < 16777216" unfolding x_def by (rule packed)
  then show "x div 262144 < 64" by (simp add: less_mult_imp_div_less)
  have "x div 262144 = x div 4096 div 64" "x div 4096 = x div 64 div 64" by (simp_all flip: div_mult2_eq)
  then show "((x div 262144 * 64 + x div 4096 mod 64) * 64 + x div 64 mod 64) * 64 + x mod 64 = x"
    by (simp only: sextets)
  have low: "x div 256 = unat a * 256 + unat b" "x mod 256 = unat c"
    unfolding x_def by (rule packed_bytes [OF bounds(3)])+
  have "x div 65536 = x div 256 div 256" by (simp flip: div_mult2_eq)
  then show "x div 65536 = unat a" "x div 256 mod 256 = unat b" "x mod 256 = unat c" using low bounds by simp_all
qed

lemma base64_two:
  fixes a b :: "8 word"
  defines "x \<equiv> (unat a * 256 + unat b) * 4"
  shows "x div 4096 < 64" "((x div 4096 * 64 + x div 64 mod 64) * 64 + x mod 64) div 4 = unat a * 256 + unat b"
proof -
  have "x < 262144" unfolding x_def by (rule packed [OF byte_bound byte_bound order_refl])
  then show "x div 4096 < 64" by (simp add: less_mult_imp_div_less)
  have "x div 4096 = x div 64 div 64" by (simp flip: div_mult2_eq)
  then have "(x div 4096 * 64 + x div 64 mod 64) * 64 + x mod 64 = x" by (simp only: sextets)
  then show "((x div 4096 * 64 + x div 64 mod 64) * 64 + x mod 64) div 4 = unat a * 256 + unat b"
    by (simp only:) (simp add: x_def)
qed

lemma base64_quanta_encode: "base64_quanta (base64_encode bs) = Some bs"
proof (induction bs rule: base64_encode.induct)
  case (2 a)
  let ?x = "unat a * 16"
  have "?x div 64 < 64" using byte_bound [of a] by (simp add: less_mult_imp_div_less)
  then show ?case
    using sextets [of ?x] by (simp add: Let_def base64_char_facts base64_pad)
next
  case (3 a b)
  then show ?case
    by (simp only: base64_encode.simps base64_quanta.simps Let_def base64_two base64_char_facts base64_pad
        option.case prod.case simp_thms if_True packed_bytes [OF byte_bound] byte_of
        mod_less_divisor zero_less_numeral)
next
  case (4 a b c r)
  from 4 show ?case
    by (simp only: base64_encode.simps base64_quanta.simps append_Cons append_Nil Let_def base64_three base64_char_facts
        option.case prod.case option.map byte_of mod_less_divisor zero_less_numeral)
qed simp

lemma base64_decode_encode: "base64_decode (base64_encode bs) = Some bs"
proof -
  have "filter (\<lambda>c. c \<noteq> CHR 0x0A \<and> c \<noteq> CHR 0x0D) (base64_encode bs) = base64_encode bs"
  proof (induction bs rule: base64_encode.induct)
    case (2 a)
    have "unat a * 16 div 64 < 64" using byte_bound [of a] by (simp add: less_mult_imp_div_less)
    then show ?case by (simp add: Let_def base64_char_facts)
  next
    case (3 a b)
    have "(unat a * 256 + unat b) * 4 < 262144" using byte_bound [of a] byte_bound [of b] by (rule packed) (rule order_refl)
    then have "(unat a * 256 + unat b) * 4 div 4096 < 64" by (simp add: less_mult_imp_div_less)
    then show ?case by (simp add: Let_def base64_char_facts)
  next
    case (4 a b c r)
    then show ?case using base64_three(1) [of a b c] by (simp add: Let_def base64_char_facts)
  qed simp
  then show ?thesis by (simp only: base64_decode_def base64_quanta_encode)
qed

end
