(* ===== verification/Command_Line.thy ===== *)
theory Command_Line
  imports Go_Text
begin

text \<open>
  \<open>scada-cli/main.go\<close>: reading and writing one value from the command line. The connection to the bus, the
  files and standard input, the output, encoding/json and the shortest decimal form of a float are the record
  \<open>cli_env\<close>. A run returns the client it connected, if any, what it printed, and the error that \<open>main\<close> prints
  before it exits with status 1.
\<close>

section \<open>Environment and usage\<close>

record cli_env =
  cl_stream :: stream_env
  cl_connect :: "string \<Rightarrow> go_error + stream_client"
  cl_read :: "string \<Rightarrow> string option"
  cl_decode :: "value_kind \<Rightarrow> string \<Rightarrow> telemetry_value option"
  cl_encode :: "telemetry_value \<Rightarrow> string option"
  cl_format_float :: "f64 \<Rightarrow> string"
  cl_write :: "string \<Rightarrow> bool"

definition DefaultConfigPath :: string where "DefaultConfigPath = ''config.yaml''"

definition newline :: string where "newline = [CHR 0x0A]"

definition cli_usage :: string where
  "cli_usage = concat (map (\<lambda>line. line @ newline)
     [''Usage:'',
      ''  scada [-config path] get [-type type] SUBJECT'',
      ''  scada [-config path] set [-type type] [-file path] SUBJECT [VALUE]'',
      [],
      ''Types:'',
      ''  string (default), bool, int64, float64, bytes,'',
      ''  int64[], float64[], string[], bool[]'',
      [],
      ''Arrays are JSON encoded. Bytes are base64 encoded.'',
      ''Use '' @ [CHR 0x22] @ ''-file -'' @ [CHR 0x22] @ '' to read a string value from stdin.'',
      [],
      ''Examples:'',
      ''  scada get -type float64 tank.temperature'',
      ''  scada set -type float64 tank.temperature 82.5'',
      ''  scada set -type bool pump.running true'',
      ''  scada set -file alert.json tank.alert_config''])"

definition usageError :: "string \<Rightarrow> go_error" where
  "usageError message = errors_new (trim_space message @ newline @ newline @ cli_usage)"

text \<open>With a quoted argument; there is nothing to trim.\<close>

definition usageError_quoted :: "string \<Rightarrow> string \<Rightarrow> go_error" where
  "usageError_quoted message arg = errorf (message @ newline @ newline @ cli_usage) [FStr arg]"

section \<open>Arguments\<close>

definition cli_readValue :: "cli_env \<Rightarrow> string \<Rightarrow> go_error + string" where
  "cli_readValue env path =
     (case cl_read env path of None \<Rightarrow> Inl (errorf ''read value from %q'' [FStr path]) | Some data \<Rightarrow> Inr data)"

definition flag_value :: "(string \<times> string) list \<Rightarrow> string \<Rightarrow> string" where
  "flag_value vals name = (case map_of vals name of None \<Rightarrow> [] | Some v \<Rightarrow> v)"

definition parseCommand :: "cli_env \<Rightarrow> string \<Rightarrow> string list \<Rightarrow> go_error + (string \<times> string \<times> string)" where
  "parseCommand env command args =
     (case parse_flags [''type'', ''file''] [(''type'', ''string''), (''file'', [])] args of
        Inl e \<Rightarrow> Inl (usageError e)
      | Inr (vals, positionals) \<Rightarrow>
          (let valueType = flag_value vals ''type''; filePath = flag_value vals ''file''
           in if positionals = [] then Inl (usageError ''subject is required'')
              else if command = ''get''
              then (if filePath \<noteq> [] \<or> length positionals \<noteq> 1 then Inl (usageError ''get accepts exactly one subject'')
                    else Inr (valueType, hd positionals, []))
              else if filePath \<noteq> []
              then (if valueType \<noteq> ''string'' then Inl (usageError ''-file can only be used with type string'')
                    else if length positionals \<noteq> 1 then Inl (usageError ''set with -file accepts only a subject'')
                    else (case cli_readValue env filePath of
                            Inl e \<Rightarrow> Inl e | Inr v \<Rightarrow> Inr (valueType, hd positionals, v)))
              else if length positionals \<noteq> 2 then Inl (usageError ''set requires a subject and value'')
              else Inr (valueType, hd positionals, positionals ! 1)))"

section \<open>Printing\<close>

type_synonym cli_outcome = "stream_client \<times> string list \<times> (go_error + unit)"

definition write_output :: "cli_env \<Rightarrow> string \<Rightarrow> stream_client \<Rightarrow> cli_outcome" where
  "write_output env text c =
     (if cl_write env text then (c, [text], Inr ()) else (c, [], Inl (errors_new ''write'')))"

text \<open>\<open>fmt.Fprintln\<close> of a scalar\<close>

definition format_scalar :: "cli_env \<Rightarrow> telemetry_value \<Rightarrow> string" where
  "format_scalar env v =
     (case v of
        StringValue s \<Rightarrow> s | BoolValue b \<Rightarrow> format_bool b | IntValue i \<Rightarrow> decimal_int i
      | FloatValue w \<Rightarrow> cl_format_float env w | _ \<Rightarrow> [])"

definition printScalar :: "cli_env \<Rightarrow> stream_client \<times> (go_error + telemetry_value) \<Rightarrow> cli_outcome" where
  "printScalar env r =
     (case r of
        (c, Inl e) \<Rightarrow> (c, [], Inl e)
      | (c, Inr v) \<Rightarrow> write_output env (format_scalar env v @ newline) c)"

text \<open>A JSON encoder writes the value and a line break.\<close>

definition printJSON :: "cli_env \<Rightarrow> stream_client \<times> (go_error + telemetry_value) \<Rightarrow> cli_outcome" where
  "printJSON env r =
     (case r of
        (c, Inl e) \<Rightarrow> (c, [], Inl e)
      | (c, Inr v) \<Rightarrow>
          (case cl_encode env v of
             None \<Rightarrow> (c, [], Inl (errors_new ''json: unsupported value''))
           | Some text \<Rightarrow> write_output env (text @ newline) c))"

definition value_bytes :: "telemetry_value \<Rightarrow> 8 word list" where
  "value_bytes v = (case v of BytesValue p \<Rightarrow> slice_list p | _ \<Rightarrow> [])"

definition printBytes :: "cli_env \<Rightarrow> stream_client \<times> (go_error + telemetry_value) \<Rightarrow> cli_outcome" where
  "printBytes env r =
     (case r of
        (c, Inl e) \<Rightarrow> (c, [], Inl e)
      | (c, Inr v) \<Rightarrow> write_output env (base64_encode (value_bytes v) @ newline) c)"

section \<open>The commands\<close>

definition command_get :: "cli_env \<Rightarrow> string \<Rightarrow> string \<Rightarrow> stream_client \<Rightarrow> cli_outcome" where
  "command_get env valueType subject c =
     (let read = (\<lambda>k. get_value (cl_stream env) k subject c)
      in if valueType = ''string'' then printScalar env (read KindString)
         else if valueType = ''bool'' then printScalar env (read KindBool)
         else if valueType = ''int64'' then printScalar env (read KindInt)
         else if valueType = ''float64'' then printScalar env (read KindFloat)
         else if valueType = ''bytes'' then printBytes env (read KindBytes)
         else if valueType = ''int64[]'' then printJSON env (read KindInts)
         else if valueType = ''float64[]'' then printJSON env (read KindFloats)
         else if valueType = ''string[]'' then printJSON env (read KindStrings)
         else if valueType = ''bool[]'' then printJSON env (read KindBools)
         else (c, [], Inl (usageError_quoted ''unsupported type %q'' valueType)))"

text \<open>A value that was parsed, or the error of parsing it, and the \<open>Set\<close> that follows.\<close>

definition set_parsed ::
    "cli_env \<Rightarrow> string \<Rightarrow> go_error \<Rightarrow> telemetry_value option \<Rightarrow> stream_client \<Rightarrow> stream_client \<times> (go_error + unit)" where
  "set_parsed env subject e v c =
     (case v of None \<Rightarrow> (c, Inl e) | Some x \<Rightarrow> set_value (cl_stream env) subject x c)"

definition setJSON ::
    "cli_env \<Rightarrow> value_kind \<Rightarrow> string \<Rightarrow> string \<Rightarrow> stream_client \<Rightarrow> stream_client \<times> (go_error + unit)" where
  "setJSON env k subject rawValue = set_parsed env subject (errors_new ''parse JSON value'') (cl_decode env k rawValue)"

definition command_set ::
    "cli_env \<Rightarrow> string \<Rightarrow> string \<Rightarrow> string \<Rightarrow> stream_client \<Rightarrow> stream_client \<times> (go_error + unit)" where
  "command_set env valueType subject rawValue c =
     (if valueType = ''string'' then set_value (cl_stream env) subject (StringValue rawValue) c
      else if valueType = ''bool''
      then set_parsed env subject (errors_new ''parse bool value'') (map_option BoolValue (ParseBool rawValue)) c
      else if valueType = ''int64''
      then set_parsed env subject (errors_new ''parse int64 value'') (map_option IntValue (parse_int64 rawValue)) c
      else if valueType = ''float64''
      then set_parsed env subject (errors_new ''parse float64 value'') (map_option FloatValue (ParseFloat rawValue)) c
      else if valueType = ''bytes''
      then set_parsed env subject (errors_new ''parse base64 bytes value'')
             (map_option (\<lambda>bs. BytesValue (Some bs)) (base64_decode rawValue)) c
      else if valueType = ''int64[]'' then setJSON env KindInts subject rawValue c
      else if valueType = ''float64[]'' then setJSON env KindFloats subject rawValue c
      else if valueType = ''string[]'' then setJSON env KindStrings subject rawValue c
      else if valueType = ''bool[]'' then setJSON env KindBools subject rawValue c
      else (c, Inl (usageError_quoted ''unsupported type %q'' valueType)))"

definition cli_run :: "cli_env \<Rightarrow> string list \<Rightarrow> stream_client option \<times> string list \<times> (go_error + unit)" where
  "cli_run env args =
     (case parse_flags [''config''] [(''config'', DefaultConfigPath)] args of
        Inl e \<Rightarrow> (None, [], Inl (usageError e))
      | Inr (vals, remaining) \<Rightarrow>
          (case remaining of
             [] \<Rightarrow> (None, [], Inl (usageError ''get or set command is required''))
           | command # commandArgs \<Rightarrow>
               if command \<noteq> ''get'' \<and> command \<noteq> ''set''
               then (None, [], Inl (usageError_quoted ''unknown command %q'' command))
               else (case parseCommand env command commandArgs of
                       Inl e \<Rightarrow> (None, [], Inl e)
                     | Inr (valueType, subject, rawValue) \<Rightarrow>
                         (case cl_connect env (flag_value vals ''config'') of
                            Inl e \<Rightarrow> (None, [], Inl e)
                          | Inr c \<Rightarrow>
                              if command = ''get''
                              then (case command_get env valueType subject c of (c', out, r) \<Rightarrow> (Some c', out, r))
                              else (case command_set env valueType subject rawValue c of
                                      (c', r) \<Rightarrow> (Some c', [], r))))))"

section \<open>What a command does to the bus\<close>

lemma get_value_bus: "sc_bus (fst (get_value env k subject c)) = sc_bus c"
  by (auto simp: get_value_def getPayload_def call_client_def split: sum.split prod.split)

lemma print_client [simp]:
  "fst (printScalar env r) = fst r" "fst (printJSON env r) = fst r" "fst (printBytes env r) = fst r"
  by (auto simp: printScalar_def printJSON_def printBytes_def write_output_def split: prod.split sum.split option.split)

lemma command_get_bus: "sc_bus (fst (command_get env valueType subject c)) = sc_bus c"
  by (simp add: command_get_def Let_def get_value_bus)

lemma write_output_length: "write_output env text c = (c', out, r) \<Longrightarrow> length out = (if ok r then 1 else 0)"
  by (auto simp: write_output_def split: if_splits)

lemma print_length:
  "length (fst (snd (printScalar env p))) = (if ok (snd (snd (printScalar env p))) then 1 else 0)"
  "length (fst (snd (printJSON env p))) = (if ok (snd (snd (printJSON env p))) then 1 else 0)"
  "length (fst (snd (printBytes env p))) = (if ok (snd (snd (printBytes env p))) then 1 else 0)"
  by (auto simp: printScalar_def printJSON_def printBytes_def write_output_def split: prod.split sum.split option.split)

lemma command_get_output:
  "length (fst (snd (command_get env t subject c))) = (if ok (snd (snd (command_get env t subject c))) then 1 else 0)"
  by (simp only: command_get_def Let_def print_length if_distrib [of snd] if_distrib [of fst] if_distrib [of length]
      if_distrib [of ok]) (simp add: print_length)

text \<open>What text stands for a value, by the name of its type.\<close>

definition parse_text :: "cli_env \<Rightarrow> string \<Rightarrow> string \<Rightarrow> telemetry_value option" where
  "parse_text env valueType text =
     (if valueType = ''string'' then Some (StringValue text)
      else if valueType = ''bool'' then map_option BoolValue (ParseBool text)
      else if valueType = ''int64'' then map_option IntValue (parse_int64 text)
      else if valueType = ''float64'' then map_option FloatValue (ParseFloat text)
      else if valueType = ''bytes'' then map_option (\<lambda>bs. BytesValue (Some bs)) (base64_decode text)
      else if valueType = ''int64[]'' then cl_decode env KindInts text
      else if valueType = ''float64[]'' then cl_decode env KindFloats text
      else if valueType = ''string[]'' then cl_decode env KindStrings text
      else if valueType = ''bool[]'' then cl_decode env KindBools text
      else None)"

lemma value_type_cases:
  obtains "t = ''string''" | "t = ''bool''" | "t = ''int64''" | "t = ''float64''" | "t = ''bytes''"
  | "t = ''int64[]''" | "t = ''float64[]''" | "t = ''string[]''" | "t = ''bool[]''"
  | "t \<notin> {''string'', ''bool'', ''int64'', ''float64'', ''bytes'', ''int64[]'', ''float64[]'', ''string[]'', ''bool[]''}"
proof (cases "t \<in> {''string'', ''bool'', ''int64'', ''float64'', ''bytes'', ''int64[]'', ''float64[]'', ''string[]'', ''bool[]''}")
  case True
  then show ?thesis by (elim insertE emptyE) (rule that, assumption)+
qed (rule that)

lemma command_set_parse:
  "(\<exists>v. parse_text env t text = Some v \<and> command_set env t subject text c = set_value (cl_stream env) subject v c) \<or>
   (\<exists>e. parse_text env t text = None \<and> command_set env t subject text c = (c, Inl e))"
  by (rule value_type_cases [of t])
    (simp_all add: command_set_def parse_text_def setJSON_def set_parsed_def split: option.split)

end
