(* ===== verification/Command_Properties.thy ===== *)
theory Command_Properties
  imports Command_Line Bus_Properties Designer_Spec
begin

text \<open>
  The properties of the command line, over the retain server of the bus.
\<close>

section \<open>Texts of values\<close>

text \<open>The name of the type and the text that print a value; floats and arrays are left to their printers.\<close>

definition canonical_text :: "telemetry_value \<Rightarrow> (string \<times> string) option" where
  "canonical_text v =
     (case v of
        StringValue s \<Rightarrow> Some (''string'', s)
      | BoolValue b \<Rightarrow> Some (''bool'', format_bool b)
      | IntValue i \<Rightarrow> if - (2 ^ 63) \<le> i \<and> i < 2 ^ 63 then Some (''int64'', decimal_int i) else None
      | BytesValue (Some bs) \<Rightarrow> Some (''bytes'', base64_encode bs)
      | _ \<Rightarrow> None)"

lemma parse_text_scalar:
  "parse_text env ''string'' s = Some (StringValue s)"
  "parse_text env ''bool'' (format_bool b) = Some (BoolValue b)"
  "- (2 ^ 63) \<le> i \<Longrightarrow> i < 2 ^ 63 \<Longrightarrow> parse_text env ''int64'' (decimal_int i) = Some (IntValue i)"
  "parse_text env ''bytes'' (base64_encode bs) = Some (BytesValue (Some bs))"
  by (simp_all add: parse_text_def ParseBool_format parse_decimal base64_decode_encode del: power_numeral)

lemma canonical_cases:
  assumes "canonical_text v = Some (t, raw)"
  obtains s where "v = StringValue s" "t = ''string''" "raw = s"
  | b where "v = BoolValue b" "t = ''bool''" "raw = format_bool b"
  | i where "v = IntValue i" "t = ''int64''" "raw = decimal_int i" "- (2 ^ 63) \<le> i" "i < 2 ^ 63"
  | bs where "v = BytesValue (Some bs)" "t = ''bytes''" "raw = base64_encode bs"
  using assms by (cases v) (auto simp: canonical_text_def split: option.splits if_splits)

lemma canonical_parse: "canonical_text v = Some (t, raw) \<Longrightarrow> parse_text env t raw = Some v"
  by (elim canonical_cases) (simp_all only: parse_text_scalar)

definition print_kind :: "value_kind \<Rightarrow> cli_env \<Rightarrow> stream_client \<times> (go_error + telemetry_value) \<Rightarrow> cli_outcome" where
  "print_kind k = (if k \<in> {KindString, KindBool, KindInt, KindFloat} then printScalar
                   else if k = KindBytes then printBytes else printJSON)"

lemma canonical_get:
  assumes "canonical_text v = Some (t, raw)"
  shows "command_get env t subject c = print_kind (kind_of v) env (get_value (cl_stream env) (kind_of v) subject c)"
  using assms by (elim canonical_cases) (simp_all add: command_get_def print_kind_def kind_of_def)

lemma canonical_print:
  assumes "canonical_text v = Some (t, raw)" and "cl_write env = (\<lambda>_. True)"
  shows "print_kind (kind_of v) env (c, Inr (encodeValue v)) = (c, [raw @ newline], Inr ())"
  using assms
  by (elim canonical_cases)
    (simp_all add: print_kind_def kind_of_def encodeValue_def printScalar_def printBytes_def write_output_def
      format_scalar_def value_bytes_def copy_slice_def)

section \<open>Argument lists\<close>

lemma parse_flags_plain: "\<not> has_prefix s ''-'' \<Longrightarrow> parse_flags formal vals (s # rest) = Inr (vals, s # rest)"
  by (cases s) (auto simp: has_prefix_def)

lemma parse_flags_type:
  "parse_flags [''type'', ''file''] vals (''-type'' # t # rest) = parse_flags [''type'', ''file''] (AList.update ''type'' t vals) rest"
  by (simp add: Let_def)

lemma run_set:
  assumes "\<not> has_prefix subject ''-''" and "cl_connect env DefaultConfigPath = Inr c"
  shows "cli_run env [''set'', ''-type'', t, subject, raw] =
    (case command_set env t subject raw c of (c', r) \<Rightarrow> (Some c', [], r))"
  using assms
  by (simp add: cli_run_def parse_flags_plain parseCommand_def parse_flags_type flag_value_def has_prefix_def
      del: parse_flags.simps(2))

lemma run_get:
  assumes "\<not> has_prefix subject ''-''" and "cl_connect env DefaultConfigPath = Inr c"
  shows "cli_run env [''get'', ''-type'', t, subject] =
    (case command_get env t subject c of (c', out, r) \<Rightarrow> (Some c', out, r))"
  using assms
  by (simp add: cli_run_def parse_flags_plain parseCommand_def parse_flags_type flag_value_def has_prefix_def
      del: parse_flags.simps(2))

text \<open>What the arguments come to: the path of the configuration, the command, the type, the subject and the text.\<close>

definition command_of ::
    "cli_env \<Rightarrow> string list \<Rightarrow> (string \<times> string \<times> string \<times> string \<times> string) option" where
  "command_of env args =
     (case parse_flags [''config''] [(''config'', DefaultConfigPath)] args of
        Inr (vals, command # commandArgs) \<Rightarrow>
          (if command \<noteq> ''get'' \<and> command \<noteq> ''set'' then None
           else (case parseCommand env command commandArgs of
                   Inr (t, subject, raw) \<Rightarrow> Some (flag_value vals ''config'', command, t, subject, raw)
                 | Inl _ \<Rightarrow> None))
      | _ \<Rightarrow> None)"

lemma cli_run_client:
  assumes "cli_run env args = (Some c', out, r)"
  shows "\<exists>path command t subject raw c. command_of env args = Some (path, command, t, subject, raw) \<and>
    cl_connect env path = Inr c \<and>
    (if command = ''get'' then command_get env t subject c = (c', out, r)
     else command = ''set'' \<and> command_set env t subject raw c = (c', r) \<and> out = [])"
proof -
  obtain vals command commandArgs where
    parsed: "parse_flags [''config''] [(''config'', DefaultConfigPath)] args = Inr (vals, command # commandArgs)"
    using assms by (auto simp: cli_run_def split: sum.splits list.splits)
  then obtain t subject raw where inner: "parseCommand env command commandArgs = Inr (t, subject, raw)"
    and known: "command = ''get'' \<or> command = ''set''"
    using assms by (auto simp: cli_run_def split: sum.splits if_splits)
  then obtain c where c: "cl_connect env (flag_value vals ''config'') = Inr c"
    using assms parsed by (auto simp: cli_run_def split: sum.splits if_splits)
  have "command_of env args = Some (flag_value vals ''config'', command, t, subject, raw)"
    using known inner by (elim disjE) (simp_all add: command_of_def parsed)
  moreover have "cli_run env args =
      (if command = ''get'' then (case command_get env t subject c of (c', out, r) \<Rightarrow> (Some c', out, r))
       else (case command_set env t subject raw c of (c', r) \<Rightarrow> (Some c', [], r)))"
    using known inner by (elim disjE) (simp_all add: cli_run_def parsed c)
  then have "if command = ''get'' then command_get env t subject c = (c', out, r)
      else command = ''set'' \<and> command_set env t subject raw c = (c', r) \<and> out = []"
    using assms known by (auto split: prod.splits if_splits)
  ultimately show ?thesis using c by blast
qed

section \<open>Two processes\<close>

text \<open>The first sets a boolean, the second has the requests of its own client answered by the server.\<close>

definition demo_cli :: "stream_env \<Rightarrow> cli_env" where
  "demo_cli env =
     \<lparr>cl_stream = env, cl_connect = (\<lambda>_. Inr demo_client), cl_read = (\<lambda>_. None), cl_decode = (\<lambda>_ _. None),
      cl_encode = (\<lambda>_. None), cl_format_float = (\<lambda>_. []), cl_write = (\<lambda>_. True)\<rparr>"

definition demo_answering :: stream_env where
  "demo_answering = demo_bus0\<lparr>se_request := (\<lambda>n subject data.
     Inr (the (handleGet ''inbox'' data (deliver_bus demo_bus0 (sc_bus demo_set_client) demo_server))))\<rparr>"

lemma demo_cli_set:
  "cli_run (demo_cli demo_bus0) [''set'', ''-type'', ''bool'', ''x'', ''true''] = (Some demo_set_client, [], Inr ())"
proof -
  have "set_value demo_bus0 ''x'' (BoolValue True) demo_client = (demo_set_client, Inr ())"
    using demo_set by (simp add: demo_set_client_def prod_eq_iff)
  then have "command_set (demo_cli demo_bus0) ''bool'' ''x'' ''true'' demo_client = (demo_set_client, Inr ())"
    using ParseBool_format [of True] by (simp add: command_set_def set_parsed_def demo_cli_def format_bool_def)
  then show ?thesis
    using run_set [of "''x''" "demo_cli demo_bus0" demo_client "''bool''" "''true''"]
    by (simp add: demo_cli_def has_prefix_def)
qed

section \<open>The properties\<close>

text \<open>C39. A string, a boolean, an integer or bytes written from the command line in their canonical text are what
  a later command of the same type prints, in a process of its own, once the retain server has received the
  messages of the first.\<close>

theorem command_line_round_trip:
  assumes "canonical_text v = Some (t, raw)" and "\<not> has_prefix subject ''-''"
    and "cl_connect env DefaultConfigPath = Inr c"
    and "cli_run env [''set'', ''-type'', t, subject, raw] = (Some c', out, Inr ())" and "sc_bus c' = new @ sc_bus c"
    and "proto_round_trip (cl_stream env)" and "se_unmarshal (cl_stream env') = se_unmarshal (cl_stream env)"
    and "cl_connect env' DefaultConfigPath = Inr d" and "sc_system d = sc_system c"
    and "answered_by (cl_stream env') (sc_calls d) (sc_system d) (deliver_bus (cl_stream env) new sr)"
    and "cl_write env' = (\<lambda>_. True)"
  shows "\<exists>d'. cli_run env' [''get'', ''-type'', t, subject] = (Some d', [raw @ newline], Inr ())"
proof -
  have "command_set env t subject raw c = (c', Inr ())"
    using assms(4) by (auto simp: run_set [OF assms(2,3)] split: prod.splits)
  then have set: "set_value (cl_stream env) subject v c = (c', Inr ())"
    using command_set_parse [of env t raw subject c] canonical_parse [OF assms(1), of env] by auto
  from set_reaches_server [OF set assms(5), of sr] obtain m data where
    m: "tm_value m = Some (encodeValue v)" "se_marshal (cl_stream env) m = Some data"
      "Get (sc_system c @ ''.'' @ trim_space subject) (sr_store (deliver_bus (cl_stream env) new sr)) = Some (copied data)"
    by blast
  obtain m' where m': "se_unmarshal (cl_stream env) (copied data) = Some m'" "decodeAny (tm_value m') = Inr (encodeValue v)"
    using assms(6) m(1,2) decode_encode [of v] unfolding proto_round_trip_def by metis
  have "get_value (cl_stream env') (kind_of v) subject d = (call_client d, Inr (encodeValue v))"
    using get_from_server [OF assms(10) set_value_subject [OF set], of data m' "encodeValue v"] m(3) m' assms(7,9) by simp
  then have "command_get env' t subject d = (call_client d, [raw @ newline], Inr ())"
    using canonical_get [OF assms(1)] canonical_print [OF assms(1,11)] by simp
  then show ?thesis by (simp add: run_get [OF assms(2,8)])
qed

theorem command_line_round_trip_witness:
  "snd (cli_run (demo_cli demo_answering) [''get'', ''-type'', ''bool'', ''x'']) = ([''true'' @ newline], Inr ())"
proof -
  have fresh: "sc_bus demo_set_client = sc_bus demo_set_client @ sc_bus demo_client"
    "sc_calls demo_client = 0" by (simp_all add: demo_client_fields)
  have proto: "proto_round_trip (cl_stream (demo_cli demo_bus0))"
    using demo_proto [of "[]"] by (simp add: proto_round_trip_def demo_cli_def demo_retained_def)
  have answered: "answered_by (cl_stream (demo_cli demo_answering)) (sc_calls demo_client) (sc_system demo_client)
      (deliver_bus (cl_stream (demo_cli demo_bus0)) (sc_bus demo_set_client) demo_server)"
    by (auto simp: answered_by_def handleGet_def demo_cli_def demo_answering_def split: option.split)
  have "canonical_text (BoolValue True) = Some (''bool'', ''true'')" by (simp add: canonical_text_def format_bool_def)
  from command_line_round_trip [OF this _ _ demo_cli_set fresh(1) proto _ _ refl answered]
  show ?thesis by (auto simp: demo_cli_def demo_answering_def has_prefix_def)
qed

text \<open>C40. A command that fails leaves the bus as it was, and so does a get, which prints one value when it
  succeeds; a set that succeeds prints nothing and publishes, under the subject it names, the one value its text
  stands for, with at most the announcement of the subject.\<close>

theorem command_line_effect:
  assumes "cli_run env args = (Some c', out, r)"
  shows "\<exists>path command t subject raw c. command_of env args = Some (path, command, t, subject, raw) \<and>
    cl_connect env path = Inr c \<and>
    (if \<not> ok r then sc_bus c' = sc_bus c \<and> out = []
     else if command = ''get'' then sc_bus c' = sc_bus c \<and> length out = 1
     else out = [] \<and>
       (\<exists>v ann m. parse_text env t raw = Some v \<and> tm_value m = Some (encodeValue v) \<and>
          sc_bus c' = ann @ (sc_system c @ ''.'' @ trim_space subject, m) # sc_bus c \<and> length ann \<le> 1))"
proof -
  from cli_run_client [OF assms] obtain path command t subject raw c where
    connect: "command_of env args = Some (path, command, t, subject, raw)" "cl_connect env path = Inr c"
    and outcome: "if command = ''get'' then command_get env t subject c = (c', out, r)
      else command = ''set'' \<and> command_set env t subject raw c = (c', r) \<and> out = []" by blast
  have "if \<not> ok r then sc_bus c' = sc_bus c \<and> out = []
      else if command = ''get'' then sc_bus c' = sc_bus c \<and> length out = 1
      else out = [] \<and>
        (\<exists>v ann m. parse_text env t raw = Some v \<and> tm_value m = Some (encodeValue v) \<and>
          sc_bus c' = ann @ (sc_system c @ ''.'' @ trim_space subject, m) # sc_bus c \<and> length ann \<le> 1)"
  proof (cases "command = ''get''")
    case True
    then show ?thesis
      using outcome command_get_bus [of env t subject c] command_get_output [of env t subject c]
      by (simp split: if_splits)
  next
    case False
    then have set: "command_set env t subject raw c = (c', r)" "out = []" using outcome by simp_all
    from command_set_parse [of env t raw subject c] show ?thesis
    proof (elim disjE exE conjE)
      fix v
      assume v: "parse_text env t raw = Some v" "command_set env t subject raw c = set_value (cl_stream env) subject v c"
      show ?thesis
      proof (cases r)
        case (Inl e)
        then show ?thesis using set_value_error_bus set v(2) by simp
      next
        case (Inr u)
        then have "set_value (cl_stream env) subject v c = (c', Inr ())" using set v(2) by simp
        from set_value_bus [OF this] obtain ann m where
          "sc_bus c' = ann @ (sc_system c @ ''.'' @ trim_space subject, m) # sc_bus c"
          "tm_value m = Some (encodeValue v)" "length ann \<le> 1" by blast
        then show ?thesis using set(2) Inr v(1) False by auto
      qed
    qed (use set in auto)
  qed
  then show ?thesis using connect by blast
qed

theorem command_line_effect_witness:
  "\<exists>ann m. sc_bus demo_set_client = ann @ (sc_system demo_client @ ''.x'', m) # sc_bus demo_client \<and>
     tm_value m = Some (BoolValue True)"
proof -
  have "command_of (demo_cli demo_bus0) [''set'', ''-type'', ''bool'', ''x'', ''true''] =
      Some (''config.yaml'', ''set'', ''bool'', ''x'', ''true'')"
    "parse_text (demo_cli demo_bus0) ''bool'' ''true'' = Some (BoolValue True)" "trim_space ''x'' = ''x''"
    by code_simp+
  with command_line_effect [OF demo_cli_set] show ?thesis
    by (auto simp: demo_cli_def encodeValue_def)
qed

end
