(* ===== verification/Bus_Adapters.thy ===== *)
theory Bus_Adapters
  imports Designer_Spec Stream_Interest Modbus_Publish Alert_Service_Spec
begin

text \<open>
  The adapters through which the services reach the bus: \<open>streamPublisher\<close> and
  \<open>streamConfigurationSource\<close> of \<open>modbus/service.go\<close>, \<open>streamService\<close> and \<open>defaultEpisodeID\<close> of
  \<open>alert/service.go\<close>. With them the environments of the two services are filled in with the stream
  client, and a value published for a device is followed through the retain server and the live
  messages to the alert over it.
\<close>

section \<open>The Modbus service on the stream\<close>

definition device_value :: "hw_value \<Rightarrow> telemetry_value" where
  "device_value v = (case v of HBool b \<Rightarrow> BoolValue b | HInt i \<Rightarrow> IntValue i | HFloat f \<Rightarrow> FloatValue f)"

text \<open>\<open>PublishBool\<close>, \<open>PublishInt64\<close> and \<open>PublishFloat64\<close>: the value chooses the method.\<close>

definition streamPublisher ::
    "stream_env \<Rightarrow> string \<Rightarrow> hw_value \<Rightarrow> stream_client \<Rightarrow> stream_client \<times> (go_error + unit)" where
  "streamPublisher senv subject v c = set_value senv subject (device_value v) c"

text \<open>\<open>stream.Get[string]\<close>, which both services read descriptors, configurations and states with.\<close>

definition GetString :: "stream_env \<Rightarrow> string \<Rightarrow> stream_client \<Rightarrow> stream_client \<times> (go_error + string)" where
  "GetString senv subject c =
     (case get_value senv KindString subject c of
        (c1, Inl e) \<Rightarrow> (c1, Inl e)
      | (c1, Inr v) \<Rightarrow> (c1, Inr (case v of StringValue s \<Rightarrow> s | _ \<Rightarrow> [])))"

definition option_of :: "'a \<times> (go_error + 'b) \<Rightarrow> 'b option" where
  "option_of r = (case snd r of Inl _ \<Rightarrow> None | Inr v \<Rightarrow> Some v)"

text \<open>
  \<open>tcpClientFactory.Open\<close> makes calls of the Modbus library, which \<open>lib\<close> lets fail or not; the calls made are the
  first result.
\<close>

datatype library_call = CallNewClient string int | CallSetUnitId u8 | CallOpen | CallClose

definition tcp_Open :: "(library_call \<Rightarrow> go_error option) \<Rightarrow> connection \<Rightarrow> library_call list \<times> (go_error + unit)" where
  "tcp_Open lib conn =
     (let new = CallNewClient (mc_url conn) (mc_timeout conn); unit = CallSetUnitId (mc_unit_id conn)
      in case lib new of
           Some e \<Rightarrow> ([new], Inl (wrapf ''configure Modbus client %s: %w'' [FStr (mc_url conn)] e))
         | None \<Rightarrow>
             (case lib unit of
                Some e \<Rightarrow> ([new, unit, CallClose],
                  Inl (wrapf ''set Modbus unit ID %d: %w'' [FInt (uint (mc_unit_id conn))] e))
              | None \<Rightarrow>
                  (case lib CallOpen of
                     Some e \<Rightarrow> ([new, unit, CallOpen, CallClose],
                       Inl (wrapf ''connect to Modbus endpoint %s: %w'' [FStr (mc_url conn)] e))
                   | None \<Rightarrow> ([new, unit, CallOpen], Inr ()))))"

text \<open>A client that was made is either returned open or closed.\<close>

lemma tcp_Open_leaks_nothing:
  "tcp_Open lib conn = (calls, r) \<Longrightarrow> lib (CallNewClient (mc_url conn) (mc_timeout conn)) = None \<Longrightarrow>
     CallClose \<in> set calls \<longleftrightarrow> \<not> ok r"
  by (auto simp: tcp_Open_def Let_def split: option.splits)

text \<open>
  \<open>NewService\<close> of the Modbus service: \<open>clients n\<close> is the stream client at call \<open>n\<close>, \<open>lib n\<close> the Modbus library.
\<close>

definition modbus_on_stream ::
    "stream_env \<Rightarrow> (nat \<Rightarrow> stream_client) \<Rightarrow> (nat \<Rightarrow> library_call \<Rightarrow> go_error option) \<Rightarrow> modbus_env \<Rightarrow> modbus_env" where
  "modbus_on_stream senv clients lib env =
     env\<lparr>mv_list := (\<lambda>n suf. option_of (ListSubjects senv suf (clients n))),
         mv_get := (\<lambda>n subject. option_of (GetString senv subject (clients n))),
         mv_publish := (\<lambda>n subject v. option_of (streamPublisher senv subject v (clients n)) \<noteq> None),
         mv_open := (\<lambda>n conn. option_of (tcp_Open (lib n) conn) \<noteq> None)\<rparr>"

section \<open>The alert service on the stream\<close>

text \<open>A value of the stream as the \<open>any\<close> of a handler.\<close>

definition any_of :: "telemetry_value \<Rightarrow> any" where
  "any_of v =
     (case v of IntValue i \<Rightarrow> VInt i | FloatValue f \<Rightarrow> VFloat f | StringValue s \<Rightarrow> VString s | BoolValue b \<Rightarrow> VBool b
        | BytesValue p \<Rightarrow> VBytes (slice_list p) | IntArray xs \<Rightarrow> VInts (slice_list xs)
        | FloatArray xs \<Rightarrow> VFloats (slice_list xs) | StringArray xs \<Rightarrow> VStrings (slice_list xs)
        | BoolArray xs \<Rightarrow> VBools (slice_list xs))"

definition streamService_GetAny ::
    "stream_env \<Rightarrow> string \<Rightarrow> stream_client \<Rightarrow> stream_client \<times> (go_error + any)" where
  "streamService_GetAny senv subject c =
     (case GetAny senv subject c of (c1, Inl e) \<Rightarrow> (c1, Inl e) | (c1, Inr v) \<Rightarrow> (c1, Inr (any_of v)))"

definition PublishString ::
    "stream_env \<Rightarrow> string \<Rightarrow> string \<Rightarrow> stream_client \<Rightarrow> stream_client \<times> (go_error + unit)" where
  "PublishString senv subject st c = set_value senv subject (StringValue st) c"

text \<open>The handler that \<open>SubscribeCreated\<close> installs on the registry subject: the event, or the error.\<close>

definition created_event :: "stream_env \<Rightarrow> string \<Rightarrow> event option" where
  "created_event senv raw = map_option (\<lambda>(subject, suf). CreatedSubject suf subject) (DecodeSubjectCreated senv raw)"

text \<open>\<open>episodeSequence\<close> is a counter of the process; \<open>now\<close> is in nanoseconds.\<close>

definition defaultEpisodeID :: "int \<Rightarrow> 64 word \<Rightarrow> 64 word \<times> string" where
  "defaultEpisodeID now counter = (let n = counter + 1 in (n, decimal_int now @ ''-'' @ decimal (unat n)))"

text \<open>\<open>NewService\<close> of the alert service.\<close>

definition alert_on_stream ::
    "stream_env \<Rightarrow> (nat \<Rightarrow> stream_client) \<Rightarrow> (nat \<Rightarrow> 64 word) \<Rightarrow> env \<Rightarrow> env" where
  "alert_on_stream senv clients counter env =
     env\<lparr>en_new_id := (\<lambda>n. snd (defaultEpisodeID (instant (en_now env n)) (counter n))),
         en_publish := (\<lambda>n subject st. option_of (PublishString senv subject st (clients n)) \<noteq> None),
         en_get_string := (\<lambda>n subject. option_of (GetString senv subject (clients n))),
         en_get_any := (\<lambda>n subject. option_of (streamService_GetAny senv subject (clients n))),
         en_list_suffix := (\<lambda>n suf. option_of (ListSubjects senv suf (clients n))),
         en_list_prefix := (\<lambda>n pre. option_of (ListSubjectsPrefix senv pre (clients n)))\<rparr>"

lemma alert_on_stream_fields [simp]:
  "en_codec (alert_on_stream senv clients counter env) = en_codec env"
  "en_get_any (alert_on_stream senv clients counter env) n s = option_of (streamService_GetAny senv s (clients n))"
  by (simp_all add: alert_on_stream_def)

text \<open>The episode names of the code are never empty, so only the codec has to be dependable.\<close>

lemma defaultEpisodeID_nonempty: "snd (defaultEpisodeID now n) \<noteq> []"
  by (simp add: defaultEpisodeID_def Let_def)

text \<open>Two names of one process are equal only if the counter has come round.\<close>

lemma defaultEpisodeID_inj:
  assumes "snd (defaultEpisodeID now m) = snd (defaultEpisodeID now' n)"
  shows "m = n"
proof -
  have "decimal (unat (m + 1)) = decimal (unat (n + 1))"
    using split_last_dash [OF _ decimal_no_dash decimal_no_dash, of "decimal_int now" _ "decimal_int now'"] assms
    by (simp add: defaultEpisodeID_def Let_def)
  then show ?thesis using decimal_inj by (fastforce simp: word_unat_eq_iff [symmetric])
qed

lemma dependable_on_stream:
  assumes "\<And>st. ok (validate_state st) \<Longrightarrow> encode_state (en_codec env) st \<noteq> None"
  shows "dependable (alert_on_stream senv clients counter env)"
  using assms by (simp add: dependable_def defaultEpisodeID_nonempty alert_on_stream_def)

section \<open>From the device to the bus\<close>

text \<open>The publications a service attempts, in order, and those that succeed.\<close>

fun publishAll ::
    "stream_env \<Rightarrow> (string \<times> hw_value) list \<Rightarrow> stream_client \<Rightarrow> stream_client \<times> (string \<times> hw_value) list" where
  "publishAll senv [] c = (c, [])"
| "publishAll senv ((t, v) # rest) c =
     (let (c1, r) = streamPublisher senv t v c; (c2, sent) = publishAll senv rest c1
      in (c2, case r of Inl _ \<Rightarrow> sent | Inr _ \<Rightarrow> (t, v) # sent))"

definition on_bus :: "stream_env \<Rightarrow> string \<Rightarrow> (string \<times> hw_value) list \<Rightarrow> (string \<times> telemetry_message) list \<Rightarrow> bool" where
  "on_bus senv system sent msgs \<longleftrightarrow>
     (\<forall>t. t \<noteq> SubjectCreatedSubject \<longrightarrow>
        (case map_of (rev sent) t of
           None \<Rightarrow> map_of msgs (system @ ''.'' @ t) = None
         | Some v \<Rightarrow> (\<exists>m. map_of msgs (system @ ''.'' @ t) = Some m \<and> tm_value m = Some (device_value v) \<and>
             se_marshal senv m \<noteq> None)))"

lemma encode_device [simp]: "encodeValue (device_value v) = device_value v"
  by (cases v) (simp_all add: encodeValue_def device_value_def)

lemma on_bus_append:
  assumes first: "on_bus senv system a as" and rest: "on_bus senv system b bs"
  shows "on_bus senv system (a @ b) (bs @ as)"
  unfolding on_bus_def
proof (intro allI impI)
  fix t assume t: "t \<noteq> SubjectCreatedSubject"
  show "case map_of (rev (a @ b)) t of
      None \<Rightarrow> map_of (bs @ as) (system @ ''.'' @ t) = None
    | Some v \<Rightarrow> \<exists>m. map_of (bs @ as) (system @ ''.'' @ t) = Some m \<and> tm_value m = Some (device_value v) \<and>
        se_marshal senv m \<noteq> None"
    using first [unfolded on_bus_def, rule_format, OF t] rest [unfolded on_bus_def, rule_format, OF t]
    by (cases "map_of (rev b) t") (auto simp: map_add_def split: option.split)
qed

lemma on_bus_published:
  assumes "streamPublisher senv t v c = (c', Inr ())" and "trim_space t = t"
  shows "\<exists>new. sc_bus c' = new @ sc_bus c \<and> on_bus senv (sc_system c) [(t, v)] new"
proof -
  obtain ann m data where m: "sc_bus c' = ann @ (sc_system c @ ''.'' @ t, m) # sc_bus c"
    "tm_value m = Some (device_value v)" "se_marshal senv m = Some data"
    and ann: "\<forall>(s, x)\<in>set ann. s = registry_subject c"
    using set_value_bus [OF assms(1) [unfolded streamPublisher_def]] assms(2) by fastforce
  have "map_of ann (sc_system c @ ''.'' @ x) = None" if "x \<noteq> SubjectCreatedSubject" for x
    using ann that by (auto simp: map_of_eq_None_iff registry_subject_def)
  then have "on_bus senv (sc_system c) [(t, v)] (ann @ [(sc_system c @ ''.'' @ t, m)])"
    using m(2,3) by (auto simp: on_bus_def map_add_def)
  then show ?thesis using m(1) by (intro exI [of _ "ann @ [(sc_system c @ ''.'' @ t, m)]"]) simp
qed

lemma publishAll_on_bus:
  assumes "publishAll senv attempts c = (c', sent)" and "\<forall>(t, v)\<in>set sent. trim_space t = t"
  shows "sc_system c' = sc_system c \<and> (\<exists>new. sc_bus c' = new @ sc_bus c \<and> on_bus senv (sc_system c) sent new)"
  using assms
proof (induction attempts arbitrary: c sent)
  case Nil
  then show ?case by (simp add: on_bus_def)
next
  case (Cons tv rest)
  obtain t v where tv: "tv = (t, v)" by fastforce
  obtain c1 r where r: "streamPublisher senv t v c = (c1, r)" by fastforce
  obtain sent1 where later: "publishAll senv rest c1 = (c', sent1)"
    and sent: "sent = (case r of Inl _ \<Rightarrow> sent1 | Inr _ \<Rightarrow> (t, v) # sent1)"
    using Cons.prems(1) by (auto simp: tv r split: prod.splits)
  have "sc_config c1 = sc_config c"
    using set_value_config [of senv t "device_value v" c] r by (simp add: streamPublisher_def)
  then have system: "sc_system c1 = sc_system c" by (simp add: sc_system_def)
  have "\<forall>(t, v)\<in>set sent1. trim_space t = t" using Cons.prems(2) sent by (simp split: sum.splits)
  from Cons.IH [OF later this] system obtain new1 where
    new1: "sc_system c' = sc_system c" "sc_bus c' = new1 @ sc_bus c1" "on_bus senv (sc_system c) sent1 new1" by auto
  show ?case
  proof (cases r)
    case (Inl e)
    then have "sc_bus c1 = sc_bus c" using r by (auto simp: streamPublisher_def intro: set_value_error_bus)
    then show ?thesis using new1 sent Inl by simp
  next
    case (Inr u)
    then have "trim_space t = t" using Cons.prems(2) sent by simp
    then obtain new where "sc_bus c1 = new @ sc_bus c" "on_bus senv (sc_system c) [(t, v)] new"
      using on_bus_published r Inr by (metis old.unit.exhaust)
    then show ?thesis using new1 sent Inr on_bus_append [of senv "sc_system c" "[(t, v)]" new sent1 new1] by simp
  qed
qed

section \<open>From the bus to the alert\<close>

lemma map_of_marshalled:
  "map_of msgs s = Some m \<Longrightarrow> f m = Some d \<Longrightarrow>
     map_of (List.map_filter (\<lambda>(subject, x). map_option (Pair subject) (f x)) msgs) s = Some d"
  by (induction msgs) (auto simp: List.map_filter_simps split: option.split if_splits)

text \<open>The newest value of a subject is the one retained, and the one the last live message carries.\<close>

lemma on_bus_read:
  assumes bus: "on_bus senv (sc_system a) sent new" and newest: "map_of (rev sent) t = Some v"
    and t: "t \<noteq> SubjectCreatedSubject" "trim_space t = t" "t \<noteq> []"
    and proto: "proto_round_trip senv"
    and retain: "answered_by senv (sc_calls a) (sc_system a) (deliver_bus senv new sr)"
  shows "GetAny senv t a = (call_client a, Inr (device_value v)) \<and>
    (\<exists>m data. map_of new (sc_system a @ ''.'' @ t) = Some m \<and> se_marshal senv m = Some data \<and>
       decodeExact senv (copied data) = Inr (device_value v))"
proof -
  let ?full = "sc_system a @ ''.'' @ t"
  obtain m data where m: "map_of new ?full = Some m" "tm_value m = Some (device_value v)" "se_marshal senv m = Some data"
    using bus [unfolded on_bus_def, rule_format, OF t(1)] newest by auto
  obtain m' where m': "se_unmarshal senv (copied data) = Some m'" "decodeAny (tm_value m') = Inr (device_value v)"
    using proto m(2,3) decode_encode [of "device_value v"] unfolding proto_round_trip_def by (metis encode_device)
  have "Get ?full (sr_store (deliver_bus senv new sr)) = Some (copied data)"
    using map_of_marshalled [of new ?full m "se_marshal senv" data] m(1,3) by (simp add: deliver_bus_get)
  moreover obtain reply where "handleGet ''inbox'' (append_nil (bytes_of_string ?full)) (deliver_bus senv new sr) = Some reply"
    and reply: "se_request senv (sc_calls a) (GetSubject (sc_system a)) (append_nil (bytes_of_string ?full)) = Inr reply"
    using retain unfolding answered_by_def by blast
  ultimately have "reply = \<lparr>rp_header = [], rp_data = copied data\<rparr>" by (simp add: handleGet_def)
  then have "getPayload senv ?full a = (call_client a, Inr (copied data))"
    using reply by (simp add: getPayload_def header_get_def ErrorNotFound_def)
  moreover have "validateOperation a t = Inr ?full" using t by (simp add: validateOperation_def)
  ultimately have "GetAny senv t a = (call_client a, Inr (device_value v))" using m' by (simp add: GetAny_def)
  then show ?thesis using m m' by (auto simp: decodeExact_def)
qed

text \<open>A value of the source reaches the one definition that has it as its input.\<close>

lemma evaluateConfig_properties:
  assumes "sv_properties a = sv_properties b" and "cf_type (ad_config d) \<noteq> TypeSummary"
  shows "evaluateConfig d a = evaluateConfig d b"
  using assms by (cases "cf_type (ad_config d)") (simp_all add: evaluateConfig_def cong: option.case_cong any.case_cong)

lemma acceptInput_static:
  assumes "the_definitions sv c = Some d"
  shows "sv_properties (acceptInputLocked env c d v sv) = sv_properties sv"
    "the_definitions (acceptInputLocked env c d v sv) = (the_definitions sv)(c \<mapsto> d\<lparr>ad_input := Some v\<rparr>)"
proof -
  let ?sv = "sv\<lparr>sv_definitions := AList.update c (d\<lparr>ad_input := Some v\<rparr>) (sv_definitions sv)\<rparr>"
  have accept: "acceptInputLocked env c d v sv = evaluateAncestors env (ad_output d) (evaluateDefinitionLocked env c ?sv)"
    using assms by (simp add: acceptInputLocked_def the_definitions_def)
  have same: "static_part (acceptInputLocked env c d v sv) = static_part ?sv"
    unfolding accept by (simp add: ancestors_op.static)
  show "sv_properties (acceptInputLocked env c d v sv) = sv_properties sv"
    using static_fields(1) [OF same] by simp
  show "the_definitions (acceptInputLocked env c d v sv) = (the_definitions sv)(c \<mapsto> d\<lparr>ad_input := Some v\<rparr>)"
    using static_fields(2) [OF same] by (simp add: the_definitions_def update_conv')
qed

lemma acceptSource_other:
  assumes "\<forall>x\<in>set order. \<forall>d'. the_definitions sv x = Some d' \<longrightarrow> ad_source d' \<noteq> t"
  shows "acceptSourceLocked env order t v sv = sv"
  using assms by (induction order) (auto simp: the_definitions_def split: option.split)

lemma acceptSource_reflects:
  assumes "dependable env" and "cf_type (ad_config d) \<noteq> TypeSummary" and "c \<in> set order"
  shows "sound env sv \<Longrightarrow> the_definitions sv c = Some (d\<lparr>ad_input := i\<rparr>) \<Longrightarrow>
    evaluateConfig (d\<lparr>ad_input := Some v\<rparr>) sv = Some r \<Longrightarrow>
    \<exists>st. map_of (sv_states (acceptSourceLocked env order (ad_source d) v sv)) (ad_output d) = Some st \<and>
      reflects (outcome r) st"
  using assms(3)
proof (induction order arbitrary: sv i)
  case (Cons x rest)
  let ?d = "d\<lparr>ad_input := i\<rparr>" and ?sv1 = "acceptInputLocked env c (d\<lparr>ad_input := i\<rparr>) v sv"
  have only: "y = c" if "the_definitions sv' y = Some d'" "ad_source d' = ad_source d" "sound env sv'"
      "the_definitions sv' c = Some (d\<lparr>ad_input := j\<rparr>)" for sv' y d' j
  proof -
    have "installed y d'" "installed c (d\<lparr>ad_input := j\<rparr>)"
      using that by (auto simp: sound_def intro: wired_installed)
    then show ?thesis using that(2) by (auto simp: installed_def InputSubject_Inr)
  qed
  show ?case
  proof (cases "x = c")
    case True
    have first: "acceptSourceLocked env (x # rest) (ad_source d) v sv =
        acceptSourceLocked env rest (ad_source d) v ?sv1"
      using Cons.prems(2) assms(2) True by (simp add: the_definitions_def is_summary_def)
    have sound: "sound env ?sv1" using Cons.prems(1) by (rule sound_acceptInput)
    have d1: "the_definitions ?sv1 c = Some (d\<lparr>ad_input := Some v\<rparr>)"
      using acceptInput_static(2) [OF Cons.prems(2), of env v] by simp
    have r1: "evaluateConfig (d\<lparr>ad_input := Some v\<rparr>) ?sv1 = Some r"
      using evaluateConfig_properties [of ?sv1 sv "d\<lparr>ad_input := Some v\<rparr>"] acceptInput_static(1) [OF Cons.prems(2), of env v]
        Cons.prems(3) assms(2) by simp
    show ?thesis
    proof (cases "c \<in> set rest")
      case True
      then show ?thesis using Cons.IH [OF sound d1 r1] by (simp only: first)
    next
      case False
      then have "acceptSourceLocked env rest (ad_source d) v ?sv1 = ?sv1"
        using only [OF _ _ sound d1] by (intro acceptSource_other) blast
      moreover have "\<exists>st. map_of (sv_states ?sv1) (ad_output d) = Some st \<and> reflects (outcome r) st"
        using acceptInput_reflects [OF assms(1) Cons.prems(1,2), of v r ?d] Cons.prems(3) by simp
      ultimately show ?thesis by (simp only: first)
    qed
  next
    case False
    then have "acceptSourceLocked env (x # rest) (ad_source d) v sv = acceptSourceLocked env rest (ad_source d) v sv"
      using only [OF _ _ Cons.prems(1,2)] by (auto simp: the_definitions_def split: option.split)
    then show ?thesis using Cons False by simp
  qed
qed simp

text \<open>What a configuration asks for when its input is \<open>v\<close>.\<close>

definition asked_for :: "config \<Rightarrow> any \<Rightarrow> service \<Rightarrow> (go_error + evaluation) option" where
  "asked_for k v sv =
     evaluateConfig \<lparr>ad_raw = [], ad_config = k, ad_output = [], ad_source = [], ad_input = Some v, ad_ref = 0\<rparr> sv"

text \<open>A configuration that comes after the value reads it when it is installed.\<close>

lemma evaluateConfig_cong_input:
  assumes "ad_config d = ad_config d'" and "ad_input d = ad_input d'"
  shows "evaluateConfig d sv = evaluateConfig d' sv"
  unfolding evaluateConfig_def assms ..

lemma asked_for_definition: "ad_input d = Some v \<Longrightarrow> evaluateConfig d sv = asked_for (ad_config d) v sv"
  unfolding asked_for_def by (rule evaluateConfig_cong_input) simp_all

lemma removeDefinition_keeps:
  "sv_properties (removeDefinitionLocked env c sv) = sv_properties sv \<and>
   (sv_inputs (removeDefinitionLocked env c sv) = None) = (sv_inputs sv = None)"
proof (cases "map_of (sv_definitions sv) c")
  case (Some d)
  have "\<exists>ps. unhookParentsLocked c d sv = sv\<lparr>sv_parents := ps\<rparr>"
    using unhookMembers_only [of c "config_members (ad_config d)" sv]
    by (auto simp: unhookParentsLocked_def intro: exI [of _ "sv_parents sv"])
  then show ?thesis using Some by (auto simp: removeDefinitionLocked_def Let_def call_def split: option.split)
qed (simp add: removeDefinitionLocked_def)

lemma reconcileConfig_reflects:
  assumes "dependable env" and sound: "sound env sv" and parsed: "parseConfigFor (en_codec env) c raw = Inr k"
    and subjects: "OutputSubject c = Inr (ad_output d)" "InputSubject c = Inr (ad_source d)"
    and k: "cf_enabled k" "cf_type k \<noteq> TypeSummary"
    and running: "sv_inputs sv \<noteq> None" "\<And>n. en_watch env n (ad_source d)"
    and held: "\<And>n. en_get_any env n (ad_source d) = Some v"
    and r: "evaluateConfig (d\<lparr>ad_config := k, ad_input := Some v\<rparr>) sv = Some r"
  shows "\<exists>st. map_of (sv_states (reconcileConfigLocked env c raw sv)) (ad_output d) = Some st \<and> reflects (outcome r) st"
proof -
  let ?sv0 = "removeDefinitionLocked env c sv"
  define e where "e = \<lparr>ad_raw = raw, ad_config = k, ad_output = ad_output d, ad_source = ad_source d,
    ad_input = None, ad_ref = sv_refs ?sv0\<rparr>"
  let ?sv1 = "installDefinition env c e ?sv0"
  have e: "installed c e" "\<not> is_summary e" "ad_source e = ad_source d" "ad_output e = ad_output d"
    using subjects k parseConfigFor_valid [OF parsed] by (simp_all add: e_def installed_def is_summary_def)
  have sv0: "sound env ?sv0" "the_definitions ?sv0 c = None"
    using sound by (simp_all add: sound_removeDefinition removeDefinition_definitions)
  from sound_install [OF this e(1,2)] have sv1: "sound env ?sv1" .
  obtain names where inputs: "sv_inputs ?sv1 = Some names"
    using running(1) removeDefinition_keeps [of env c sv] by (auto simp: installDefinition_def)
  let ?sv2 = "call (call ?sv1\<lparr>sv_inputs := Some (List.insert (ad_source d) names)\<rparr>)"
  have "reconcileConfigLocked env c raw sv = acceptInputLocked env c e v ?sv2"
    using parsed subjects k e(2) running(2) held inputs
    by (simp add: reconcileConfigLocked_def Let_def flip: e_def)
  moreover have sv2: "sound env ?sv2" using sv1 by simp
  moreover have "the_definitions ?sv2 c = Some e"
    by (simp add: the_definitions_def installDefinition_fields(1) [unfolded the_definitions_def])
  moreover have "sv_properties ?sv2 = sv_properties sv"
    using removeDefinition_keeps [of env c sv]
    by (simp add: installDefinition_def watchState_def call_def split: option.split)
  moreover have "evaluateConfig (e\<lparr>ad_input := Some v\<rparr>) sv = Some r"
    using r evaluateConfig_cong_input [of "e\<lparr>ad_input := Some v\<rparr>" "d\<lparr>ad_config := k, ad_input := Some v\<rparr>" sv]
    by (simp add: e_def)
  ultimately show ?thesis
    using acceptInput_reflects [OF assms(1) sv2, of c e v r e] evaluateConfig_properties [of ?sv2 sv "e\<lparr>ad_input := Some v\<rparr>"]
      k(2) e(4) by (simp add: e_def)
qed

end
