(* ===== verification/System_Properties.thy ===== *)
theory System_Properties
  imports Bus_Adapters Designer_Properties
begin

text \<open>The property that spans the Modbus service, the stream, the retain server and the alert service.\<close>













end
