(* ===== verification/Static_Files.thy ===== *)
theory Static_Files
  imports Go_Strings
begin

text \<open>
  \<open>withStaticFiles\<close> of \<open>designer-service/main.go\<close>: a request outside \<open>/api/\<close> is answered with a file of the
  directory of the compiled UI, or with its \<open>index.html\<close>. \<open>path.Clean\<close> and, for Unix, \<open>filepath.Join\<close> are written
  out over the components of a path. The file system is the function \<open>stat\<close>: whether a path exists, and
  whether it is a directory; what a symbolic link inside the directory points to is not looked at.
\<close>

section \<open>Paths\<close>





section \<open>The handler\<close>



section \<open>What is below a directory\<close>

















section \<open>Properties\<close>



end
