(* ===== verification/Spec2Isabelle.thy ===== *)
theory Spec2Isabelle
  imports Alert_Properties Modbus_Properties Bus_Properties Designer_Properties Simulator_Properties
    Command_Properties System_Properties Static_Files
begin

text \<open>
  A model of go-scada, a SCADA system of small services around one NATS bus, with the theorems that make
  its services correct. File names are relative to \<open>src/\<close>.

  \<^bold>\<open>The program.\<close> Every telemetry value lives under a subject of the bus. \<open>stream/\<close> is the client all
  services use: it numbers and publishes messages, announces new subjects, reads retained values and
  subscribes. \<open>retain/\<close> listens to the bus, keeps the last value of every subject in memory and in SQLite,
  and answers the Get and List requests of the client. \<open>modbus/\<close> follows the descriptors under \<open>.config\<close> and
  \<open>.address\<close> subjects (\<open>address/\<close>), polls the devices they name and publishes the values. \<open>alert/\<close> follows
  \<open>.alert_config\<close> subjects, evaluates their inputs or, for a summary, other alerts, and publishes the
  resulting states under \<open>.alert\<close> subjects, which users acknowledge by writing to the same subject.
  \<open>designer/\<close> serves the user interface: HTTP handlers that list, save and disable descriptors and configurations
  and acknowledge alerts, and live sessions that follow values and alerts. \<open>simulator/\<close> seeds the descriptors of a
  simulated plant and its replicas, \<open>scada-cli/\<close> reads and writes single values.

  \<^bold>\<open>Conventions.\<close> A Go struct is a record, an enumeration with string values a datatype with a constructor for
  the other strings, a pointer an option. A function returning \<open>(T, error)\<close> is a function into
  \<open>go_error + 'a\<close>; errors keep their format and arguments. Strings are lists of bytes. Registers, quantities
  and sequence numbers are words; \<open>float64\<close> is its 64 bits, with the comparisons and the parser written out
  (\<open>Go_Numbers\<close>); \<open>int64\<close> values that are only compared and transported are \<open>int\<close>. A Go map is an association
  list with distinct keys (\<open>Assoc_Lists\<close>), and where the code ranges over a map its order is an argument. What the
  program calls but does not contain (encoding/json, protobuf, NATS, SQLite, the Modbus client, url.Parse, the
  clock) is a record of functions, an argument of the operations that use it. Functions that can answer
  differently each time get the number of the call, which the state counts, so a theorem holds for every
  sequence of answers and failures. Logging is left out, so are the nil checks on receivers and callbacks.

  \<^bold>\<open>Concurrency.\<close> A critical section is one operation. Theorems about services quantify over every sequence of
  them; where code leaves a lock in the middle of an operation the model has both halves as operations
  (\<open>installConnection\<close> and \<open>restartConnection\<close>, \<open>takeDirty\<close> and \<open>writeBatch\<close>, \<open>watch_subject\<close> and
  \<open>handle_retained\<close>).

  \<^bold>\<open>The alert package.\<close>
  \<^item> \<open>Alert_Model\<close>: \<open>alert/model.go\<close>. \<open>Alert_Protocol\<close>: \<open>alert/protocol.go\<close>, validation and subjects.
    \<open>Alert_Evaluator\<close>: \<open>alert/evaluator.go\<close>.
  \<^item> \<open>Alert_Intervals\<close>: the interval search, once for both number types in the locale \<open>numeric_bounds\<close>.
    \<open>Alert_Lifecycle\<close>: \<open>ApplyEvaluation\<close> and \<open>Acknowledge\<close> as a state machine.
  \<^item> \<open>Alert_Service\<close>: \<open>alert/service.go\<close>; its state is the record \<open>service\<close>, its handlers are \<open>handle\<close>.
    \<open>Alert_Service_Steps\<close>: what every operation keeps (locale \<open>state_operation\<close>). \<open>Alert_Service_Wiring\<close>: the
    tables agree and the graph of summaries has no cycle; the cycle test is exact. \<open>Alert_Service_Inv\<close>: every
    history keeps this. \<open>Alert_Service_Spec\<close>: which definitions a change evaluates, what a foreign write may do.
    \<open>Alert_Settling\<close>: repeated passes over values with ordered dependencies settle (locale \<open>settling\<close>, interpreted
    on the summaries), so the evaluation of all summaries at start-up ends in a consistent service.
  \<^item> \<open>Alert_Scenarios\<close>: concrete histories. \<open>Alert_Properties\<close>: the properties.

  \<^bold>\<open>The Modbus packages.\<close>
  \<^item> \<open>Address\<close>: \<open>address/descriptor.go\<close>. \<open>Modbus_Config\<close>: \<open>modbus/config.go\<close>, with \<open>time.ParseDuration\<close> in
    \<open>Go_Time\<close>. \<open>Modbus_Group\<close>: \<open>modbus/group.go\<close>, in 16 and 32 bit words; requests are within the limits of
    the protocol and as few as possible. \<open>Modbus_Reader\<close>: \<open>modbus/reader.go\<close>; \<open>Modbus_Read_Spec\<close>: reading a
    group equals reading its points one by one.
  \<^item> \<open>Modbus_Service\<close>: \<open>modbus/service.go\<close>. \<open>Modbus_Service_Inv\<close>: tables, workers and clients follow the
    descriptors (locale \<open>descriptor_table\<close>, interpreted on both tables). \<open>Modbus_Publish\<close>: what a turn of a
    worker publishes. \<open>Modbus_Scenarios\<close>, \<open>Modbus_Properties\<close>: histories, and the properties.

  \<^bold>\<open>The bus.\<close>
  \<^item> \<open>Retain_Store\<close>: \<open>retain/store.go\<close>; the store refines a map (locale \<open>last_values\<close>, interpreted on the
    store and again on the server), survives reopening, and stops persisting after an empty payload.
    \<open>Retain_Server\<close>: \<open>retain/server.go\<close> and \<open>retain/protocol.go\<close>.
  \<^item> \<open>Stream_Client\<close>: \<open>stream/client.go\<close> (reading) and \<open>stream/registry.go\<close>. \<open>Stream_Set\<close>: \<open>stream/client.go\<close>
    (writing): numbering, announcing, and reading back through the server. \<open>Stream_Subscribe\<close>:
    \<open>stream/subscribe.go\<close>. \<open>Stream_Interest\<close>: \<open>stream/interest.go\<close>.
  \<^item> \<open>Bus_Properties\<close>: the properties.

  \<^bold>\<open>The designer.\<close> It keeps no state: a handler is a function of the request and the stream client.
  \<^item> \<open>Designer_Store\<close>: \<open>designer/store.go\<close> and what the handlers share; the contract of an operation that only
    reads (locale \<open>reading\<close>, interpreted on every reading operation). \<open>Designer_Devices\<close>: \<open>designer/server.go\<close>.
    \<open>Designer_Alerts\<close>: \<open>designer/alerts.go\<close>, \<open>designer/alert_configs.go\<close>, \<open>designer/alert_properties.go\<close>, and the
    routes, the datatype \<open>request\<close> and the function \<open>serve\<close>.
  \<^item> \<open>Designer_Live\<close>: \<open>designer/live.go\<close>, one websocket session: a store of subscriptions, the table of the
    session, commands and deliveries as steps (locale \<open>typed_delivery\<close>).
  \<^item> \<open>Designer_Spec\<close>: every request answers for what it publishes, and records are read back.
    \<open>Designer_Composed\<close>: what a saved address comes to in the Modbus service and an acknowledgement in the alert
    service. \<open>Designer_Properties\<close>: the properties.

  \<^bold>\<open>The simulator and the command line.\<close>
  \<^item> \<open>Simulator\<close>: \<open>simulator/main.go\<close> and \<open>simulator/replicate.go\<close>: the manifest, its check, the replicas on their
    own blocks of registers, seeding. A value decoded into \<open>any\<close> is the datatype \<open>go_any\<close>. \<open>Simulator_Spec\<close>: which
    manifests are accepted and what a replica holds. \<open>Simulator_Properties\<close>: the replicas read registers of
    their own, and a seeded plant is polled by the Modbus service.
  \<^item> \<open>Go_Text\<close>: \<open>strconv.ParseBool\<close>, \<open>strconv.ParseFloat\<close>, base 64 and string flags. \<open>Command_Line\<close>:
    \<open>scada-cli/main.go\<close>. \<open>Command_Properties\<close>: what a set writes a get prints, in two processes around the retain
    server, and what a command does to the bus.

  \<^bold>\<open>The whole system.\<close>
  \<^item> \<open>Bus_Adapters\<close>: \<open>streamPublisher\<close>, \<open>streamConfigurationSource\<close> and \<open>tcpClientFactory\<close> of
    \<open>modbus/service.go\<close>, \<open>streamService\<close> and \<open>defaultEpisodeID\<close> of \<open>alert/service.go\<close>. They fill in the environments of
    the two services with the stream client (\<open>modbus_on_stream\<close>, \<open>alert_on_stream\<close>). \<open>System_Properties\<close>: a
    value in the memory of a device arrives, with its type, in the alert over it.
  \<^item> \<open>Static_Files\<close>: \<open>withStaticFiles\<close> of \<open>designer-service/main.go\<close>, with \<open>path.Clean\<close> written out; no request leaves
    the directory of the user interface.

  \<^bold>\<open>Termination.\<close> No definition uses fuel. The loops over slices are structural; the depth-first search for
  cycles and the acknowledgement of a tree end because the set of outputs being visited grows inside the
  members that exist, the breadth-first propagation because the set of definitions seen grows inside the parents
  that exist; \<open>set_value\<close> calls itself once, on the registry subject. \<open>evaluateAllSummariesLocked\<close> has the bound of
  the code, one pass more than there are definitions, which \<open>summaries_settle_within_the_bound\<close> proves enough.

  \<^bold>\<open>Not modelled.\<close> The entry points of the services (but for the static files of the designer service) and the
  examples, which start and stop the parts above; the generated protobuf code, the simulated devices
  (JavaScript) and the user interface. JSON texts: the codecs are arguments, with the hypothesis that they read
  back what they write where a theorem needs it. Timing: a poll, a flush or a message comes as a step at any
  moment, so no theorem speaks of rates, and a request that times out is one that answers with an error.
\<close>

end
